theory Spec2Isabelle
  imports Main "HOL-Library.Word" "HOL-Library.Multiset"
begin

section \<open>The profiler core of \<^verbatim>\<open>src/demo.cpp\<close>\<close>

text \<open>
  The engine is the class \<^verbatim>\<open>Module\<close>: a registry of persistent per-callable
  aggregates, a stack of frames of the live invocations, and the kind and the clock
  readings of the last event. Every member function that changes the engine is a
  function from the engine's state to a result: \<open>Inr\<close> the new state, \<open>Inl\<close>
  the C++ exception that leaves the function, or the undefined behaviour it runs into.

  \<^item> \<^verbatim>\<open>size_t\<close> is a 64-bit word: \<open>+\<close> and \<open>-\<close> wrap around.
  \<^item> \<^verbatim>\<open>std::chrono::nanoseconds\<close> counts and clock readings are integers. Their
    representation is a signed 64-bit integer, whose overflow is undefined in C++ and
    wraps around on the usual targets. Sums and differences of durations are those of
    the integers: the identities proved about them hold modulo \<open>2^64\<close> as well, and the
    one property that depends on the order of durations, monotonicity, is proved
    together with the bound that keeps every duration of the session within the signed
    64-bit range, where the integers and the C++ arithmetic agree.
  \<^item> A \<^verbatim>\<open>PyCodeObject*\<close> used as a key is a natural number.
  \<^item> What the host interpreter hands to the engine is input of the model: the frame of
    an event with its code identity, name, line number and the answer of
    \<^verbatim>\<open>inspect.getsourcelines\<close>, the callable of a native call, and the two readings
    of \<^verbatim>\<open>clock::now()\<close> that \<^verbatim>\<open>Module::profile\<close> takes. Strings are taken as
    decoded; reference counts and the handles \<^verbatim>\<open>parent_\<close> and \<^verbatim>\<open>inspect_\<close> are left
    out, and so is the write to \<^verbatim>\<open>frame->f_trace_opcodes\<close>.
  \<^item> An exception ends the run: the result is the exception alone, not the engine it
    leaves behind.
\<close>

subsection \<open>Results and errors\<close>

datatype at_site = FunctionsAt | CFunctionsAt | FrameLinesAt | FunctionLinesAt

datatype error =
    OutOfRange at_site        \<comment> \<open>\<^verbatim>\<open>std::out_of_range\<close> thrown by \<^verbatim>\<open>at\<close> of the named container\<close>
  | CouldNotGetSourceLines    \<comment> \<open>\<^verbatim>\<open>std::runtime_error\<close> of \<^verbatim>\<open>get_lines\<close>\<close>
  | CouldNotGetCCallName      \<comment> \<open>\<^verbatim>\<open>std::runtime_error\<close> of \<^verbatim>\<open>profile_c_call\<close>\<close>
  | ShouldNotGetHere          \<comment> \<open>\<^verbatim>\<open>std::runtime_error\<close> of the \<^verbatim>\<open>default\<close> branches\<close>
  | TopOfEmptyStack           \<comment> \<open>\<^verbatim>\<open>frame_stack_.top()\<close> on an empty stack: undefined behaviour\<close>

fun bindE :: "error + 'a \<Rightarrow> ('a \<Rightarrow> error + 'b) \<Rightarrow> error + 'b" where
  "bindE (Inl e) f = Inl e"
| "bindE (Inr x) f = f x"

subsection \<open>Data model\<close>

type_synonym size_t = "64 word"
type_synonym duration = int
type_synonym time_point = int
type_synonym code_id = nat

record BaseFunction =
  n_calls :: size_t
  name :: string
  internal_time :: duration

definition BaseFunction_new :: "string \<Rightarrow> BaseFunction" where
  "BaseFunction_new nm = \<lparr>n_calls = 0, name = nm, internal_time = 0\<rparr>"

definition add_elapsed_internal ::
  "duration \<Rightarrow> 'a BaseFunction_scheme \<Rightarrow> 'a BaseFunction_scheme" where
  "add_elapsed_internal time f = f\<lparr>internal_time := internal_time f + time\<rparr>"

definition add_call :: "'a BaseFunction_scheme \<Rightarrow> 'a BaseFunction_scheme" where
  "add_call f = f\<lparr>n_calls := n_calls f + 1\<rparr>"

record LineState =
  line_n_calls :: size_t
  line_internal :: duration
  line_external :: duration

definition LineState_new :: LineState where
  "LineState_new = \<lparr>line_n_calls = 0, line_internal = 0, line_external = 0\<rparr>"

definition add_internal :: "duration \<Rightarrow> 'a LineState_scheme \<Rightarrow> 'a LineState_scheme" where
  "add_internal dur l = l\<lparr>line_internal := line_internal l + dur\<rparr>"

definition add_external :: "duration \<Rightarrow> 'a LineState_scheme \<Rightarrow> 'a LineState_scheme" where
  "add_external dur l = l\<lparr>line_external := line_external l + dur\<rparr>"

definition line_add_call :: "'a LineState_scheme \<Rightarrow> 'a LineState_scheme" where
  "line_add_call l = l\<lparr>line_n_calls := line_n_calls l + 1\<rparr>"

text \<open>\<^verbatim>\<open>LineState::operator+=\<close>: the left operand may be a \<^verbatim>\<open>LineRecord\<close>, which keeps
  its text.\<close>

definition plus_eq :: "'a LineState_scheme \<Rightarrow> 'b LineState_scheme \<Rightarrow> 'a LineState_scheme" where
  "plus_eq lhs rhs = lhs
     \<lparr>line_n_calls := line_n_calls lhs + line_n_calls rhs,
      line_internal := line_internal lhs + line_internal rhs,
      line_external := line_external lhs + line_external rhs\<rparr>"

record LineRecord = LineState +
  line_text :: string

definition LineRecord_new :: "string \<Rightarrow> LineRecord" where
  "LineRecord_new line = \<lparr>line_n_calls = 0, line_internal = 0, line_external = 0, line_text = line\<rparr>"

record Function = BaseFunction +
  code :: code_id
  function_lines :: "LineRecord list"

text \<open>The constructor's loop appends one record per line to the empty \<^verbatim>\<open>lines_\<close>
  (the \<^verbatim>\<open>reserve\<close> before it is given the size of the still empty vector).\<close>

primrec emplace_lines :: "LineRecord list \<Rightarrow> string list \<Rightarrow> LineRecord list" where
  "emplace_lines acc [] = acc"
| "emplace_lines acc (line # rest) = emplace_lines (acc @ [LineRecord_new line]) rest"

definition Function_new :: "string \<Rightarrow> string list \<Rightarrow> code_id \<Rightarrow> Function" where
  "Function_new nm lines c =
     \<lparr>n_calls = 0, name = nm, internal_time = 0, code = c,
      function_lines = emplace_lines [] lines\<rparr>"

text \<open>\<^verbatim>\<open>Function::line\<close> is \<^verbatim>\<open>lines_.at(line_number)\<close>.\<close>

definition line_at :: "nat \<Rightarrow> Function \<Rightarrow> error + LineRecord" where
  "line_at i f =
     (if i < length (function_lines f) then Inr (function_lines f ! i)
      else Inl (OutOfRange FunctionLinesAt))"

datatype Instruction =
  kOrigin | kLine | kCall | kReturn | kException | kCCall | kCReturn | kCException | kInvalid

record FrameState =
  starting_line :: size_t
  current_line_no :: size_t
  function_key :: code_id
  frame_lines :: "LineState list"
  frame_internal :: duration

definition FrameState_new :: "code_id \<Rightarrow> nat \<Rightarrow> size_t \<Rightarrow> FrameState" where
  "FrameState_new c n_lines start =
     \<lparr>starting_line = start, current_line_no = 0, function_key = c,
      frame_lines = replicate n_lines LineState_new, frame_internal = 0\<rparr>"

text \<open>\<^verbatim>\<open>FrameState::total_time\<close>: the loop adds the internal and then the external time
  of every line to the result.\<close>

primrec total_time_loop :: "duration \<Rightarrow> LineState list \<Rightarrow> duration" where
  "total_time_loop result [] = result"
| "total_time_loop result (line # rest) =
     total_time_loop (result + line_internal line + line_external line) rest"

definition total_time :: "FrameState \<Rightarrow> duration" where
  "total_time fr = total_time_loop 0 (frame_lines fr)"

text \<open>\<^verbatim>\<open>FrameState::current_line\<close> returns a reference to
  \<^verbatim>\<open>lines_.at(current_line_-starting_line_-1)\<close>, computed in \<^verbatim>\<open>size_t\<close>. The model
  returns the index the reference points at.\<close>

definition current_line_index :: "FrameState \<Rightarrow> nat" where
  "current_line_index fr = unat (current_line_no fr - starting_line fr - 1)"

definition current_line :: "FrameState \<Rightarrow> error + nat" where
  "current_line fr =
     (if current_line_index fr < length (frame_lines fr) then Inr (current_line_index fr)
      else Inl (OutOfRange FrameLinesAt))"

text \<open>A write through that reference.\<close>

definition update_current_line ::
  "(LineState \<Rightarrow> LineState) \<Rightarrow> FrameState \<Rightarrow> error + FrameState" where
  "update_current_line g fr =
     bindE (current_line fr)
       (\<lambda>i. Inr (fr\<lparr>frame_lines := (frame_lines fr)[i := g (frame_lines fr ! i)]\<rparr>))"

definition set_current_line :: "size_t \<Rightarrow> FrameState \<Rightarrow> error + FrameState \<times> nat" where
  "set_current_line line_number fr =
     (let fr' = fr\<lparr>current_line_no := line_number\<rparr>
      in bindE (current_line fr') (\<lambda>i. Inr (fr', i)))"

definition frame_add_internal :: "duration \<Rightarrow> FrameState \<Rightarrow> FrameState" where
  "frame_add_internal dur fr = fr\<lparr>frame_internal := frame_internal fr + dur\<rparr>"

subsection \<open>What the host supplies\<close>

text \<open>The frame object of an event, as far as the engine reads it:
  \<^verbatim>\<open>frame->f_code\<close>, \<^verbatim>\<open>PyFrame_GetName\<close>, \<^verbatim>\<open>PyFrame_GetLineNumber\<close> (a C
  \<^verbatim>\<open>int\<close>) and the answer of \<^verbatim>\<open>inspect.getsourcelines\<close> on the code object: the
  list of lines and the starting line as \<^verbatim>\<open>PyLong_AsUnsignedLongLong\<close> reads it, or
  nothing when the call fails. Within one event the host gives the same answer each time
  it is asked.\<close>

record PyFrameObject =
  f_code :: code_id
  co_name :: string
  f_lineno :: int
  getsourcelines :: "(string list \<times> size_t) option"

text \<open>The callable of a native call: its \<^verbatim>\<open>__module__\<close> and \<^verbatim>\<open>__qualname__\<close>, or
  nothing when the name cannot be formatted.\<close>

type_synonym PyObject = "(string \<times> string) option"

datatype what =
    PyTrace_CALL | PyTrace_EXCEPTION | PyTrace_LINE | PyTrace_RETURN
  | PyTrace_C_CALL | PyTrace_C_EXCEPTION | PyTrace_C_RETURN | PyTrace_OPCODE
  | PyTrace_other

subsection \<open>The engine\<close>

text \<open>The members of \<^verbatim>\<open>Module\<close> that carry the state of a session. The map
  \<^verbatim>\<open>functions_\<close> is \<open>py_functions\<close> here.\<close>

record Module =
  py_functions :: "code_id \<rightharpoonup> Function"
  c_functions :: "string \<rightharpoonup> BaseFunction"
  frame_stack :: "FrameState list"    \<comment> \<open>the head is the top\<close>
  last_instruction :: Instruction
  last_instruction_start :: time_point
  last_instruction_end :: time_point
  last_c_name :: string

definition Module_new :: Module where
  "Module_new =
     \<lparr>py_functions = Map.empty, c_functions = Map.empty, frame_stack = [],
      last_instruction = kInvalid, last_instruction_start = 0, last_instruction_end = 0,
      last_c_name = []\<rparr>"

definition elapsed :: "Module \<Rightarrow> duration" where
  "elapsed s = last_instruction_end s - last_instruction_start s"

definition start :: "Module \<Rightarrow> Module" where
  "start s = s\<lparr>last_instruction := kOrigin\<rparr>"

definition stop :: "Module \<Rightarrow> Module" where
  "stop s = s"

text \<open>\<^verbatim>\<open>Module::get_lines\<close>: the loop starts at index 1 of the list the host returned.\<close>

function get_lines_loop :: "string list \<Rightarrow> nat \<Rightarrow> string list \<Rightarrow> string list" where
  "get_lines_loop lines_py i lines =
     (if i < length lines_py then get_lines_loop lines_py (Suc i) (lines @ [lines_py ! i])
      else lines)"
  by pat_completeness auto
termination
  by (relation "measure (\<lambda>(lines_py, i, lines). length lines_py - i)") auto

declare get_lines_loop.simps [simp del]

definition get_lines :: "PyFrameObject \<Rightarrow> error + string list \<times> size_t" where
  "get_lines frame =
     (case getsourcelines frame of
        None \<Rightarrow> Inl CouldNotGetSourceLines
      | Some (lines_py, line_start) \<Rightarrow> Inr (get_lines_loop lines_py 1 [], line_start))"

definition emplace_frame :: "PyFrameObject \<Rightarrow> Module \<Rightarrow> error + Module" where
  "emplace_frame frame s =
     bindE (get_lines frame)
       (\<lambda>(lines, starting).
          Inr (s\<lparr>frame_stack :=
                 FrameState_new (f_code frame) (length lines) starting # frame_stack s\<rparr>))"

definition add_function :: "PyFrameObject \<Rightarrow> Module \<Rightarrow> error + Module" where
  "add_function frame s =
     (if f_code frame \<in> dom (py_functions s) then Inr s
      else bindE (get_lines frame)
        (\<lambda>(lines, starting).
           Inr (s\<lparr>py_functions := (py_functions s)
                  (f_code frame \<mapsto> Function_new (co_name frame) lines (f_code frame))\<rparr>)))"

text \<open>\<^verbatim>\<open>emplace\<close> keeps an entry that is already there.\<close>

definition add_c_function :: "string \<Rightarrow> Module \<Rightarrow> Module" where
  "add_c_function nm s =
     (if nm \<in> dom (c_functions s) then s
      else s\<lparr>c_functions := (c_functions s)(nm \<mapsto> BaseFunction_new nm)\<rparr>)"

text \<open>\<^verbatim>\<open>frame_stack_.top()\<close> and a write through the reference it returns.\<close>

definition top :: "Module \<Rightarrow> error + FrameState" where
  "top s = (case frame_stack s of [] \<Rightarrow> Inl TopOfEmptyStack | fr # below \<Rightarrow> Inr fr)"

definition set_top :: "FrameState \<Rightarrow> Module \<Rightarrow> Module" where
  "set_top fr s = s\<lparr>frame_stack := fr # tl (frame_stack s)\<rparr>"

subsubsection \<open>The Begin steps\<close>

definition profile_call :: "PyFrameObject \<Rightarrow> Module \<Rightarrow> error + Module" where
  "profile_call frame s =
     bindE (add_function frame s) (\<lambda>s1.
     bindE (case py_functions s1 (f_code frame) of
              None \<Rightarrow> Inl (OutOfRange FunctionsAt)
            | Some function \<Rightarrow>
                Inr (s1\<lparr>py_functions := (py_functions s1)(f_code frame \<mapsto> add_call function)\<rparr>)) (\<lambda>s2.
     bindE (emplace_frame frame s2) (\<lambda>s3.
     Inr (s3\<lparr>last_instruction := kCall\<rparr>))))"

definition profile_line :: "PyFrameObject \<Rightarrow> Module \<Rightarrow> error + Module" where
  "profile_line frame s =
     (let s1 = s\<lparr>last_instruction := kLine\<rparr>
      in if frame_stack s1 = [] then Inr s1
         else bindE (top s1) (\<lambda>fr.
              bindE (set_current_line (word_of_int (f_lineno frame)) fr) (\<lambda>(fr', i).
              Inr (set_top (fr'\<lparr>frame_lines :=
                     (frame_lines fr')[i := line_add_call (frame_lines fr' ! i)]\<rparr>) s1))))"

definition c_call_name :: "string \<Rightarrow> string \<Rightarrow> string" where
  "c_call_name module qualname = ''<C-function '' @ module @ ''.'' @ qualname @ ''>''"

definition profile_c_call :: "PyFrameObject \<Rightarrow> PyObject \<Rightarrow> Module \<Rightarrow> error + Module" where
  "profile_c_call frame arg s =
     (case arg of
        None \<Rightarrow> Inl CouldNotGetCCallName
      | Some (module, qualname) \<Rightarrow>
          (let s1 = s\<lparr>last_c_name := c_call_name module qualname\<rparr>;
               s2 = add_c_function (last_c_name s1) s1
           in bindE (case c_functions s2 (last_c_name s1) of
                       None \<Rightarrow> Inl (OutOfRange CFunctionsAt)
                     | Some c_function \<Rightarrow>
                         Inr (s2\<lparr>c_functions :=
                                (c_functions s2)(last_c_name s1 \<mapsto> add_call c_function)\<rparr>))
                (\<lambda>s3. Inr (s3\<lparr>last_instruction := kCCall\<rparr>))))"

definition profile_return :: "PyFrameObject \<Rightarrow> Module \<Rightarrow> Module" where
  "profile_return frame s = s\<lparr>last_instruction := kReturn\<rparr>"

definition profile_c_return :: "PyFrameObject \<Rightarrow> Module \<Rightarrow> Module" where
  "profile_c_return frame s = s\<lparr>last_instruction := kCReturn\<rparr>"

subsubsection \<open>The Finish steps\<close>

definition finish_origin :: "PyFrameObject \<Rightarrow> Module \<Rightarrow> Module" where
  "finish_origin frame s = s"

definition finish_call :: "PyFrameObject \<Rightarrow> Module \<Rightarrow> error + Module" where
  "finish_call frame s =
     (case py_functions s (f_code frame) of
        None \<Rightarrow> Inl (OutOfRange FunctionsAt)
      | Some function \<Rightarrow>
          Inr (s\<lparr>py_functions :=
                 (py_functions s)(f_code frame \<mapsto> add_elapsed_internal (elapsed s) function)\<rparr>))"

definition finish_ccall :: "PyFrameObject \<Rightarrow> Module \<Rightarrow> error + Module" where
  "finish_ccall frame s =
     (case c_functions s (last_c_name s) of
        None \<Rightarrow> Inl (OutOfRange CFunctionsAt)
      | Some c_function \<Rightarrow>
          (let s1 = s\<lparr>c_functions :=
                 (c_functions s)(last_c_name s \<mapsto> add_elapsed_internal (elapsed s) c_function)\<rparr>
           in bindE (top s1) (\<lambda>fr.
              bindE (update_current_line (add_external (elapsed s1)) fr) (\<lambda>fr'.
              Inr (set_top fr' s1)))))"

definition finish_line :: "PyFrameObject \<Rightarrow> Module \<Rightarrow> error + Module" where
  "finish_line frame s =
     (if frame_stack s = [] then Inr s
      else bindE (top s) (\<lambda>fr.
           bindE (update_current_line (add_internal (elapsed s)) fr) (\<lambda>fr'.
           Inr (set_top fr' s))))"

definition finish_creturn :: "PyFrameObject \<Rightarrow> Module \<Rightarrow> error + Module" where
  "finish_creturn frame s =
     bindE (top s) (\<lambda>fr. Inr (set_top (frame_add_internal (elapsed s) fr) s))"

text \<open>The loop of \<^verbatim>\<open>Module::pop_frame\<close>: line \<open>i\<close> of the frame is added to
  \<^verbatim>\<open>function.line(i)\<close>, with \<open>i\<close> counting from 0.\<close>

fun merge_lines :: "LineState list \<Rightarrow> nat \<Rightarrow> Function \<Rightarrow> error + Function" where
  "merge_lines [] i function = Inr function"
| "merge_lines (line # rest) i function =
     bindE (line_at i function) (\<lambda>line_record.
       merge_lines rest (Suc i)
         (function\<lparr>function_lines := (function_lines function)[i := plus_eq line_record line]\<rparr>))"

definition pop_frame :: "Module \<Rightarrow> error + Module" where
  "pop_frame s =
     bindE (top s) (\<lambda>frame.
     bindE (case py_functions s (function_key frame) of
              None \<Rightarrow> Inl (OutOfRange FunctionsAt)
            | Some function \<Rightarrow> Inr (add_elapsed_internal (frame_internal frame) function))
       (\<lambda>function.
     bindE (merge_lines (frame_lines frame) 0 function) (\<lambda>function'.
       (let s1 = s\<lparr>py_functions := (py_functions s)(function_key frame \<mapsto> function')\<rparr>;
            total = total_time frame;
            s2 = s1\<lparr>frame_stack := tl (frame_stack s1)\<rparr>
        in if frame_stack s2 \<noteq> []
           then bindE (top s2) (\<lambda>caller.
                bindE (update_current_line (add_external total) caller) (\<lambda>caller'.
                Inr (set_top caller' s2)))
           else Inr s2))))"

definition finish_return :: "PyFrameObject \<Rightarrow> Module \<Rightarrow> error + Module" where
  "finish_return frame s =
     bindE (top s) (\<lambda>fr.
       pop_frame (set_top (frame_add_internal (elapsed s) fr) s))"

subsubsection \<open>The dispatcher\<close>

text \<open>The first \<^verbatim>\<open>switch\<close> of \<^verbatim>\<open>Module::profile\<close>, on the kind of the previous event.\<close>

fun finish :: "Instruction \<Rightarrow> PyFrameObject \<Rightarrow> Module \<Rightarrow> error + Module" where
  "finish kOrigin frame s = Inr (finish_origin frame s)"
| "finish kLine frame s = finish_line frame s"
| "finish kCall frame s = finish_call frame s"
| "finish kReturn frame s = finish_return frame s"
| "finish kException frame s = Inr s"
| "finish kCCall frame s = finish_ccall frame s"
| "finish kCReturn frame s = finish_creturn frame s"
| "finish kCException frame s = Inr s"
| "finish kInvalid frame s = Inr s"

text \<open>The second \<^verbatim>\<open>switch\<close>, on the kind of the new event.\<close>

fun begin_event :: "what \<Rightarrow> PyFrameObject \<Rightarrow> PyObject \<Rightarrow> Module \<Rightarrow> error + Module" where
  "begin_event PyTrace_LINE frame arg s = profile_line frame s"
| "begin_event PyTrace_CALL frame arg s = profile_call frame s"
| "begin_event PyTrace_RETURN frame arg s = Inr (profile_return frame s)"
| "begin_event PyTrace_C_CALL frame arg s = profile_c_call frame arg s"
| "begin_event PyTrace_C_RETURN frame arg s = Inr (profile_c_return frame s)"
| "begin_event PyTrace_EXCEPTION frame arg s = Inr s"
| "begin_event PyTrace_C_EXCEPTION frame arg s = Inr (profile_c_return frame s)"
| "begin_event PyTrace_OPCODE frame arg s = Inr s"
| "begin_event PyTrace_other frame arg s = Inl ShouldNotGetHere"

text \<open>\<^verbatim>\<open>Module::profile\<close>; \<open>now1\<close> and \<open>now2\<close> are the readings of \<^verbatim>\<open>clock::now()\<close>
  at its entry and at its exit.\<close>

definition profile ::
  "what \<Rightarrow> PyFrameObject \<Rightarrow> PyObject \<Rightarrow> time_point \<Rightarrow> time_point \<Rightarrow> Module \<Rightarrow> error + Module" where
  "profile w frame arg now1 now2 s =
     (let s1 = s\<lparr>last_instruction_end := now1\<rparr>
      in bindE (finish (last_instruction s1) frame s1) (\<lambda>s2.
         bindE (begin_event w frame arg s2) (\<lambda>s3.
         Inr (s3\<lparr>last_instruction_start := now2\<rparr>))))"

text \<open>The two callbacks registered with the interpreter by \<^verbatim>\<open>Module::start\<close>. The
  profile hook forwards every event; the trace hook forwards line events only and
  returns at once on any other event.\<close>

definition profile_func ::
  "what \<Rightarrow> PyFrameObject \<Rightarrow> PyObject \<Rightarrow> time_point \<Rightarrow> time_point \<Rightarrow> Module \<Rightarrow> error + Module" where
  "profile_func w frame arg now1 now2 s = profile w frame arg now1 now2 s"

definition trace_func ::
  "what \<Rightarrow> PyFrameObject \<Rightarrow> PyObject \<Rightarrow> time_point \<Rightarrow> time_point \<Rightarrow> Module \<Rightarrow> error + Module" where
  "trace_func w frame arg now1 now2 s =
     (if w \<noteq> PyTrace_LINE then Inr s else profile_func w frame arg now1 now2 s)"

text \<open>An event as it reaches \<^verbatim>\<open>Module::profile\<close>, with the two clock readings taken
  while it is processed, and the engine run over a sequence of events. The run stops at
  the first exception.\<close>

record Event =
  ev_what :: what
  ev_frame :: PyFrameObject
  ev_arg :: PyObject
  ev_now1 :: time_point
  ev_now2 :: time_point

fun run :: "Event list \<Rightarrow> Module \<Rightarrow> error + Module" where
  "run [] s = Inr s"
| "run (e # es) s =
     bindE (profile (ev_what e) (ev_frame e) (ev_arg e) (ev_now1 e) (ev_now2 e) s) (run es)"

subsubsection \<open>The report\<close>

text \<open>The dictionaries \<^verbatim>\<open>Module::dump\<close> builds. \<^verbatim>\<open>PyLong_FromUnsignedLongLong\<close>
  reads a count as it is and a duration's signed 64-bit count as an unsigned one.\<close>

record FunctionDict =
  dict_name :: string
  dict_n_calls :: nat
  dict_internal_ns :: nat

record LineDict =
  dict_line_str :: string
  dict_line_n_calls :: nat
  dict_line_internal_ns :: nat
  dict_line_external_ns :: nat

record FunctionLinesDict = FunctionDict +
  dict_lines :: "LineDict list"

record Report =
  report_functions :: "code_id \<rightharpoonup> FunctionLinesDict"
  report_c_functions :: "string \<rightharpoonup> FunctionDict"

definition as_unsigned_long_long :: "duration \<Rightarrow> nat" where
  "as_unsigned_long_long d = nat (d mod 2 ^ 64)"

definition CreateFunctionDict :: "'a BaseFunction_scheme \<Rightarrow> FunctionDict" where
  "CreateFunctionDict function =
     \<lparr>dict_name = name function, dict_n_calls = unat (n_calls function),
      dict_internal_ns = as_unsigned_long_long (internal_time function)\<rparr>"

definition line_dict :: "LineRecord \<Rightarrow> LineDict" where
  "line_dict line =
     \<lparr>dict_line_str = line_text line, dict_line_n_calls = unat (line_n_calls line),
      dict_line_internal_ns = as_unsigned_long_long (line_internal line),
      dict_line_external_ns = as_unsigned_long_long (line_external line)\<rparr>"

definition function_dict :: "Function \<Rightarrow> FunctionLinesDict" where
  "function_dict function =
     FunctionDict.extend (CreateFunctionDict function)
       (FunctionLinesDict.fields (map line_dict (function_lines function)))"

text \<open>\<^verbatim>\<open>Module::dump\<close> is a member function that is not \<^verbatim>\<open>const\<close>: it returns the
  report and the engine as it leaves it. The path it is given is not used.\<close>

definition dump :: "string \<Rightarrow> Module \<Rightarrow> Report \<times> Module" where
  "dump path s =
     (\<lparr>report_functions = (\<lambda>key. map_option function_dict (py_functions s key)),
       report_c_functions = (\<lambda>nm. map_option CreateFunctionDict (c_functions s nm))\<rparr>,
      s)"

subsection \<open>Closed forms and example inputs\<close>

text \<open>What the loop of \<^verbatim>\<open>pop_frame\<close> computes when no \<^verbatim>\<open>at\<close> throws: the records
  with the frame's lines added position by position.\<close>

fun zip_plus :: "LineRecord list \<Rightarrow> LineState list \<Rightarrow> LineRecord list" where
  "zip_plus (r # rs) (l # ls) = plus_eq r l # zip_plus rs ls"
| "zip_plus rs [] = rs"
| "zip_plus [] ls = []"

text \<open>A callable \<open>f\<close> whose source is three lines starting at line 10, a frame of it
  standing at a given line, and an engine that holds \<open>f\<close> and one live frame of it, at
  line 11.\<close>

definition ex_frame :: "int \<Rightarrow> PyFrameObject" where
  "ex_frame lineno =
     \<lparr>f_code = 1, co_name = ''f'', f_lineno = lineno,
      getsourcelines = Some ([''def f():'', ''  x = g()'', ''  return x''], 10)\<rparr>"

definition ex_line :: "nat \<Rightarrow> int \<Rightarrow> int \<Rightarrow> LineState" where
  "ex_line n i e = \<lparr>line_n_calls = of_nat n, line_internal = i, line_external = e\<rparr>"

definition ex_module :: Module where
  "ex_module =
     Module_new
       \<lparr>py_functions := [1 \<mapsto> Function_new ''f'' [''  x = g()'', ''  return x''] 1],
        frame_stack := [(FrameState_new 1 2 10)
                          \<lparr>current_line_no := 11,
                           frame_lines := [ex_line 1 10 5, ex_line 1 20 0], frame_internal := 3\<rparr>]\<rparr>"

text \<open>The engine \<open>ex_module\<close> after its frame is popped.\<close>

definition ex_popped :: Module where
  "ex_popped =
     Module_new
       \<lparr>py_functions := [1 \<mapsto>
          \<lparr>n_calls = 0, name = ''f'', internal_time = 3, code = 1,
           function_lines =
             [\<lparr>line_n_calls = 1, line_internal = 10, line_external = 5, line_text = ''  x = g()''\<rparr>,
              \<lparr>line_n_calls = 1, line_internal = 20, line_external = 0, line_text = ''  return x''\<rparr>]\<rparr>]\<rparr>"

text \<open>The registry after \<^verbatim>\<open>pop_frame\<close> has merged the frame \<open>fr\<close> into its entry \<open>fn\<close>.\<close>

definition popped_functions :: "FrameState \<Rightarrow> Function \<Rightarrow> Module \<Rightarrow> code_id \<rightharpoonup> Function" where
  "popped_functions fr fn s =
     (py_functions s)(function_key fr \<mapsto>
        fn\<lparr>internal_time := internal_time fn + frame_internal fr,
           function_lines := zip_plus (function_lines fn) (frame_lines fr)\<rparr>)"



text \<open>The engine \<open>ex_module\<close> just after the Begin step of a call of the native
  \<open>len\<close>, which ended at clock reading 100.\<close>

definition ex_in_ccall :: Module where
  "ex_in_ccall =
     ex_module
       \<lparr>c_functions := [''<C-function builtins.len>'' \<mapsto>
                          (BaseFunction_new ''<C-function builtins.len>'')\<lparr>n_calls := 1\<rparr>],
        last_instruction := kCCall,
        last_instruction_start := 100,
        last_c_name := ''<C-function builtins.len>''\<rparr>"

text \<open>The engine \<open>ex_in_ccall\<close> after a native exception processed between the clock
  readings 105 and 106, and after a line event at line 12 processed from reading 113 on.\<close>

definition ex_after_c_exception :: Module where
  "ex_after_c_exception =
     ex_in_ccall
       \<lparr>c_functions := [''<C-function builtins.len>'' \<mapsto>
           \<lparr>n_calls = 1, name = ''<C-function builtins.len>'', internal_time = 5\<rparr>],
        frame_stack := [(FrameState_new 1 2 10)
           \<lparr>current_line_no := 11,
            frame_lines := [ex_line 1 10 10, ex_line 1 20 0], frame_internal := 3\<rparr>],
        last_instruction := kCReturn,
        last_instruction_start := 106,
        last_instruction_end := 105\<rparr>"

definition ex_after_c_exception_line :: Module where
  "ex_after_c_exception_line =
     ex_after_c_exception
       \<lparr>frame_stack := [(FrameState_new 1 2 10)
           \<lparr>current_line_no := 12,
            frame_lines := [ex_line 1 10 10, ex_line 2 20 0], frame_internal := 10\<rparr>],
        last_instruction := kLine,
        last_instruction_start := 114,
        last_instruction_end := 113\<rparr>"

text \<open>The sum of the values \<^verbatim>\<open>elapsed()\<close> takes at the events of a list, when the
  engine was last left at clock reading \<open>t\<close>.\<close>

fun elapsed_sum :: "time_point \<Rightarrow> Event list \<Rightarrow> duration" where
  "elapsed_sum t [] = 0"
| "elapsed_sum t (e # es) = (ev_now1 e - t) + elapsed_sum (ev_now2 e) es"

text \<open>An event in a frame of \<open>f\<close>, processed in no time at clock reading \<open>t\<close>. Then a
  session: \<open>f\<close> is called at reading 0, reaches line 11 at reading 7 and returns at
  reading 17; \<open>ex_called\<close> is the engine after the call, \<open>ex_returning\<close> the
  engine after the return, \<open>ex_at_pop\<close> the engine
  on which the next event, at reading 22, calls \<^verbatim>\<open>pop_frame\<close>, and \<open>ex_popped_frame\<close>
  the frame it pops.\<close>

definition ex_event :: "what \<Rightarrow> int \<Rightarrow> time_point \<Rightarrow> Event" where
  "ex_event w lineno t =
     \<lparr>ev_what = w, ev_frame = ex_frame lineno, ev_arg = None, ev_now1 = t, ev_now2 = t\<rparr>"

definition ex_called :: Module where
  "ex_called =
     Module_new
       \<lparr>py_functions := [1 \<mapsto> add_call (Function_new ''f'' [''  x = g()'', ''  return x''] 1)],
        frame_stack := [FrameState_new 1 2 10],
        last_instruction := kCall\<rparr>"

definition ex_returning :: Module where
  "ex_returning =
     Module_new
       \<lparr>py_functions := [1 \<mapsto>
          \<lparr>n_calls = 1, name = ''f'', internal_time = 7, code = 1,
           function_lines = [LineRecord_new ''  x = g()'', LineRecord_new ''  return x'']\<rparr>],
        frame_stack := [(FrameState_new 1 2 10)
          \<lparr>current_line_no := 11, frame_lines := [ex_line 1 10 0, ex_line 0 0 0]\<rparr>],
        last_instruction := kReturn,
        last_instruction_start := 17,
        last_instruction_end := 17\<rparr>"

definition ex_popped_frame :: FrameState where
  "ex_popped_frame =
     (FrameState_new 1 2 10)
       \<lparr>current_line_no := 11, frame_lines := [ex_line 1 10 0, ex_line 0 0 0],
        frame_internal := 5\<rparr>"

definition ex_at_pop :: Module where
  "ex_at_pop = ex_returning\<lparr>last_instruction_end := 22, frame_stack := [ex_popped_frame]\<rparr>"

text \<open>The kind a Begin step leaves as the last instruction. An exception event and
  an opcode event leave the kind of the event before them in place, so that the next
  Finish step is the one of that kind again.\<close>

definition begun :: "what \<Rightarrow> Instruction \<Rightarrow> Instruction" where
  "begun w prev =
     (case w of PyTrace_LINE \<Rightarrow> kLine | PyTrace_CALL \<Rightarrow> kCall | PyTrace_RETURN \<Rightarrow> kReturn
      | PyTrace_C_CALL \<Rightarrow> kCCall | PyTrace_C_RETURN \<Rightarrow> kCReturn
      | PyTrace_C_EXCEPTION \<Rightarrow> kCReturn | _ \<Rightarrow> prev)"

text \<open>The events of one invocation, from the first event after its call to its return,
  those of the calls nested in it included. \<open>depth\<close> counts the frames of nested calls
  that lie on the stack over the frame of the invocation, and \<open>prev\<close> is the kind the
  previous event has left: after a return, the Finish step of the next event pops the
  frame on top of the stack, and a call event pushes one. The return of the invocation
  itself is the return event that finds no nested frame left; it is the last event of
  the list.\<close>

fun frame_events :: "nat \<Rightarrow> Instruction \<Rightarrow> Event list \<Rightarrow> bool" where
  "frame_events depth prev [] = False"
| "frame_events depth prev (e # es) =
     ((prev = kReturn \<longrightarrow> 0 < depth)
      \<and> (let depth' = (if prev = kReturn then depth - 1 else depth)
         in if ev_what e = PyTrace_RETURN \<and> depth' = 0 then es = []
            else frame_events (depth' + (if ev_what e = PyTrace_CALL then 1 else 0))
                   (begun (ev_what e) prev) es))"

text \<open>What of the durations \<^verbatim>\<open>elapsed()\<close> measured at these events reaches the frame
  of the invocation; \<open>t\<close> is the clock reading at which the previous event was left.
  The duration measured after a line event or after a native call, at any depth, does:
  it is time of a line, and every pop hands the line times of the popped frame to the
  caller's line. The duration measured after a native return or a native exception
  does if these belong to the invocation itself: it is overhead of the frame on top.
  The duration measured after a call goes to the aggregate of a \<^verbatim>\<open>Function\<close>, and the
  one measured after a return is overhead of the frame that is popped.\<close>

fun frame_share :: "nat \<Rightarrow> Instruction \<Rightarrow> time_point \<Rightarrow> Event list \<Rightarrow> duration" where
  "frame_share depth prev t [] = 0"
| "frame_share depth prev t (e # es) =
     (if prev = kLine \<or> prev = kCCall \<or> (prev = kCReturn \<and> depth = 0)
      then ev_now1 e - t else 0)
     + frame_share
         ((if prev = kReturn then depth - 1 else depth)
            + (if ev_what e = PyTrace_CALL then 1 else 0))
         (begun (ev_what e) prev) (ev_now2 e) es"

text \<open>The part of a stack that belongs to an invocation: its frame, which is the
  last, under the frames of the calls nested in it; and what these frames hold for it,
  the overhead of its frame and the line times of all of them.\<close>

definition share :: "FrameState list \<Rightarrow> duration" where
  "share stk = frame_internal (last stk) + (\<Sum>fr\<leftarrow>stk. total_time fr)"

subsection \<open>Order on the persistent aggregates and the invariant of a session\<close>

text \<open>The clock readings taken while a list of events is processed, in the order they
  are taken.\<close>

fun clock_readings :: "Event list \<Rightarrow> time_point list" where
  "clock_readings [] = []"
| "clock_readings (e # es) = ev_now1 e # ev_now2 e # clock_readings es"

text \<open>One record, one aggregate, one \<^verbatim>\<open>Function\<close> is nowhere above another.\<close>

definition line_le :: "'a LineState_scheme \<Rightarrow> 'b LineState_scheme \<Rightarrow> bool" where
  "line_le l l' \<longleftrightarrow>
     line_n_calls l \<le> line_n_calls l' \<and> line_internal l \<le> line_internal l'
     \<and> line_external l \<le> line_external l'"

definition base_le :: "'a BaseFunction_scheme \<Rightarrow> 'b BaseFunction_scheme \<Rightarrow> bool" where
  "base_le f f' \<longleftrightarrow> n_calls f \<le> n_calls f' \<and> internal_time f \<le> internal_time f'"

definition function_le :: "Function \<Rightarrow> Function \<Rightarrow> bool" where
  "function_le f f' \<longleftrightarrow> base_le f f' \<and> list_all2 line_le (function_lines f) (function_lines f')"

definition accumulators_le :: "Module \<Rightarrow> Module \<Rightarrow> bool" where
  "accumulators_le s s' \<longleftrightarrow>
     (\<forall>key f. py_functions s key = Some f \<longrightarrow>
        (\<exists>f'. py_functions s' key = Some f' \<and> function_le f f'))
     \<and> (\<forall>nm b. c_functions s nm = Some b \<longrightarrow>
        (\<exists>b'. c_functions s' nm = Some b' \<and> base_le b b'))"

text \<open>The invariant: no accumulator of a live frame is negative, and after \<open>n\<close> events
  no call count exceeds \<open>n\<close>, where the count of a line is the one recorded plus those
  the live frames of the callable still hold.\<close>

definition frame_nonneg :: "FrameState \<Rightarrow> bool" where
  "frame_nonneg fr \<longleftrightarrow>
     0 \<le> frame_internal fr
     \<and> list_all (\<lambda>l. 0 \<le> line_internal l \<and> 0 \<le> line_external l) (frame_lines fr)"

definition line_count :: "'a LineState_scheme list \<Rightarrow> nat \<Rightarrow> nat" where
  "line_count ls i = (if i < length ls then unat (line_n_calls (ls ! i)) else 0)"

definition pending_count :: "FrameState list \<Rightarrow> code_id \<Rightarrow> nat \<Rightarrow> nat" where
  "pending_count st key i =
     (\<Sum>fr\<leftarrow>st. if function_key fr = key then line_count (frame_lines fr) i else 0)"

definition recorded_count :: "(code_id \<rightharpoonup> Function) \<Rightarrow> code_id \<Rightarrow> nat \<Rightarrow> nat" where
  "recorded_count fs key i =
     (case fs key of None \<Rightarrow> 0 | Some f \<Rightarrow> line_count (function_lines f) i)"

definition session_inv :: "nat \<Rightarrow> Module \<Rightarrow> bool" where
  "session_inv n s \<longleftrightarrow>
     list_all frame_nonneg (frame_stack s)
     \<and> (\<forall>key f. py_functions s key = Some f \<longrightarrow> unat (n_calls f) \<le> n)
     \<and> (\<forall>nm b. c_functions s nm = Some b \<longrightarrow> unat (n_calls b) \<le> n)
     \<and> (\<forall>key i. recorded_count (py_functions s) key i
                  + pending_count (frame_stack s) key i \<le> n)"

text \<open>The clock is monotonic over the events still to come: the readings are in
  order, and the first of them is not before the reading at which the engine was last
  left (which is only used if the last event has a Finish step that attributes time).\<close>

definition attributes_time :: "Instruction \<Rightarrow> bool" where
  "attributes_time k \<longleftrightarrow> k \<in> {kLine, kCall, kReturn, kCCall, kCReturn}"

definition clock_ok :: "Module \<Rightarrow> Event list \<Rightarrow> bool" where
  "clock_ok s es \<longleftrightarrow>
     sorted (clock_readings es)
     \<and> (es = [] \<or> \<not> attributes_time (last_instruction s)
         \<or> last_instruction_start s \<le> ev_now1 (hd es))"

text \<open>The engine \<open>ex_returning\<close> after the next event, a line event of the caller at
  clock reading 22, which pops the frame of \<open>f\<close>.\<close>

definition ex_finished :: Module where
  "ex_finished =
     Module_new
       \<lparr>py_functions := [1 \<mapsto>
          \<lparr>n_calls = 1, name = ''f'', internal_time = 12, code = 1,
           function_lines =
             [\<lparr>line_n_calls = 1, line_internal = 10, line_external = 0,
               line_text = ''  x = g()''\<rparr>,
              LineRecord_new ''  return x'']\<rparr>],
        last_instruction := kLine,
        last_instruction_start := 22,
        last_instruction_end := 22\<rparr>"

text \<open>The bound of a session on its durations. After \<open>n\<close> events, the last of them
  left \<open>T\<close> nanoseconds after the first reading of the clock: a frame, with the line
  times of the frames above it, holds at most \<open>T\<close>, and a persistent accumulator, to
  which every pop may add as much, at most \<open>n * T\<close>; none is negative.\<close>

definition line_within :: "duration \<Rightarrow> 'a LineState_scheme \<Rightarrow> bool" where
  "line_within B l \<longleftrightarrow>
     0 \<le> line_internal l \<and> line_internal l \<le> B \<and> 0 \<le> line_external l \<and> line_external l \<le> B"

definition aggregates_within :: "duration \<Rightarrow> Module \<Rightarrow> bool" where
  "aggregates_within B s \<longleftrightarrow>
     (\<forall>key f. py_functions s key = Some f \<longrightarrow>
        0 \<le> internal_time f \<and> internal_time f \<le> B
        \<and> list_all (line_within B) (function_lines f))
     \<and> (\<forall>nm b. c_functions s nm = Some b \<longrightarrow> 0 \<le> internal_time b \<and> internal_time b \<le> B)"

definition time_inv :: "nat \<Rightarrow> duration \<Rightarrow> Module \<Rightarrow> bool" where
  "time_inv n T s \<longleftrightarrow>
     (\<forall>i < length (frame_stack s). share (take (Suc i) (frame_stack s)) \<le> T)
     \<and> aggregates_within (int n * T) s"

text \<open>Every duration held by the engine is between 0 and \<open>B\<close>: those of the
  persistent aggregates and those of the live frames.\<close>

definition frames_within :: "duration \<Rightarrow> Module \<Rightarrow> bool" where
  "frames_within B s \<longleftrightarrow>
     list_all (\<lambda>fr. 0 \<le> frame_internal fr \<and> frame_internal fr \<le> B
                   \<and> list_all (line_within B) (frame_lines fr))
       (frame_stack s)"

definition durations_within :: "duration \<Rightarrow> Module \<Rightarrow> bool" where
  "durations_within B s \<longleftrightarrow> aggregates_within B s \<and> frames_within B s"

text \<open>The time a session takes: from the first to the last reading of the clock.\<close>

definition clock_span :: "Event list \<Rightarrow> duration" where
  "clock_span es = (if es = [] then 0 else last (clock_readings es) - hd (clock_readings es))"

text \<open>A session whose clock goes back: \<open>f\<close> is called at reading 10, and its line 11
  is reached at reading 3.\<close>

definition ex_called_late :: Module where
  "ex_called_late = ex_called\<lparr>last_instruction_start := 10, last_instruction_end := 10\<rparr>"

definition ex_clock_back :: Module where
  "ex_clock_back =
     Module_new
       \<lparr>py_functions := [1 \<mapsto>
          \<lparr>n_calls = 1, name = ''f'', internal_time = - 7, code = 1,
           function_lines = [LineRecord_new ''  x = g()'', LineRecord_new ''  return x'']\<rparr>],
        frame_stack := [(FrameState_new 1 2 10)
          \<lparr>current_line_no := 11, frame_lines := [ex_line 1 0 0, ex_line 0 0 0]\<rparr>],
        last_instruction := kLine,
        last_instruction_start := 3,
        last_instruction_end := 3\<rparr>"

text \<open>A session with a nested call: \<open>f\<close>, called at clock reading 0, reaches its line
  11 at reading 7 and calls \<open>g\<close> there at reading 10; \<open>g\<close> reaches its line 21 at
  reading 12 and returns at reading 15; \<open>f\<close> returns at reading 19. The engines of
  this session are written with \<open>ex_session\<close>: the registry, the stack, the kind of
  the last event and the two clock readings.\<close>

definition ex_frame_g :: "int \<Rightarrow> PyFrameObject" where
  "ex_frame_g lineno =
     \<lparr>f_code = 2, co_name = ''g'', f_lineno = lineno,
      getsourcelines = Some ([''def g():'', ''  return 1''], 20)\<rparr>"

definition ex_event_g :: "what \<Rightarrow> int \<Rightarrow> time_point \<Rightarrow> Event" where
  "ex_event_g w lineno t =
     \<lparr>ev_what = w, ev_frame = ex_frame_g lineno, ev_arg = None, ev_now1 = t, ev_now2 = t\<rparr>"

definition ex_f_calls_g :: "Event list" where
  "ex_f_calls_g =
     [ex_event PyTrace_LINE 11 7, ex_event_g PyTrace_CALL 20 10, ex_event_g PyTrace_LINE 21 12,
      ex_event_g PyTrace_RETURN 21 15, ex_event PyTrace_RETURN 11 19]"

definition ex_session ::
  "(code_id \<rightharpoonup> Function) \<Rightarrow> FrameState list \<Rightarrow> Instruction \<Rightarrow> time_point \<Rightarrow> time_point
   \<Rightarrow> Module" where
  "ex_session fs st k t e =
     \<lparr>py_functions = fs, c_functions = Map.empty, frame_stack = st, last_instruction = k,
      last_instruction_start = t, last_instruction_end = e, last_c_name = []\<rparr>"

definition ex_f_state :: "int \<Rightarrow> int \<Rightarrow> FrameState" where
  "ex_f_state i e =
     \<lparr>starting_line = 10, current_line_no = 11, function_key = 1,
      frame_lines = [ex_line 1 i e, ex_line 0 0 0], frame_internal = 0\<rparr>"

definition ex_g_state :: "size_t \<Rightarrow> nat \<Rightarrow> int \<Rightarrow> FrameState" where
  "ex_g_state line n i =
     \<lparr>starting_line = 20, current_line_no = line, function_key = 2,
      frame_lines = [ex_line n i 0], frame_internal = 0\<rparr>"

definition ex_f_function :: "duration \<Rightarrow> Function" where
  "ex_f_function t =
     \<lparr>n_calls = 1, name = ''f'', internal_time = t, code = 1,
      function_lines = [LineRecord_new ''  x = g()'', LineRecord_new ''  return x'']\<rparr>"

definition ex_g_function :: "duration \<Rightarrow> size_t \<Rightarrow> int \<Rightarrow> Function" where
  "ex_g_function t n i =
     \<lparr>n_calls = 1, name = ''g'', internal_time = t, code = 2,
      function_lines =
        [\<lparr>line_n_calls = n, line_internal = i, line_external = 0,
          line_text = ''  return 1''\<rparr>]\<rparr>"

text \<open>The engine after the return of \<open>f\<close>: the frame of \<open>g\<close> is popped, and its 3 ns are
  external time of line 11 of \<open>f\<close>.\<close>

definition ex_f_returning :: Module where
  "ex_f_returning =
     ex_session [1 \<mapsto> ex_f_function 7, 2 \<mapsto> ex_g_function 6 1 3] [ex_f_state 3 3] kReturn 19 19"

section \<open>Properties\<close>

subsection \<open>Results\<close>

lemma bindE_Inr: "bindE m f = Inr y \<longleftrightarrow> (\<exists>x. m = Inr x \<and> f x = Inr y)"
  by (cases m) auto

lemma top_Inr: "top s = Inr fr \<longleftrightarrow> (\<exists>below. frame_stack s = fr # below)"
  by (auto simp: top_def split: list.splits)

lemma update_current_line_Inr:
  "update_current_line g fr = Inr fr' \<longleftrightarrow>
     current_line_index fr < length (frame_lines fr) \<and>
     fr' = fr\<lparr>frame_lines := (frame_lines fr)
              [current_line_index fr := g (frame_lines fr ! current_line_index fr)]\<rparr>"
  by (auto simp: update_current_line_def current_line_def)

subsection \<open>The merge of line states\<close>

lemma plus_eq_commute: "plus_eq (a::LineState) b = plus_eq b a"
  by (simp add: plus_eq_def add.commute)

lemma plus_eq_assoc: "plus_eq (plus_eq r a) b = plus_eq r (plus_eq a b)"
  by (simp add: plus_eq_def add.assoc)

lemma plus_eq_right_commute: "plus_eq (plus_eq r a) b = plus_eq (plus_eq r b) a"
  by (simp add: plus_eq_def add.commute add.left_commute)

lemma length_zip_plus [simp]: "length (zip_plus rs ls) = length rs"
  by (induction rs ls rule: zip_plus.induct) auto

lemma merge_lines_eq:
  "merge_lines ls i f =
     (if ls = [] \<or> i + length ls \<le> length (function_lines f)
      then Inr (f\<lparr>function_lines :=
                   take i (function_lines f) @ zip_plus (drop i (function_lines f)) ls\<rparr>)
      else Inl (OutOfRange FunctionLinesAt))"
proof (induction ls arbitrary: i f)
  case Nil
  then show ?case by simp
next
  case (Cons l ls)
  show ?case
  proof (cases "i < length (function_lines f)")
    case True
    then show ?thesis
      apply (simp add: line_at_def Cons.IH)
      apply (auto simp: take_Suc_conv_app_nth Cons_nth_drop_Suc [symmetric]
          upd_conv_take_nth_drop)
      done
  next
    case False
    then show ?thesis by (simp add: line_at_def)
  qed
qed

lemma merge_lines_0:
  "merge_lines ls 0 f =
     (if length ls \<le> length (function_lines f)
      then Inr (f\<lparr>function_lines := zip_plus (function_lines f) ls\<rparr>)
      else Inl (OutOfRange FunctionLinesAt))"
  by (cases ls) (simp_all add: merge_lines_eq del: merge_lines.simps)

lemma zip_plus_commute: "zip_plus (zip_plus rs a) b = zip_plus (zip_plus rs b) a"
proof (induction rs arbitrary: a b)
  case Nil
  then show ?case by (cases a; cases b) auto
next
  case (Cons r rs)
  show ?case
  proof (cases a)
    case Nil
    then show ?thesis by (cases b) auto
  next
    case ca: (Cons x xs)
    show ?thesis
    proof (cases b)
      case Nil
      then show ?thesis using ca by simp
    next
      case cb: (Cons y ys)
      have "plus_eq (plus_eq r x) y = plus_eq (plus_eq r y) x"
        by (rule plus_eq_right_commute)
      then show ?thesis using ca cb Cons.IH by simp
    qed
  qed
qed

lemma merge_lines_twice_commute:
  "bindE (bindE res (merge_lines a 0)) (merge_lines b 0) =
   bindE (bindE res (merge_lines b 0)) (merge_lines a 0)"
  by (cases res) (simp_all add: merge_lines_0 zip_plus_commute)

lemma fold_plus_eq_mset:
  fixes r :: "'a LineState_scheme"
  assumes "mset xs = mset ys"
  shows "fold (\<lambda>l rec. plus_eq rec l) xs r = fold (\<lambda>l rec. plus_eq rec l) ys r"
proof -
  have "fold (\<lambda>l (rec :: 'a LineState_scheme). plus_eq rec l) xs
      = fold (\<lambda>l rec. plus_eq rec l) ys"
    by (rule fold_multiset_equiv [OF _ assms])
      (rule ext, simp only: o_apply, rule plus_eq_right_commute)
  then show ?thesis by simp
qed

lemma fold_merge_lines_mset:
  assumes "mset as = mset bs"
  shows "fold (\<lambda>ls res. bindE res (merge_lines ls 0)) as res =
         fold (\<lambda>ls res. bindE res (merge_lines ls 0)) bs res"
proof -
  have "fold (\<lambda>ls res. bindE res (merge_lines ls 0)) as =
        fold (\<lambda>ls res. bindE res (merge_lines ls 0)) bs"
    by (rule fold_multiset_equiv [OF _ assms])
      (rule ext, simp only: o_apply, rule merge_lines_twice_commute)
  then show ?thesis by simp
qed

lemma pop_frame_functions_other:
  assumes "pop_frame s = Inr s'" and "top s = Inr fr" and "k \<noteq> function_key fr"
  shows "py_functions s' k = py_functions s k"
  using assms
  by (auto simp: pop_frame_def bindE_Inr set_top_def Let_def update_current_line_Inr
      split: if_splits option.splits)

text \<open>
  Claim C6. \<^verbatim>\<open>LineState::operator+=\<close> is commutative and associative on the triples
  of call count, internal time and external time. Hence adding the line states of any
  number of invocations to a persistent record gives the same record in every order,
  the loop of \<^verbatim>\<open>pop_frame\<close> run for the frames of any number of invocations of a
  callable gives the same records (or the same exception) in every order, and popping a
  frame of one callable leaves the entry of every other callable as it is.
\<close>

theorem plus_eq_merge_order_irrelevant:
  fixes a b c :: LineState and r :: LineRecord
  shows "plus_eq a b = plus_eq b a
       \<and> plus_eq (plus_eq a b) c = plus_eq a (plus_eq b c)
       \<and> plus_eq (plus_eq r a) b = plus_eq (plus_eq r b) a
       \<and> (mset xs = mset ys \<longrightarrow>
            fold (\<lambda>l rec. plus_eq rec l) xs r = fold (\<lambda>l rec. plus_eq rec l) ys r)
       \<and> (mset frames = mset frames' \<longrightarrow>
            fold (\<lambda>ls res. bindE res (merge_lines ls 0)) frames (Inr f) =
            fold (\<lambda>ls res. bindE res (merge_lines ls 0)) frames' (Inr f))
       \<and> (pop_frame s = Inr s' \<and> top s = Inr fr \<and> k \<noteq> function_key fr \<longrightarrow>
            py_functions s' k = py_functions s k)"
  using plus_eq_commute [of a b] plus_eq_assoc [of a b c] plus_eq_right_commute [of r a b]
    fold_plus_eq_mset [of xs ys r] fold_merge_lines_mset [of frames frames' "Inr f"]
    pop_frame_functions_other [of s s' fr k]
  by blast

theorem plus_eq_merge_order_irrelevant_witness:
  "mset [ex_line 1 10 5, ex_line 2 20 0] = mset [ex_line 2 20 0, ex_line 1 10 5]
   \<and> fold (\<lambda>l rec. plus_eq rec l) [ex_line 1 10 5, ex_line 2 20 0] (LineRecord_new ''x'')
     = fold (\<lambda>l rec. plus_eq rec l) [ex_line 2 20 0, ex_line 1 10 5] (LineRecord_new ''x'')
   \<and> mset [[ex_line 1 10 5], [ex_line 2 20 0, ex_line 1 1 1]]
     = mset [[ex_line 2 20 0, ex_line 1 1 1], [ex_line 1 10 5]]
   \<and> fold (\<lambda>ls res. bindE res (merge_lines ls 0)) [[ex_line 1 10 5], [ex_line 2 20 0, ex_line 1 1 1]]
        (Inr (Function_new ''f'' [''  x = g()'', ''  return x''] 1))
     = fold (\<lambda>ls res. bindE res (merge_lines ls 0)) [[ex_line 2 20 0, ex_line 1 1 1], [ex_line 1 10 5]]
        (Inr (Function_new ''f'' [''  x = g()'', ''  return x''] 1))
   \<and> pop_frame ex_module = Inr ex_popped
   \<and> top ex_module = Inr (hd (frame_stack ex_module))
   \<and> 2 \<noteq> function_key (hd (frame_stack ex_module))
   \<and> py_functions ex_popped 2 = py_functions ex_module 2"
proof -
  have p: "pop_frame ex_module = Inr ex_popped"
    by (simp add: pop_frame_def ex_module_def ex_popped_def top_def Module_new_def
      add_elapsed_internal_def Function_new_def FrameState_new_def merge_lines_0 ex_line_def
      LineRecord_new_def plus_eq_def total_time_def Let_def)
  have t: "top ex_module = Inr (hd (frame_stack ex_module))"
    by (simp add: ex_module_def top_def)
  have k: "2 \<noteq> function_key (hd (frame_stack ex_module))"
    by (simp add: ex_module_def FrameState_new_def)
  have m1: "mset [ex_line 1 10 5, ex_line 2 20 0] = mset [ex_line 2 20 0, ex_line 1 10 5]"
    by (simp add: add.commute)
  have m2: "mset [[ex_line 1 10 5], [ex_line 2 20 0, ex_line 1 1 1]]
     = mset [[ex_line 2 20 0, ex_line 1 1 1], [ex_line 1 10 5]]"
    by (simp add: add.commute)
  show ?thesis
    using plus_eq_merge_order_irrelevant
      [of "ex_line 1 10 5" "ex_line 2 20 0" "ex_line 0 0 0"
          "LineRecord_new ''x''" "[ex_line 1 10 5, ex_line 2 20 0]" "[ex_line 2 20 0, ex_line 1 10 5]"
          "[[ex_line 1 10 5], [ex_line 2 20 0, ex_line 1 1 1]]"
          "[[ex_line 2 20 0, ex_line 1 1 1], [ex_line 1 10 5]]"
          "Function_new ''f'' [''  x = g()'', ''  return x''] 1"
          ex_module ex_popped "hd (frame_stack ex_module)" 2]
      p t k m1 m2
    by blast
qed

subsection \<open>Source lines\<close>

lemma get_lines_loop_eq: "get_lines_loop lines_py i lines = lines @ drop i lines_py"
proof (induction lines_py i lines rule: get_lines_loop.induct)
  case (1 lines_py i lines)
  show ?case
  proof (cases "i < length lines_py")
    case True
    with "1" show ?thesis
      by (subst get_lines_loop.simps) (simp add: Cons_nth_drop_Suc)
  next
    case False
    then show ?thesis by (subst get_lines_loop.simps) simp
  qed
qed

lemma get_lines_Some:
  "getsourcelines frame = Some (lines_py, line_start) \<Longrightarrow> get_lines frame = Inr (tl lines_py, line_start)"
  by (simp add: get_lines_def get_lines_loop_eq drop_Suc)

lemma emplace_lines_eq: "emplace_lines acc lines = acc @ map LineRecord_new lines"
  by (induction lines arbitrary: acc) auto

lemma function_lines_Function_new:
  "function_lines (Function_new nm lines c) = map LineRecord_new lines"
  by (simp add: Function_new_def emplace_lines_eq)

lemma profile_call_fresh:
  assumes "getsourcelines frame = Some (lines_py, line_start)"
    and "py_functions s (f_code frame) = None"
  shows "profile_call frame s =
     Inr (s\<lparr>py_functions := (py_functions s)
              (f_code frame \<mapsto> add_call (Function_new (co_name frame) (tl lines_py) (f_code frame))),
            frame_stack := FrameState_new (f_code frame) (length lines_py - 1) line_start # frame_stack s,
            last_instruction := kCall\<rparr>)"
  using assms
  by (simp add: profile_call_def add_function_def emplace_frame_def get_lines_Some domIff)

lemma profile_call_known:
  assumes "getsourcelines frame = Some (lines_py, line_start)"
    and "py_functions s (f_code frame) = Some function"
  shows "profile_call frame s =
     Inr (s\<lparr>py_functions := (py_functions s)(f_code frame \<mapsto> add_call function),
            frame_stack := FrameState_new (f_code frame) (length lines_py - 1) line_start # frame_stack s,
            last_instruction := kCall\<rparr>)"
  using assms
  by (simp add: profile_call_def add_function_def emplace_frame_def get_lines_Some domI)

lemma emplace_frame_Some:
  "getsourcelines frame = Some (lines_py, line_start) \<Longrightarrow>
   emplace_frame frame s =
     Inr (s\<lparr>frame_stack :=
            FrameState_new (f_code frame) (length lines_py - 1) line_start # frame_stack s\<rparr>)"
  by (simp add: emplace_frame_def get_lines_Some)

lemma set_current_line_abs:
  assumes "i < length (frame_lines fr)" and "length (frame_lines fr) < 2 ^ 64"
  shows "set_current_line (starting_line fr + 1 + of_nat i) fr =
           Inr (fr\<lparr>current_line_no := starting_line fr + 1 + of_nat i\<rparr>, i)"
  using assms
  by (simp add: set_current_line_def current_line_def current_line_index_def unat_of_nat)

text \<open>
  Claim C10. What is stored of a callable is the list of source lines the host returned
  without its first line. When the query returns \<open>n\<close> lines, the \<^verbatim>\<open>Function\<close>
  created at the first call has \<open>n - 1\<close> records, whose texts are those lines, and
  the frame pushed at every call has \<open>n - 1\<close> line states (none when the host
  returned no line at all); record \<open>i\<close> holds the host's line \<open>i + 1\<close>, and the line
  number \<open>starting_line + 1 + i\<close> selects index \<open>i\<close> of the frame.
\<close>

theorem stored_lines_drop_first:
  assumes "getsourcelines frame = Some (lines_py, line_start)"
    and "length lines_py \<le> 2 ^ 64"
  shows "get_lines frame = Inr (tl lines_py, line_start)
    \<and> (py_functions s (f_code frame) = None \<longrightarrow>
         (\<exists>s' function. profile_call frame s = Inr s'
            \<and> py_functions s' (f_code frame) = Some function
            \<and> map line_text (function_lines function) = tl lines_py
            \<and> length (function_lines function) = length lines_py - 1))
    \<and> (\<exists>s' fr. emplace_frame frame s = Inr s'
            \<and> frame_stack s' = fr # frame_stack s
            \<and> starting_line fr = line_start
            \<and> length (frame_lines fr) = length lines_py - 1
            \<and> (\<forall>i < length lines_py - 1.
                  tl lines_py ! i = lines_py ! (i + 1)
                \<and> set_current_line (line_start + 1 + of_nat i) fr =
                    Inr (fr\<lparr>current_line_no := line_start + 1 + of_nat i\<rparr>, i)))"
proof (intro conjI impI)
  show "get_lines frame = Inr (tl lines_py, line_start)"
    using assms(1) by (rule get_lines_Some)
next
  assume "py_functions s (f_code frame) = None"
  from profile_call_fresh [OF assms(1) this]
  show "\<exists>s' function. profile_call frame s = Inr s'
            \<and> py_functions s' (f_code frame) = Some function
            \<and> map line_text (function_lines function) = tl lines_py
            \<and> length (function_lines function) = length lines_py - 1"
    by (simp add: add_call_def function_lines_Function_new comp_def LineRecord_new_def)
next
  let ?fr = "FrameState_new (f_code frame) (length lines_py - 1) line_start"
  have len: "length (frame_lines ?fr) = length lines_py - 1"
    and st: "starting_line ?fr = line_start"
    by (simp_all add: FrameState_new_def)
  have "\<forall>i < length lines_py - 1.
          tl lines_py ! i = lines_py ! (i + 1)
        \<and> set_current_line (line_start + 1 + of_nat i) ?fr =
            Inr (?fr\<lparr>current_line_no := line_start + 1 + of_nat i\<rparr>, i)"
  proof (intro allI impI conjI)
    fix i assume i: "i < length lines_py - 1"
    then show "tl lines_py ! i = lines_py ! (i + 1)"
      by (simp add: nth_tl)
    have "length (frame_lines ?fr) < 2 ^ 64"
      using assms(2) i len by linarith
    from set_current_line_abs [OF _ this, of i] i len st
    show "set_current_line (line_start + 1 + of_nat i) ?fr =
            Inr (?fr\<lparr>current_line_no := line_start + 1 + of_nat i\<rparr>, i)"
      by simp
  qed
  with emplace_frame_Some [OF assms(1), of s] len st
  show "\<exists>s' fr. emplace_frame frame s = Inr s'
            \<and> frame_stack s' = fr # frame_stack s
            \<and> starting_line fr = line_start
            \<and> length (frame_lines fr) = length lines_py - 1
            \<and> (\<forall>i < length lines_py - 1.
                  tl lines_py ! i = lines_py ! (i + 1)
                \<and> set_current_line (line_start + 1 + of_nat i) fr =
                    Inr (fr\<lparr>current_line_no := line_start + 1 + of_nat i\<rparr>, i))"
    by simp
qed

theorem stored_lines_drop_first_witness:
  "getsourcelines (ex_frame 11) = Some ([''def f():'', ''  x = g()'', ''  return x''], 10)
   \<and> length [''def f():'', ''  x = g()'', ''  return x''] \<le> (2::nat) ^ 64
   \<and> py_functions Module_new (f_code (ex_frame 11)) = None
   \<and> get_lines (ex_frame 11) = Inr ([''  x = g()'', ''  return x''], 10)
   \<and> (\<exists>s' function. profile_call (ex_frame 11) Module_new = Inr s'
         \<and> py_functions s' 1 = Some function
         \<and> map line_text (function_lines function) = [''  x = g()'', ''  return x''])
   \<and> (\<exists>s' fr. emplace_frame (ex_frame 11) Module_new = Inr s'
         \<and> frame_stack s' = [fr] \<and> length (frame_lines fr) = 2
         \<and> set_current_line 12 fr = Inr (fr\<lparr>current_line_no := 12\<rparr>, 1))"
proof -
  have a: "getsourcelines (ex_frame 11) = Some ([''def f():'', ''  x = g()'', ''  return x''], 10)"
    by (simp add: ex_frame_def)
  have b: "length [''def f():'', ''  x = g()'', ''  return x''] \<le> (2::nat) ^ 64"
    by simp
  have c: "py_functions Module_new (f_code (ex_frame 11)) = None"
    by (simp add: Module_new_def)
  have d: "f_code (ex_frame 11) = 1" "frame_stack Module_new = []"
    by (simp_all add: ex_frame_def Module_new_def)
  from stored_lines_drop_first [OF a b, of Module_new] c
  obtain s' fn s'' fr where
    g1: "get_lines (ex_frame 11) = Inr ([''  x = g()'', ''  return x''], 10)"
    and g2: "profile_call (ex_frame 11) Module_new = Inr s'"
      "py_functions s' 1 = Some fn"
      "map line_text (function_lines fn) = [''  x = g()'', ''  return x'']"
    and g3: "emplace_frame (ex_frame 11) Module_new = Inr s''"
      "frame_stack s'' = [fr]" "length (frame_lines fr) = 2"
    and g4: "\<forall>i<2. set_current_line (10 + 1 + of_nat i) fr =
                Inr (fr\<lparr>current_line_no := 10 + 1 + of_nat i\<rparr>, i)"
    by (auto simp: d)
  from g4 have "set_current_line 12 fr = Inr (fr\<lparr>current_line_no := 12\<rparr>, 1)"
    by (auto dest: spec [of _ 1])
  with g3 have e3: "\<exists>s' fr. emplace_frame (ex_frame 11) Module_new = Inr s'
         \<and> frame_stack s' = [fr] \<and> length (frame_lines fr) = 2
         \<and> set_current_line 12 fr = Inr (fr\<lparr>current_line_no := 12\<rparr>, 1)"
    by blast
  from g2 have e2: "\<exists>s' function. profile_call (ex_frame 11) Module_new = Inr s'
         \<and> py_functions s' 1 = Some function
         \<and> map line_text (function_lines function) = [''  x = g()'', ''  return x'']"
    by (intro exI conjI)
  from a b c g1 e2 e3 show ?thesis by (intro conjI)
qed

subsection \<open>The steps, case by case\<close>

lemma finish_call_Inr:
  "finish_call frame s = Inr s' \<longleftrightarrow>
     (\<exists>fn. py_functions s (f_code frame) = Some fn \<and>
        s' = s\<lparr>py_functions := (py_functions s)
               (f_code frame \<mapsto> fn\<lparr>internal_time := internal_time fn + elapsed s\<rparr>)\<rparr>)"
  by (auto simp: finish_call_def add_elapsed_internal_def split: option.splits)

lemma finish_line_Inr:
  "finish_line frame s = Inr s' \<longleftrightarrow>
     (frame_stack s = [] \<and> s' = s) \<or>
     (\<exists>fr below. frame_stack s = fr # below \<and>
        current_line_index fr < length (frame_lines fr) \<and>
        s' = s\<lparr>frame_stack := fr\<lparr>frame_lines := (frame_lines fr)
                 [current_line_index fr :=
                    add_internal (elapsed s) (frame_lines fr ! current_line_index fr)]\<rparr> # below\<rparr>)"
  by (auto simp: finish_line_def bindE_Inr top_Inr update_current_line_Inr set_top_def)

lemma finish_creturn_Inr:
  "finish_creturn frame s = Inr s' \<longleftrightarrow>
     (\<exists>fr below. frame_stack s = fr # below \<and>
        s' = s\<lparr>frame_stack := fr\<lparr>frame_internal := frame_internal fr + elapsed s\<rparr> # below\<rparr>)"
  by (auto simp: finish_creturn_def bindE_Inr top_Inr set_top_def frame_add_internal_def)

lemma finish_ccall_Inr:
  "finish_ccall frame s = Inr s' \<longleftrightarrow>
     (\<exists>c_function fr below.
        c_functions s (last_c_name s) = Some c_function \<and>
        frame_stack s = fr # below \<and>
        current_line_index fr < length (frame_lines fr) \<and>
        s' = s\<lparr>c_functions := (c_functions s)
               (last_c_name s \<mapsto> c_function\<lparr>internal_time := internal_time c_function + elapsed s\<rparr>),
             frame_stack := fr\<lparr>frame_lines := (frame_lines fr)
                 [current_line_index fr :=
                    add_external (elapsed s) (frame_lines fr ! current_line_index fr)]\<rparr> # below\<rparr>)"
  by (auto simp: finish_ccall_def bindE_Inr top_Inr update_current_line_Inr set_top_def
      add_elapsed_internal_def elapsed_def Let_def split: option.splits)

lemma update_current_line_eq:
  "update_current_line g fr =
     (if current_line_index fr < length (frame_lines fr)
      then Inr (fr\<lparr>frame_lines := (frame_lines fr)
              [current_line_index fr := g (frame_lines fr ! current_line_index fr)]\<rparr>)
      else Inl (OutOfRange FrameLinesAt))"
  by (simp add: update_current_line_def current_line_def)

lemma pop_frame_Nil: "frame_stack s = [] \<Longrightarrow> pop_frame s = Inl TopOfEmptyStack"
  by (simp add: pop_frame_def top_def)

lemma pop_frame_missing:
  "frame_stack s = fr # below \<Longrightarrow> py_functions s (function_key fr) = None \<Longrightarrow>
   pop_frame s = Inl (OutOfRange FunctionsAt)"
  by (simp add: pop_frame_def top_def)

lemma pop_frame_too_long:
  "frame_stack s = fr # below \<Longrightarrow> py_functions s (function_key fr) = Some fn \<Longrightarrow>
   length (function_lines fn) < length (frame_lines fr) \<Longrightarrow>
   pop_frame s = Inl (OutOfRange FunctionLinesAt)"
  by (simp add: pop_frame_def top_def merge_lines_0 add_elapsed_internal_def)

lemma pop_frame_last:
  "frame_stack s = [fr] \<Longrightarrow> py_functions s (function_key fr) = Some fn \<Longrightarrow>
   length (frame_lines fr) \<le> length (function_lines fn) \<Longrightarrow>
   pop_frame s = Inr (s\<lparr>py_functions := popped_functions fr fn s, frame_stack := []\<rparr>)"
  by (simp add: pop_frame_def top_def merge_lines_0 add_elapsed_internal_def
      popped_functions_def)

lemma pop_frame_caller:
  "frame_stack s = fr # caller # rest \<Longrightarrow> py_functions s (function_key fr) = Some fn \<Longrightarrow>
   length (frame_lines fr) \<le> length (function_lines fn) \<Longrightarrow>
   pop_frame s =
     (if current_line_index caller < length (frame_lines caller)
      then Inr (s\<lparr>py_functions := popped_functions fr fn s,
                  frame_stack := caller\<lparr>frame_lines := (frame_lines caller)
                     [current_line_index caller :=
                        add_external (total_time fr)
                          (frame_lines caller ! current_line_index caller)]\<rparr> # rest\<rparr>)
      else Inl (OutOfRange FrameLinesAt))"
  by (simp add: pop_frame_def top_def merge_lines_0 add_elapsed_internal_def
      popped_functions_def update_current_line_eq set_top_def)

lemma pop_frame_Inr:
  assumes "pop_frame s = Inr s'"
  shows "\<exists>fr below fn. frame_stack s = fr # below
    \<and> py_functions s (function_key fr) = Some fn
    \<and> length (frame_lines fr) \<le> length (function_lines fn)
    \<and> (below = [] \<longrightarrow>
          s' = s\<lparr>py_functions := popped_functions fr fn s, frame_stack := []\<rparr>)
    \<and> (\<forall>caller rest. below = caller # rest \<longrightarrow>
           current_line_index caller < length (frame_lines caller) \<and>
           s' = s\<lparr>py_functions := popped_functions fr fn s,
                  frame_stack := caller\<lparr>frame_lines := (frame_lines caller)
                     [current_line_index caller :=
                        add_external (total_time fr)
                          (frame_lines caller ! current_line_index caller)]\<rparr> # rest\<rparr>)"
proof (cases "frame_stack s")
  case Nil
  with assms show ?thesis by (simp add: pop_frame_Nil)
next
  case (Cons fr below)
  show ?thesis
  proof (cases "py_functions s (function_key fr)")
    case None
    with assms Cons show ?thesis by (simp add: pop_frame_missing)
  next
    case (Some fn)
    show ?thesis
    proof (cases "length (frame_lines fr) \<le> length (function_lines fn)")
      case False
      with assms Cons Some show ?thesis by (simp add: pop_frame_too_long)
    next
      case True
      show ?thesis
      proof (cases below)
        case Nil
        with assms Cons Some True show ?thesis by (simp add: pop_frame_last)
      next
        case (Cons caller rest)
        with assms \<open>frame_stack s = fr # below\<close> Some True show ?thesis
          by (auto simp: pop_frame_caller split: if_splits)
      qed
    qed
  qed
qed

lemma zip_plus_nth:
  "i < length rs \<Longrightarrow>
   zip_plus rs ls ! i = (if i < length ls then plus_eq (rs ! i) (ls ! i) else rs ! i)"
proof (induction rs ls arbitrary: i rule: zip_plus.induct)
  case (1 r rs l ls)
  then show ?case by (cases i) auto
qed auto

lemma total_time_loop_eq:
  "total_time_loop result ls = result + (\<Sum>l\<leftarrow>ls. line_internal l + line_external l)"
  by (induction ls arbitrary: result) auto

lemma total_time_eq:
  "total_time fr = (\<Sum>l\<leftarrow>frame_lines fr. line_internal l + line_external l)"
  by (simp add: total_time_def total_time_loop_eq)



lemmas ex_defs =
  ex_module_def ex_line_def ex_frame_def
  Module_new_def Function_new_def FrameState_new_def LineRecord_new_def LineState_new_def
  BaseFunction_new_def


lemma finish_ccall_missing:
  "c_functions s (last_c_name s) = None \<Longrightarrow> finish_ccall frame s = Inl (OutOfRange CFunctionsAt)"
  by (simp add: finish_ccall_def)

lemma finish_call_missing:
  "py_functions s (f_code frame) = None \<Longrightarrow> finish_call frame s = Inl (OutOfRange FunctionsAt)"
  by (simp add: finish_call_def)

lemma profile_eq:
  "profile w frame arg now1 now2 s =
     bindE (finish (last_instruction s) frame (s\<lparr>last_instruction_end := now1\<rparr>)) (\<lambda>s2.
     bindE (begin_event w frame arg s2) (\<lambda>s3. Inr (s3\<lparr>last_instruction_start := now2\<rparr>)))"
  by (simp add: profile_def)

text \<open>
  Claim C3. When the previous event is a native call, the Finish phase of
  \<^verbatim>\<open>Module::profile\<close> is \<^verbatim>\<open>finish_ccall\<close>; when it returns, it has added the
  elapsed duration, the reading at the entry of \<^verbatim>\<open>profile\<close> minus the reading at the
  exit of the previous one, once to the aggregate time of the native function
  remembered in \<^verbatim>\<open>last_c_name_\<close> and once to the external time of the current line
  of the top frame, and nothing else has changed.
\<close>

theorem finish_ccall_charges_callee_and_call_site:
  assumes "last_instruction s = kCCall"
    and "finish (last_instruction s) frame (s\<lparr>last_instruction_end := now1\<rparr>) = Inr s'"
  shows "\<exists>c_function fr below.
      c_functions s (last_c_name s) = Some c_function
    \<and> frame_stack s = fr # below
    \<and> current_line fr = Inr (current_line_index fr)
    \<and> c_functions s' = (c_functions s)(last_c_name s \<mapsto>
         c_function\<lparr>internal_time := internal_time c_function + (now1 - last_instruction_start s)\<rparr>)
    \<and> frame_stack s' =
         fr\<lparr>frame_lines := (frame_lines fr)[current_line_index fr :=
              (frame_lines fr ! current_line_index fr)
                \<lparr>line_external := line_external (frame_lines fr ! current_line_index fr)
                   + (now1 - last_instruction_start s)\<rparr>]\<rparr> # below
    \<and> py_functions s' = py_functions s
    \<and> profile w frame arg now1 now2 s =
        bindE (begin_event w frame arg s') (\<lambda>s3. Inr (s3\<lparr>last_instruction_start := now2\<rparr>))"
proof -
  from assms have f: "finish_ccall frame (s\<lparr>last_instruction_end := now1\<rparr>) = Inr s'"
    by simp
  then obtain c_function fr below where
    c: "c_functions s (last_c_name s) = Some c_function"
    and st: "frame_stack s = fr # below"
    and idx: "current_line_index fr < length (frame_lines fr)"
    and s': "s' = s\<lparr>last_instruction_end := now1,
             c_functions := (c_functions s)
               (last_c_name s \<mapsto> c_function\<lparr>internal_time := internal_time c_function
                   + (now1 - last_instruction_start s)\<rparr>),
             frame_stack := fr\<lparr>frame_lines := (frame_lines fr)
                 [current_line_index fr :=
                    add_external (now1 - last_instruction_start s)
                      (frame_lines fr ! current_line_index fr)]\<rparr> # below\<rparr>"
    by (auto simp: finish_ccall_Inr elapsed_def)
  have p: "profile w frame arg now1 now2 s =
        bindE (begin_event w frame arg s') (\<lambda>s3. Inr (s3\<lparr>last_instruction_start := now2\<rparr>))"
    using assms by (simp add: profile_eq)
  from c st idx s' p show ?thesis
    by (simp add: current_line_def add_external_def)
qed

lemma ex_in_ccall_finish:
  "finish_ccall (ex_frame 11) (ex_in_ccall\<lparr>last_instruction_end := 105\<rparr>) =
     Inr (ex_in_ccall
       \<lparr>last_instruction_end := 105,
        c_functions := [''<C-function builtins.len>'' \<mapsto>
           \<lparr>n_calls = 1, name = ''<C-function builtins.len>'', internal_time = 5\<rparr>],
        frame_stack := [(FrameState_new 1 2 10)
           \<lparr>current_line_no := 11,
            frame_lines := [ex_line 1 10 10, ex_line 1 20 0], frame_internal := 3\<rparr>]\<rparr>)"
  by (simp add: finish_ccall_def ex_in_ccall_def ex_defs elapsed_def top_def set_top_def
      update_current_line_eq current_line_index_def add_external_def add_elapsed_internal_def)

theorem finish_ccall_charges_callee_and_call_site_witness:
  "last_instruction ex_in_ccall = kCCall
   \<and> (\<exists>s'. finish (last_instruction ex_in_ccall) (ex_frame 11)
              (ex_in_ccall\<lparr>last_instruction_end := 105\<rparr>) = Inr s'
        \<and> map_option internal_time (c_functions s' ''<C-function builtins.len>'') = Some 5
        \<and> map (map line_external \<circ> frame_lines) (frame_stack s') = [[5 + 5, 0]]
        \<and> py_functions s' = py_functions ex_in_ccall)"
proof -
  have l: "last_instruction ex_in_ccall = kCCall"
    by (simp add: ex_in_ccall_def)
  have f: "finish (last_instruction ex_in_ccall) (ex_frame 11)
              (ex_in_ccall\<lparr>last_instruction_end := 105\<rparr>) =
     Inr (ex_in_ccall
       \<lparr>last_instruction_end := 105,
        c_functions := [''<C-function builtins.len>'' \<mapsto>
           \<lparr>n_calls = 1, name = ''<C-function builtins.len>'', internal_time = 5\<rparr>],
        frame_stack := [(FrameState_new 1 2 10)
           \<lparr>current_line_no := 11,
            frame_lines := [ex_line 1 10 10, ex_line 1 20 0], frame_internal := 3\<rparr>]\<rparr>)"
    (is "_ = Inr ?s'")
    using ex_in_ccall_finish by (simp add: l)
  from finish_ccall_charges_callee_and_call_site [OF l f, of PyTrace_LINE None 105]
  have u: "py_functions ?s' = py_functions ex_in_ccall"
    by (elim exE conjE) assumption
  have r1: "map_option internal_time (c_functions ?s' ''<C-function builtins.len>'') = Some 5"
    by simp
  have r2: "map (map line_external \<circ> frame_lines) (frame_stack ?s') = [[5 + 5, 0]]"
    by (simp add: ex_line_def)
  show ?thesis
    apply (rule conjI)
     apply (rule l)
    apply (rule exI [of _ ?s'])
    apply (intro conjI)
       apply (rule f)
      apply (rule r1)
     apply (rule r2)
    apply (rule u)
    done
qed

text \<open>
  Claim C7. \<^verbatim>\<open>Module::dump\<close> leaves the engine as it found it, and a second dump
  with no event in between builds the same report.
\<close>

theorem dump_pure_read:
  "snd (dump path s) = s \<and> fst (dump path' (snd (dump path s))) = fst (dump path s)"
  by (simp add: dump_def)

subsection \<open>The registry\<close>

lemma finish_return_eq:
  "finish_return frame s =
     (case frame_stack s of
        [] \<Rightarrow> Inl TopOfEmptyStack
      | fr # below \<Rightarrow>
          pop_frame (s\<lparr>frame_stack := fr\<lparr>frame_internal := frame_internal fr + elapsed s\<rparr> # below\<rparr>))"
  by (simp add: finish_return_def top_def set_top_def frame_add_internal_def split: list.splits)

lemma pop_frame_dom:
  assumes "pop_frame s = Inr s'"
  shows "dom (py_functions s') = dom (py_functions s) \<and> c_functions s' = c_functions s"
proof -
  from pop_frame_Inr [OF assms] obtain fr below fn where
    fn: "py_functions s (function_key fr) = Some fn"
    and s': "below = [] \<longrightarrow>
          s' = s\<lparr>py_functions := popped_functions fr fn s, frame_stack := []\<rparr>"
      "\<forall>caller rest. below = caller # rest \<longrightarrow>
           current_line_index caller < length (frame_lines caller) \<and>
           s' = s\<lparr>py_functions := popped_functions fr fn s,
                  frame_stack := caller\<lparr>frame_lines := (frame_lines caller)
                     [current_line_index caller :=
                        add_external (total_time fr)
                          (frame_lines caller ! current_line_index caller)]\<rparr> # rest\<rparr>"
    by blast
  have "py_functions s' = popped_functions fr fn s \<and> c_functions s' = c_functions s"
    using s' by (cases below) simp_all
  moreover have "dom (popped_functions fr fn s) = dom (py_functions s)"
    using fn by (auto simp: popped_functions_def)
  ultimately show ?thesis by simp
qed

lemma finish_dom:
  assumes "finish k frame s = Inr s'"
  shows "dom (py_functions s') = dom (py_functions s) \<and> dom (c_functions s') = dom (c_functions s)"
proof (cases k)
  case kReturn
  with assms obtain s1 where "pop_frame s1 = Inr s'"
    and "py_functions s1 = py_functions s" and "c_functions s1 = c_functions s"
    by (auto simp: finish_return_eq split: list.splits)
  with pop_frame_dom [of s1 s'] show ?thesis by simp
next
  case kCall
  with assms show ?thesis by (auto simp: finish_call_Inr split: if_splits)
next
  case kLine
  with assms show ?thesis by (auto simp: finish_line_Inr)
next
  case kCCall
  with assms show ?thesis by (auto simp: finish_ccall_Inr split: if_splits)
next
  case kCReturn
  with assms show ?thesis by (auto simp: finish_creturn_Inr)
qed (use assms in \<open>auto simp: finish_origin_def\<close>)

lemma add_function_dom:
  "add_function frame s = Inr s' \<Longrightarrow>
   dom (py_functions s') = insert (f_code frame) (dom (py_functions s)) \<and>
   c_functions s' = c_functions s"
  by (auto simp: add_function_def bindE_Inr split: if_splits)

lemma emplace_frame_registry:
  "emplace_frame frame s = Inr s' \<Longrightarrow>
   py_functions s' = py_functions s \<and> c_functions s' = c_functions s"
  by (auto simp: emplace_frame_def bindE_Inr)

lemma profile_call_dom:
  assumes "profile_call frame s = Inr s'"
  shows "dom (py_functions s') = insert (f_code frame) (dom (py_functions s)) \<and>
         c_functions s' = c_functions s"
proof -
  from assms obtain s1 s2 s3 fn where 1: "add_function frame s = Inr s1"
    and 2: "py_functions s1 (f_code frame) = Some fn"
      "s2 = s1\<lparr>py_functions := (py_functions s1)(f_code frame \<mapsto> add_call fn)\<rparr>"
    and 3: "emplace_frame frame s2 = Inr s3" and 4: "s' = s3\<lparr>last_instruction := kCall\<rparr>"
    by (auto simp: profile_call_def bindE_Inr split: option.splits)
  from add_function_dom [OF 1] emplace_frame_registry [OF 3] 2 4 show ?thesis
    by auto
qed

lemma profile_line_registry:
  "profile_line frame s = Inr s' \<Longrightarrow>
   py_functions s' = py_functions s \<and> c_functions s' = c_functions s"
  by (auto simp: profile_line_def Let_def bindE_Inr set_top_def split: if_splits)

lemma profile_c_call_dom:
  "profile_c_call frame arg s = Inr s' \<Longrightarrow>
   py_functions s' = py_functions s \<and>
   dom (c_functions s') = insert (last_c_name s') (dom (c_functions s))"
  by (auto simp: profile_c_call_def Let_def bindE_Inr add_c_function_def
      split: option.splits if_splits)

lemma begin_event_dom:
  assumes "begin_event w frame arg s = Inr s'"
  shows "dom (py_functions s') =
           (if w = PyTrace_CALL then insert (f_code frame) (dom (py_functions s))
            else dom (py_functions s))
       \<and> dom (c_functions s') =
           (if w = PyTrace_C_CALL then insert (last_c_name s') (dom (c_functions s))
            else dom (c_functions s))"
proof (cases w)
  case PyTrace_CALL
  with assms profile_call_dom [of frame s s'] show ?thesis by simp
next
  case PyTrace_LINE
  with assms profile_line_registry [of frame s s'] show ?thesis by simp
next
  case PyTrace_C_CALL
  with assms profile_c_call_dom [of frame arg s s'] show ?thesis by simp
qed (use assms in \<open>auto simp: profile_return_def profile_c_return_def\<close>)

text \<open>
  Claim C8. A Finish step that looks a callable up in the registry and does not find it
  ends in the \<^verbatim>\<open>std::out_of_range\<close> of \<^verbatim>\<open>at\<close>, and so does the call of
  \<^verbatim>\<open>Module::profile\<close> it belongs to: no entry is made up. No Finish step adds a key
  to either map; of the Begin steps, that of a call adds at most the key of the entered
  code and that of a native call at most the formatted name, and no other adds a key.
\<close>

theorem lookup_failure_is_loud:
  "(py_functions s (f_code frame) = None \<longrightarrow>
      finish_call frame s = Inl (OutOfRange FunctionsAt))
   \<and> (c_functions s (last_c_name s) = None \<longrightarrow>
      finish_ccall frame s = Inl (OutOfRange CFunctionsAt))
   \<and> (last_instruction s = kCall \<and> py_functions s (f_code frame) = None \<longrightarrow>
      profile w frame arg now1 now2 s = Inl (OutOfRange FunctionsAt))
   \<and> (last_instruction s = kCCall \<and> c_functions s (last_c_name s) = None \<longrightarrow>
      profile w frame arg now1 now2 s = Inl (OutOfRange CFunctionsAt))
   \<and> (finish k frame s = Inr s' \<longrightarrow>
        dom (py_functions s') = dom (py_functions s)
      \<and> dom (c_functions s') = dom (c_functions s))
   \<and> (begin_event w frame arg s = Inr s' \<longrightarrow>
        dom (py_functions s') =
          (if w = PyTrace_CALL then insert (f_code frame) (dom (py_functions s))
           else dom (py_functions s))
      \<and> dom (c_functions s') =
          (if w = PyTrace_C_CALL then insert (last_c_name s') (dom (c_functions s))
           else dom (c_functions s)))"
proof (intro conjI impI)
  assume "py_functions s (f_code frame) = None"
  then show "finish_call frame s = Inl (OutOfRange FunctionsAt)"
    by (rule finish_call_missing)
next
  assume "c_functions s (last_c_name s) = None"
  then show "finish_ccall frame s = Inl (OutOfRange CFunctionsAt)"
    by (rule finish_ccall_missing)
next
  assume "last_instruction s = kCall \<and> py_functions s (f_code frame) = None"
  then show "profile w frame arg now1 now2 s = Inl (OutOfRange FunctionsAt)"
    by (simp add: profile_eq finish_call_missing)
next
  assume "last_instruction s = kCCall \<and> c_functions s (last_c_name s) = None"
  then show "profile w frame arg now1 now2 s = Inl (OutOfRange CFunctionsAt)"
    by (simp add: profile_eq finish_ccall_missing)
next
  assume "finish k frame s = Inr s'"
  from finish_dom [OF this]
  show "dom (py_functions s') = dom (py_functions s)"
    and "dom (c_functions s') = dom (c_functions s)"
    by simp_all
next
  assume "begin_event w frame arg s = Inr s'"
  from begin_event_dom [OF this]
  show "dom (py_functions s') =
          (if w = PyTrace_CALL then insert (f_code frame) (dom (py_functions s))
           else dom (py_functions s))"
    and "dom (c_functions s') =
          (if w = PyTrace_C_CALL then insert (last_c_name s') (dom (c_functions s))
           else dom (c_functions s))"
    by simp_all
qed


theorem lookup_failure_is_loud_witness:
  "last_instruction (Module_new\<lparr>last_instruction := kCall\<rparr>) = kCall
   \<and> py_functions (Module_new\<lparr>last_instruction := kCall\<rparr>) (f_code (ex_frame 11)) = None
   \<and> profile PyTrace_LINE (ex_frame 11) None 5 6 (Module_new\<lparr>last_instruction := kCall\<rparr>)
       = Inl (OutOfRange FunctionsAt)
   \<and> profile PyTrace_LINE (ex_frame 11) None 5 6 (Module_new\<lparr>last_instruction := kCCall\<rparr>)
       = Inl (OutOfRange CFunctionsAt)
   \<and> (\<exists>s'. finish kCCall (ex_frame 11) (ex_in_ccall\<lparr>last_instruction_end := 105\<rparr>) = Inr s'
         \<and> dom (py_functions s') = {1}
         \<and> dom (c_functions s') = {''<C-function builtins.len>''})
   \<and> (\<exists>s'. begin_event PyTrace_CALL (ex_frame 11) None Module_new = Inr s'
         \<and> dom (py_functions s') = {1} \<and> dom (c_functions s') = {})
   \<and> (\<exists>s'. begin_event PyTrace_C_CALL (ex_frame 11) (Some (''builtins'', ''len'')) Module_new
           = Inr s'
         \<and> dom (py_functions s') = {} \<and> dom (c_functions s') = {''<C-function builtins.len>''})"
proof -
  let ?s1 = "Module_new\<lparr>last_instruction := kCall\<rparr>"
  let ?s2 = "Module_new\<lparr>last_instruction := kCCall\<rparr>"
  have h1: "last_instruction ?s1 = kCall \<and> py_functions ?s1 (f_code (ex_frame 11)) = None"
    by (simp add: Module_new_def)
  with lookup_failure_is_loud [of ?s1 "ex_frame 11" PyTrace_LINE None 5 6]
  have w1: "profile PyTrace_LINE (ex_frame 11) None 5 6 ?s1 = Inl (OutOfRange FunctionsAt)"
    by blast
  have h2: "last_instruction ?s2 = kCCall \<and> c_functions ?s2 (last_c_name ?s2) = None"
    by (simp add: Module_new_def)
  with lookup_failure_is_loud [of ?s2 "ex_frame 11" PyTrace_LINE None 5 6]
  have w2: "profile PyTrace_LINE (ex_frame 11) None 5 6 ?s2 = Inl (OutOfRange CFunctionsAt)"
    by blast
  obtain s3 where
    f3: "finish kCCall (ex_frame 11) (ex_in_ccall\<lparr>last_instruction_end := 105\<rparr>) = Inr s3"
    using ex_in_ccall_finish by simp
  with lookup_failure_is_loud
    [of "ex_in_ccall\<lparr>last_instruction_end := 105\<rparr>" "ex_frame 11" _ _ _ _ kCCall s3]
  have "dom (py_functions s3) = dom (py_functions (ex_in_ccall\<lparr>last_instruction_end := 105\<rparr>))
      \<and> dom (c_functions s3) = dom (c_functions (ex_in_ccall\<lparr>last_instruction_end := 105\<rparr>))"
    by blast
  then have d3: "dom (py_functions s3) = {1}"
      "dom (c_functions s3) = {''<C-function builtins.len>''}"
    by (simp_all add: ex_in_ccall_def ex_module_def Module_new_def)
  obtain s4 where b4: "begin_event PyTrace_CALL (ex_frame 11) None Module_new = Inr s4"
    using profile_call_fresh [of "ex_frame 11" _ _ Module_new]
    by (simp add: ex_frame_def Module_new_def)
  with lookup_failure_is_loud [of Module_new "ex_frame 11" PyTrace_CALL None _ _ _ s4]
  have d4: "dom (py_functions s4) = {1}" "dom (c_functions s4) = {}"
    by (simp_all add: ex_frame_def Module_new_def)
  obtain s5 where b5: "begin_event PyTrace_C_CALL (ex_frame 11) (Some (''builtins'', ''len''))
      Module_new = Inr s5"
    and n5: "last_c_name s5 = ''<C-function builtins.len>''"
    by (simp add: profile_c_call_def add_c_function_def Module_new_def c_call_name_def)
  with lookup_failure_is_loud
    [of Module_new "ex_frame 11" PyTrace_C_CALL "Some (''builtins'', ''len'')" _ _ _ s5]
  have d5: "dom (py_functions s5) = {}"
      "dom (c_functions s5) = {''<C-function builtins.len>''}"
    by (simp_all add: Module_new_def)
  from h1 w1 w2 f3 d3 b4 d4 b5 d5 show ?thesis
    by (intro conjI exI [of _ s3] exI [of _ s4] exI [of _ s5]) simp_all
qed

subsection \<open>The unguarded steps\<close>

lemma word_sub_underflow:
  fixes c s :: size_t
  assumes "c \<le> s"
  shows "2 ^ 64 - 1 - unat s \<le> unat (c - s - 1)"
proof -
  have a: "unat c \<le> unat s"
    using assms by (simp add: word_le_nat_alt)
  have b: "unat s < 2 ^ 64" "unat c < 2 ^ 64"
    using unsigned_less [of s, where ?'a = nat] unsigned_less [of c, where ?'a = nat] by simp_all
  have d: "unat (c - s) = (if unat s \<le> unat c then unat c - unat s else unat c + 2 ^ 64 - unat s)"
    by (simp add: unat_sub_if_size word_size)
  have e: "unat (c - s - 1) =
      (if 1 \<le> unat (c - s) then unat (c - s) - 1 else unat (c - s) + 2 ^ 64 - 1)"
    using unat_sub_if_size [of "c - s" 1] by (simp add: word_size)
  show ?thesis
  proof (cases "unat s \<le> unat c")
    case True
    with a d have "unat (c - s) = 0" by simp
    with e show ?thesis by simp
  next
    case False
    with d have "unat (c - s) = unat c + 2 ^ 64 - unat s" by simp
    moreover from this b have "1 \<le> unat (c - s)" by linarith
    ultimately show ?thesis using e by simp
  qed
qed

lemma current_line_index_underflow:
  assumes "current_line_no fr \<le> starting_line fr"
    and "unat (starting_line fr) + length (frame_lines fr) < 2 ^ 64"
  shows "\<not> current_line_index fr < length (frame_lines fr)"
  using word_sub_underflow [OF assms(1)] assms(2)
  by (simp add: current_line_index_def)


lemma finish_ccall_eq:
  "c_functions s (last_c_name s) = Some c_function \<Longrightarrow>
   finish_ccall frame s =
     (case frame_stack s of
        [] \<Rightarrow> Inl TopOfEmptyStack
      | fr # below \<Rightarrow>
          if current_line_index fr < length (frame_lines fr)
          then Inr (s\<lparr>c_functions := (c_functions s)
                 (last_c_name s \<mapsto> c_function\<lparr>internal_time := internal_time c_function + elapsed s\<rparr>),
               frame_stack := fr\<lparr>frame_lines := (frame_lines fr)
                 [current_line_index fr :=
                    add_external (elapsed s) (frame_lines fr ! current_line_index fr)]\<rparr> # below\<rparr>)
          else Inl (OutOfRange FrameLinesAt))"
  by (simp add: finish_ccall_def top_def set_top_def update_current_line_eq elapsed_def
      add_elapsed_internal_def split: list.splits)

text \<open>
  Claim C9. On an empty stack the Begin and the Finish step of a line event return
  without touching a frame, while the Finish steps of a return, a native call and a
  native return take \<^verbatim>\<open>frame_stack_.top()\<close> of the empty stack. So each of these
  three returns only if the stack is not empty (which is all the Finish step of a
  native return needs), and the Finish step of a native call, which also takes the
  current line of the top frame, returns only if the cursor of that frame is beyond
  its starting line: with a cursor at or before the starting line, as in a frame no
  line event has reached yet, the index wraps around and \<^verbatim>\<open>at\<close> throws. The last
  line number of every callable is taken to fit \<^verbatim>\<open>size_t\<close>.
\<close>

theorem only_line_steps_guard_the_stack:
  "(frame_stack s = [] \<longrightarrow>
      profile_line frame s = Inr (s\<lparr>last_instruction := kLine\<rparr>)
    \<and> finish_line frame s = Inr s)
   \<and> (frame_stack s = [] \<longrightarrow>
      finish_return frame s = Inl TopOfEmptyStack
    \<and> finish_creturn frame s = Inl TopOfEmptyStack
    \<and> (c_functions s (last_c_name s) \<noteq> None \<longrightarrow> finish_ccall frame s = Inl TopOfEmptyStack))
   \<and> (finish_return frame s = Inr s' \<longrightarrow> frame_stack s \<noteq> [])
   \<and> (finish_creturn frame s = Inr s' \<longrightarrow> frame_stack s \<noteq> [])
   \<and> (frame_stack s \<noteq> [] \<longrightarrow> (\<exists>s''. finish_creturn frame s = Inr s''))
   \<and> (finish_ccall frame s = Inr s' \<longrightarrow>
        (\<exists>fr below. frame_stack s = fr # below
           \<and> current_line_index fr < length (frame_lines fr)
           \<and> (unat (starting_line fr) + length (frame_lines fr) < 2 ^ 64 \<longrightarrow>
                starting_line fr < current_line_no fr)))
   \<and> (frame_stack s = fr # below \<and> c_functions s (last_c_name s) \<noteq> None
        \<and> current_line_no fr \<le> starting_line fr
        \<and> unat (starting_line fr) + length (frame_lines fr) < 2 ^ 64 \<longrightarrow>
          finish_ccall frame s = Inl (OutOfRange FrameLinesAt))
   \<and> current_line_no (FrameState_new c n line_start) \<le> line_start"
proof (intro conjI impI)
  assume e: "frame_stack s = []"
  then show "profile_line frame s = Inr (s\<lparr>last_instruction := kLine\<rparr>)"
    and "finish_line frame s = Inr s"
    and "finish_return frame s = Inl TopOfEmptyStack"
    and "finish_creturn frame s = Inl TopOfEmptyStack"
    by (simp_all add: profile_line_def finish_line_def finish_return_eq finish_creturn_def
        top_def)
  assume "c_functions s (last_c_name s) \<noteq> None"
  with e show "finish_ccall frame s = Inl TopOfEmptyStack"
    by (auto simp: finish_ccall_eq)
next
  assume "finish_return frame s = Inr s'"
  then show "frame_stack s \<noteq> []"
    by (auto simp: finish_return_eq)
next
  assume "finish_creturn frame s = Inr s'"
  then show "frame_stack s \<noteq> []"
    by (auto simp: finish_creturn_Inr)
next
  assume "frame_stack s \<noteq> []"
  then show "\<exists>s''. finish_creturn frame s = Inr s''"
    by (cases "frame_stack s") (simp_all add: finish_creturn_Inr)
next
  assume "finish_ccall frame s = Inr s'"
  then obtain fr below where st: "frame_stack s = fr # below"
    and idx: "current_line_index fr < length (frame_lines fr)"
    by (auto simp: finish_ccall_Inr)
  have "starting_line fr < current_line_no fr"
    if "unat (starting_line fr) + length (frame_lines fr) < 2 ^ 64"
    using current_line_index_underflow [OF _ that] idx by (auto simp: not_le [symmetric])
  with st idx show "\<exists>fr below. frame_stack s = fr # below
           \<and> current_line_index fr < length (frame_lines fr)
           \<and> (unat (starting_line fr) + length (frame_lines fr) < 2 ^ 64 \<longrightarrow>
                starting_line fr < current_line_no fr)"
    by blast
next
  assume a: "frame_stack s = fr # below \<and> c_functions s (last_c_name s) \<noteq> None
        \<and> current_line_no fr \<le> starting_line fr
        \<and> unat (starting_line fr) + length (frame_lines fr) < 2 ^ 64"
  then have "\<not> current_line_index fr < length (frame_lines fr)"
    by (simp add: current_line_index_underflow)
  with a show "finish_ccall frame s = Inl (OutOfRange FrameLinesAt)"
    by (auto simp: finish_ccall_eq)
next
  show "current_line_no (FrameState_new c n line_start) \<le> line_start"
    by (simp add: FrameState_new_def)
qed


theorem only_line_steps_guard_the_stack_witness:
  "frame_stack Module_new = []
   \<and> profile_line (ex_frame 11) Module_new = Inr (Module_new\<lparr>last_instruction := kLine\<rparr>)
   \<and> finish_line (ex_frame 11) Module_new = Inr Module_new
   \<and> finish_return (ex_frame 11) Module_new = Inl TopOfEmptyStack
   \<and> finish_creturn (ex_frame 11) Module_new = Inl TopOfEmptyStack
   \<and> finish_ccall (ex_frame 11) (ex_in_ccall\<lparr>frame_stack := []\<rparr>) = Inl TopOfEmptyStack
   \<and> (\<exists>s'. finish_ccall (ex_frame 11) (ex_in_ccall\<lparr>last_instruction_end := 105\<rparr>) = Inr s')
   \<and> (\<exists>fr below. frame_stack ex_in_ccall = fr # below
         \<and> starting_line fr = 10 \<and> current_line_no fr = 11)
   \<and> finish_ccall (ex_frame 11) (ex_in_ccall\<lparr>frame_stack := [FrameState_new 1 2 10]\<rparr>)
       = Inl (OutOfRange FrameLinesAt)
   \<and> frame_stack ex_module \<noteq> []
   \<and> (\<exists>s'. finish_creturn (ex_frame 11) ex_module = Inr s')"
proof -
  have e: "frame_stack Module_new = []"
    by (simp add: Module_new_def)
  from only_line_steps_guard_the_stack [of Module_new "ex_frame 11"] e
  have w1: "profile_line (ex_frame 11) Module_new = Inr (Module_new\<lparr>last_instruction := kLine\<rparr>)"
    "finish_line (ex_frame 11) Module_new = Inr Module_new"
    "finish_return (ex_frame 11) Module_new = Inl TopOfEmptyStack"
    "finish_creturn (ex_frame 11) Module_new = Inl TopOfEmptyStack"
    by blast+
  let ?s2 = "ex_in_ccall\<lparr>frame_stack := []\<rparr>"
  have "frame_stack ?s2 = [] \<and> c_functions ?s2 (last_c_name ?s2) \<noteq> None"
    by (simp add: ex_in_ccall_def)
  with only_line_steps_guard_the_stack [of ?s2 "ex_frame 11"]
  have w2: "finish_ccall (ex_frame 11) ?s2 = Inl TopOfEmptyStack"
    by blast
  let ?s3 = "ex_in_ccall\<lparr>last_instruction_end := 105\<rparr>"
  obtain s3' where f3: "finish_ccall (ex_frame 11) ?s3 = Inr s3'"
    using ex_in_ccall_finish by simp
  with only_line_steps_guard_the_stack [of ?s3 "ex_frame 11" s3']
  obtain fr below where st: "frame_stack ?s3 = fr # below"
    and lt: "unat (starting_line fr) + length (frame_lines fr) < 2 ^ 64 \<longrightarrow>
                starting_line fr < current_line_no fr"
    by blast
  from st have w3: "\<exists>fr below. frame_stack ex_in_ccall = fr # below
         \<and> starting_line fr = 10 \<and> current_line_no fr = 11"
    by (auto simp: ex_in_ccall_def ex_module_def FrameState_new_def)
  let ?s4 = "ex_in_ccall\<lparr>frame_stack := [FrameState_new 1 2 10]\<rparr>"
  have "frame_stack ?s4 = FrameState_new 1 2 10 # []
      \<and> c_functions ?s4 (last_c_name ?s4) \<noteq> None
      \<and> current_line_no (FrameState_new 1 2 10) \<le> starting_line (FrameState_new 1 2 10)
      \<and> unat (starting_line (FrameState_new 1 2 10))
          + length (frame_lines (FrameState_new 1 2 10)) < 2 ^ 64"
    by (simp add: ex_in_ccall_def FrameState_new_def)
  with only_line_steps_guard_the_stack [of ?s4 "ex_frame 11" _ "FrameState_new 1 2 10" "[]"]
  have w4: "finish_ccall (ex_frame 11) ?s4 = Inl (OutOfRange FrameLinesAt)"
    by blast
  have n: "frame_stack ex_module \<noteq> []"
    by (simp add: ex_module_def)
  with only_line_steps_guard_the_stack [of ex_module "ex_frame 11"]
  have w5: "\<exists>s'. finish_creturn (ex_frame 11) ex_module = Inr s'"
    by blast
  from e w1 w2 f3 w3 w4 n w5 show ?thesis
    by (intro conjI) (assumption | rule exI [of _ s3'])+
qed

subsection \<open>Exception events\<close>

lemma pop_frame_clock:
  assumes "pop_frame s = Inr s'"
  shows "last_instruction s' = last_instruction s
    \<and> last_instruction_start s' = last_instruction_start s
    \<and> last_instruction_end s' = last_instruction_end s
    \<and> last_c_name s' = last_c_name s"
proof -
  from pop_frame_Inr [OF assms] obtain fr below fn where
    s': "below = [] \<longrightarrow>
          s' = s\<lparr>py_functions := popped_functions fr fn s, frame_stack := []\<rparr>"
      "\<forall>caller rest. below = caller # rest \<longrightarrow>
           current_line_index caller < length (frame_lines caller) \<and>
           s' = s\<lparr>py_functions := popped_functions fr fn s,
                  frame_stack := caller\<lparr>frame_lines := (frame_lines caller)
                     [current_line_index caller :=
                        add_external (total_time fr)
                          (frame_lines caller ! current_line_index caller)]\<rparr> # rest\<rparr>"
    by blast
  then show ?thesis by (cases below) simp_all
qed

lemma finish_clock:
  assumes "finish k frame s = Inr s'"
  shows "last_instruction s' = last_instruction s
    \<and> last_instruction_start s' = last_instruction_start s
    \<and> last_instruction_end s' = last_instruction_end s
    \<and> last_c_name s' = last_c_name s"
proof (cases k)
  case kReturn
  with assms obtain s1 where "pop_frame s1 = Inr s'"
    and "last_instruction s1 = last_instruction s"
    and "last_instruction_start s1 = last_instruction_start s"
    and "last_instruction_end s1 = last_instruction_end s"
    and "last_c_name s1 = last_c_name s"
    by (auto simp: finish_return_eq split: list.splits)
  with pop_frame_clock [of s1 s'] show ?thesis by simp
next
  case kCall
  with assms show ?thesis by (auto simp: finish_call_Inr)
next
  case kLine
  with assms show ?thesis by (auto simp: finish_line_Inr)
next
  case kCCall
  with assms show ?thesis by (auto simp: finish_ccall_Inr)
next
  case kCReturn
  with assms show ?thesis by (auto simp: finish_creturn_Inr)
qed (use assms in \<open>auto simp: finish_origin_def\<close>)

lemma profile_call_last:
  "profile_call frame s = Inr s' \<Longrightarrow>
   last_instruction s' = kCall \<and> last_instruction_start s' = last_instruction_start s"
  by (auto simp: profile_call_def add_function_def emplace_frame_def bindE_Inr
      split: if_splits option.splits)

lemma profile_line_last:
  "profile_line frame s = Inr s' \<Longrightarrow>
   last_instruction s' = kLine \<and> last_instruction_start s' = last_instruction_start s"
  by (auto simp: profile_line_def Let_def bindE_Inr set_top_def split: if_splits)

lemma profile_c_call_last:
  "profile_c_call frame arg s = Inr s' \<Longrightarrow>
   last_instruction s' = kCCall \<and> last_instruction_start s' = last_instruction_start s"
  by (auto simp: profile_c_call_def Let_def bindE_Inr add_c_function_def
      split: option.splits if_splits)

lemma begin_event_last:
  assumes "begin_event w frame arg s = Inr s'"
  shows "last_instruction s' =
     (case w of PyTrace_LINE \<Rightarrow> kLine | PyTrace_CALL \<Rightarrow> kCall | PyTrace_RETURN \<Rightarrow> kReturn
      | PyTrace_C_CALL \<Rightarrow> kCCall | PyTrace_C_RETURN \<Rightarrow> kCReturn
      | PyTrace_C_EXCEPTION \<Rightarrow> kCReturn | _ \<Rightarrow> last_instruction s)"
  using assms profile_call_last [of frame s s'] profile_line_last [of frame s s']
    profile_c_call_last [of frame arg s s']
  by (cases w) (auto simp: profile_return_def profile_c_return_def)

lemma profile_Inr:
  "profile w frame arg now1 now2 s = Inr s' \<longleftrightarrow>
     (\<exists>s2 s3. finish (last_instruction s) frame (s\<lparr>last_instruction_end := now1\<rparr>) = Inr s2
        \<and> begin_event w frame arg s2 = Inr s3
        \<and> s' = s3\<lparr>last_instruction_start := now2\<rparr>)"
  by (auto simp: profile_eq bindE_Inr)

text \<open>
  Claim C2, as stated, fails. The engine \<open>ex_in_ccall\<close> is inside a native call made
  from line 11 of \<open>f\<close>, since clock reading 100. A native exception arrives at reading
  105: the 5 ns that end at it are added to the native function's aggregate time and to
  the external time of line 11. The next event arrives at reading 113, 7 ns after the
  engine was left at 106: these 7 ns, which begin at the exception, are added to the
  frame's overhead accumulator.
\<close>

theorem exception_time_is_attributed:
  "profile PyTrace_C_EXCEPTION (ex_frame 11) None 105 106 ex_in_ccall = Inr ex_after_c_exception
   \<and> map_option internal_time (c_functions ex_in_ccall ''<C-function builtins.len>'') = Some 0
   \<and> map_option internal_time (c_functions ex_after_c_exception ''<C-function builtins.len>'')
       = Some 5
   \<and> map (map line_external \<circ> frame_lines) (frame_stack ex_in_ccall) = [[5, 0]]
   \<and> map (map line_external \<circ> frame_lines) (frame_stack ex_after_c_exception) = [[10, 0]]
   \<and> profile PyTrace_LINE (ex_frame 12) None 113 114 ex_after_c_exception
       = Inr ex_after_c_exception_line
   \<and> map frame_internal (frame_stack ex_after_c_exception) = [3]
   \<and> map frame_internal (frame_stack ex_after_c_exception_line) = [10]"
proof -
  have l: "last_instruction ex_in_ccall = kCCall"
    by (simp add: ex_in_ccall_def)
  have 1: "profile PyTrace_C_EXCEPTION (ex_frame 11) None 105 106 ex_in_ccall
      = Inr ex_after_c_exception"
    by (simp add: profile_eq l ex_in_ccall_finish profile_c_return_def)
      (simp add: ex_in_ccall_def ex_after_c_exception_def)
  have 2: "profile PyTrace_LINE (ex_frame 12) None 113 114 ex_after_c_exception
      = Inr ex_after_c_exception_line"
    by (simp add: profile_eq ex_after_c_exception_def ex_after_c_exception_line_def
        ex_in_ccall_def ex_defs finish_creturn_def top_def set_top_def frame_add_internal_def
        elapsed_def profile_line_def set_current_line_def current_line_def
        current_line_index_def line_add_call_def)
  show ?thesis
    by (simp add: 1 2)
      (simp add: ex_after_c_exception_def ex_after_c_exception_line_def ex_in_ccall_def
        ex_defs)
qed


text \<open>
  Claim C2, amended. A native exception is processed exactly as a native return: the
  Finish step of the previous event attributes the interval that ends at it, its Begin
  step marks the state as a native return, and so the interval that begins at it is
  added to the overhead accumulator of the top frame by the next Finish step. An
  exception event that comes through the trace hook is dropped with no effect at all,
  and the Begin step of an exception event changes nothing. The Finish steps of the
  kinds \<^verbatim>\<open>kException\<close> and \<^verbatim>\<open>kCException\<close> attribute nothing, but no event makes
  either of them the last instruction.
\<close>

theorem exception_events_as_processed:
  "profile PyTrace_C_EXCEPTION frame arg now1 now2 s = profile PyTrace_C_RETURN frame arg now1 now2 s
   \<and> begin_event PyTrace_C_EXCEPTION frame arg s = Inr (s\<lparr>last_instruction := kCReturn\<rparr>)
   \<and> (profile PyTrace_C_EXCEPTION frame arg now1 now2 s = Inr s' \<longrightarrow>
        last_instruction s' = kCReturn \<and> last_instruction_start s' = now2
      \<and> (\<forall>fr below. frame_stack s' = fr # below \<longrightarrow>
            finish (last_instruction s') frame' (s'\<lparr>last_instruction_end := t\<rparr>) =
              Inr (s'\<lparr>last_instruction_end := t,
                     frame_stack := fr\<lparr>frame_internal := frame_internal fr + (t - now2)\<rparr> # below\<rparr>)))
   \<and> trace_func PyTrace_EXCEPTION frame arg now1 now2 s = Inr s
   \<and> begin_event PyTrace_EXCEPTION frame arg s = Inr s
   \<and> finish kException frame s = Inr s
   \<and> finish kCException frame s = Inr s
   \<and> (profile w frame arg now1 now2 s = Inr s' \<longrightarrow>
        last_instruction s' \<noteq> kException \<and> last_instruction s' \<noteq> kCException
      \<or> last_instruction s' = last_instruction s)"
proof (intro conjI impI)
  show "profile PyTrace_C_EXCEPTION frame arg now1 now2 s =
        profile PyTrace_C_RETURN frame arg now1 now2 s"
    by (simp add: profile_eq)
  show "begin_event PyTrace_C_EXCEPTION frame arg s = Inr (s\<lparr>last_instruction := kCReturn\<rparr>)"
    by (simp add: profile_c_return_def)
  show "trace_func PyTrace_EXCEPTION frame arg now1 now2 s = Inr s"
    by (simp add: trace_func_def)
  show "begin_event PyTrace_EXCEPTION frame arg s = Inr s"
    and "finish kException frame s = Inr s" and "finish kCException frame s = Inr s"
    by simp_all
next
  assume "profile PyTrace_C_EXCEPTION frame arg now1 now2 s = Inr s'"
  then obtain s2 where
    s': "s' = s2\<lparr>last_instruction := kCReturn, last_instruction_start := now2\<rparr>"
    by (auto simp: profile_Inr profile_c_return_def)
  then show "last_instruction s' = kCReturn" and "last_instruction_start s' = now2"
    by simp_all
  show "\<forall>fr below. frame_stack s' = fr # below \<longrightarrow>
            finish (last_instruction s') frame' (s'\<lparr>last_instruction_end := t\<rparr>) =
              Inr (s'\<lparr>last_instruction_end := t,
                     frame_stack := fr\<lparr>frame_internal := frame_internal fr + (t - now2)\<rparr> # below\<rparr>)"
    using s' by (simp add: finish_creturn_def top_def set_top_def frame_add_internal_def
        elapsed_def)
next
  assume "profile w frame arg now1 now2 s = Inr s'"
  then obtain s2 s3 where
    f: "finish (last_instruction s) frame (s\<lparr>last_instruction_end := now1\<rparr>) = Inr s2"
    and b: "begin_event w frame arg s2 = Inr s3"
    and s': "s' = s3\<lparr>last_instruction_start := now2\<rparr>"
    by (auto simp: profile_Inr)
  from finish_clock [OF f] begin_event_last [OF b] s'
  show "last_instruction s' \<noteq> kException \<and> last_instruction s' \<noteq> kCException
      \<or> last_instruction s' = last_instruction s"
    by (cases w) simp_all
qed

theorem exception_events_as_processed_witness:
  "profile PyTrace_C_EXCEPTION (ex_frame 11) None 105 106 ex_in_ccall = Inr ex_after_c_exception
   \<and> profile PyTrace_C_RETURN (ex_frame 11) None 105 106 ex_in_ccall = Inr ex_after_c_exception
   \<and> last_instruction ex_after_c_exception = kCReturn
   \<and> finish (last_instruction ex_after_c_exception) (ex_frame 12)
        (ex_after_c_exception\<lparr>last_instruction_end := 113\<rparr>) =
      Inr (ex_after_c_exception
        \<lparr>last_instruction_end := 113,
         frame_stack := [hd (frame_stack ex_after_c_exception)\<lparr>frame_internal := 3 + (113 - 106)\<rparr>]\<rparr>)"
proof -
  have l: "last_instruction ex_in_ccall = kCCall"
    by (simp add: ex_in_ccall_def)
  have p: "profile PyTrace_C_EXCEPTION (ex_frame 11) None 105 106 ex_in_ccall
      = Inr ex_after_c_exception"
    by (simp add: profile_eq l ex_in_ccall_finish profile_c_return_def)
      (simp add: ex_in_ccall_def ex_after_c_exception_def)
  have st: "frame_stack ex_after_c_exception = hd (frame_stack ex_after_c_exception) # []"
    and fi: "frame_internal (hd (frame_stack ex_after_c_exception)) = 3"
    by (simp_all add: ex_after_c_exception_def)
  note t = exception_events_as_processed
    [of "ex_frame 11" None 105 106 ex_in_ccall ex_after_c_exception "ex_frame 12" 113]
  from t p have r: "profile PyTrace_C_RETURN (ex_frame 11) None 105 106 ex_in_ccall
      = Inr ex_after_c_exception"
    by simp
  from t p have k: "last_instruction ex_after_c_exception = kCReturn"
    by blast
  from t p have "\<forall>fr below. frame_stack ex_after_c_exception = fr # below \<longrightarrow>
            finish (last_instruction ex_after_c_exception) (ex_frame 12)
              (ex_after_c_exception\<lparr>last_instruction_end := 113\<rparr>) =
              Inr (ex_after_c_exception\<lparr>last_instruction_end := 113,
                     frame_stack := fr\<lparr>frame_internal := frame_internal fr + (113 - 106)\<rparr> # below\<rparr>)"
    by blast
  with st have "finish (last_instruction ex_after_c_exception) (ex_frame 12)
        (ex_after_c_exception\<lparr>last_instruction_end := 113\<rparr>) =
      Inr (ex_after_c_exception
        \<lparr>last_instruction_end := 113,
         frame_stack := [hd (frame_stack ex_after_c_exception)
            \<lparr>frame_internal := frame_internal (hd (frame_stack ex_after_c_exception))
                + (113 - 106)\<rparr>]\<rparr>)"
    by blast
  with p r k fi show ?thesis by simp
qed

subsection \<open>The time a frame has observed\<close>

lemma ex_call:
  "profile PyTrace_CALL (ex_frame 10) None 0 0 (start Module_new) = Inr ex_called"
  using profile_call_fresh
    [of "ex_frame 10" "[''def f():'', ''  x = g()'', ''  return x'']" 10
      "Module_new\<lparr>last_instruction := kOrigin\<rparr>"]
  by (simp add: profile_eq start_def finish_origin_def)
    (simp add: ex_called_def ex_frame_def Module_new_def FrameState_new_def numeral_2_eq_2)

lemma ex_body:
  "run [ex_event PyTrace_LINE 11 7, ex_event PyTrace_RETURN 12 17] ex_called = Inr ex_returning"
proof -
  let ?s2 = "Module_new
       \<lparr>py_functions := [1 \<mapsto>
          \<lparr>n_calls = 1, name = ''f'', internal_time = 7, code = 1,
           function_lines = [LineRecord_new ''  x = g()'', LineRecord_new ''  return x'']\<rparr>],
        frame_stack := [(FrameState_new 1 2 10)
          \<lparr>current_line_no := 11, frame_lines := [ex_line 1 0 0, ex_line 0 0 0]\<rparr>],
        last_instruction := kLine,
        last_instruction_start := 7,
        last_instruction_end := 7\<rparr>"
  have l: "profile PyTrace_LINE (ex_frame 11) None 7 7 ex_called = Inr ?s2"
    by (simp add: profile_eq finish_call_def elapsed_def add_elapsed_internal_def add_call_def
        profile_line_def top_def set_top_def set_current_line_def current_line_def
        current_line_index_def line_add_call_def ex_called_def ex_defs numeral_2_eq_2)
  have r: "profile PyTrace_RETURN (ex_frame 12) None 17 17 ?s2 = Inr ex_returning"
    by (simp add: profile_eq finish_line_def elapsed_def top_def set_top_def
        update_current_line_eq current_line_index_def add_internal_def profile_return_def
        ex_returning_def ex_defs)
  show ?thesis
    by (simp only: ex_event_def run.simps Event.select_convs bindE.simps l r)
qed

lemma ex_run_returning:
  "run [ex_event PyTrace_CALL 10 0, ex_event PyTrace_LINE 11 7, ex_event PyTrace_RETURN 12 17]
     (start Module_new) = Inr ex_returning"
  using ex_call ex_body by (simp add: ex_event_def)

text \<open>
  Claim C1, as stated, fails. \<open>f\<close> is called at clock reading 0, reaches its line 11 at
  reading 7 and returns at reading 17; the next event comes at reading 22 and pops the
  frame. The 7 ns from the call to the first line went to the aggregate time of \<open>f\<close>,
  not to the frame; the 10 ns spent on line 11 are the internal time of that line; the
  5 ns from the return to the next event are the frame's overhead. The popped frame
  has 15 ns, and 17 ns lie between its call and its return.
\<close>

theorem popped_frame_is_not_call_to_return:
  "run [ex_event PyTrace_CALL 10 0, ex_event PyTrace_LINE 11 7, ex_event PyTrace_RETURN 12 17]
     (start Module_new) = Inr ex_returning
   \<and> finish (last_instruction ex_returning) (ex_frame 5)
        (ex_returning\<lparr>last_instruction_end := 22\<rparr>) = pop_frame ex_at_pop
   \<and> top ex_at_pop = Inr ex_popped_frame
   \<and> total_time ex_popped_frame + frame_internal ex_popped_frame = 15
   \<and> ev_now1 (ex_event PyTrace_RETURN 12 17) - ev_now2 (ex_event PyTrace_CALL 10 0) = 17"
proof -
  have "finish (last_instruction ex_returning) (ex_frame 5)
        (ex_returning\<lparr>last_instruction_end := 22\<rparr>) = pop_frame ex_at_pop"
    by (simp add: ex_returning_def ex_at_pop_def ex_popped_frame_def finish_return_eq
        elapsed_def FrameState_new_def)
  moreover have "top ex_at_pop = Inr ex_popped_frame"
    by (simp add: ex_at_pop_def top_def)
  moreover have "total_time ex_popped_frame + frame_internal ex_popped_frame = 15"
    by (simp add: ex_popped_frame_def total_time_def ex_line_def)
  moreover have
    "ev_now1 (ex_event PyTrace_RETURN 12 17) - ev_now2 (ex_event PyTrace_CALL 10 0) = 17"
    by (simp add: ex_event_def)
  ultimately show ?thesis
    using ex_run_returning by simp
qed


lemma sum_list_update_int:
  fixes f :: "'a \<Rightarrow> int"
  shows "i < length ls \<Longrightarrow> (\<Sum>l\<leftarrow>ls[i := x]. f l) = (\<Sum>l\<leftarrow>ls. f l) - f (ls ! i) + f x"
  by (induction ls arbitrary: i) (auto split: nat.splits)

lemma total_time_FrameState_new: "total_time (FrameState_new c n line_start) = 0"
  by (simp add: total_time_eq FrameState_new_def LineState_new_def sum_list_replicate)

lemma run_append: "run (xs @ ys) s = bindE (run xs s) (run ys)"
proof (induction xs arbitrary: s)
  case Nil
  show ?case by simp
next
  case (Cons e xs)
  show ?case
    by (cases "profile (ev_what e) (ev_frame e) (ev_arg e) (ev_now1 e) (ev_now2 e) s")
      (simp_all add: Cons.IH)
qed

lemma profile_line_Cons:
  assumes "frame_stack s = fr # below"
  shows "profile_line frame s =
     (let fr1 = fr\<lparr>current_line_no := word_of_int (f_lineno frame)\<rparr>; i = current_line_index fr1
      in if i < length (frame_lines fr)
         then Inr (s\<lparr>last_instruction := kLine,
                     frame_stack := fr1\<lparr>frame_lines :=
                        (frame_lines fr)[i := line_add_call (frame_lines fr ! i)]\<rparr> # below\<rparr>)
         else Inl (OutOfRange FrameLinesAt))"
  using assms
  by (simp add: profile_line_def top_def set_top_def set_current_line_def current_line_def
      Let_def)

lemma profile_call_Inr:
  assumes "profile_call frame s = Inr s'"
  shows "\<exists>lines_py line_start fn.
      getsourcelines frame = Some (lines_py, line_start)
    \<and> fn = (case py_functions s (f_code frame) of
             None \<Rightarrow> Function_new (co_name frame) (tl lines_py) (f_code frame)
           | Some f \<Rightarrow> f)
    \<and> s' = s\<lparr>py_functions := (py_functions s)(f_code frame \<mapsto> add_call fn),
              frame_stack := FrameState_new (f_code frame) (length lines_py - 1) line_start
                 # frame_stack s,
              last_instruction := kCall\<rparr>"
proof (cases "getsourcelines frame")
  case None
  then have "get_lines frame = Inl CouldNotGetSourceLines"
    by (simp add: get_lines_def)
  with assms show ?thesis
    by (auto simp: profile_call_def add_function_def emplace_frame_def bindE_Inr
        split: if_splits option.splits)
next
  case (Some a)
  then obtain lines_py line_start where g: "getsourcelines frame = Some (lines_py, line_start)"
    by (cases a) simp
  show ?thesis
  proof (cases "py_functions s (f_code frame)")
    case None
    from profile_call_fresh [OF g None] assms g None show ?thesis by simp
  next
    case (Some f)
    from profile_call_known [OF g Some] assms g Some show ?thesis by simp
  qed
qed

lemma profile_c_call_Inr:
  assumes "profile_c_call frame arg s = Inr s'"
  shows "\<exists>nm. s' = s\<lparr>last_c_name := nm,
              c_functions := (c_functions s)
                (nm \<mapsto> add_call (case c_functions s nm of None \<Rightarrow> BaseFunction_new nm
                                  | Some c \<Rightarrow> c)),
              last_instruction := kCCall\<rparr>"
proof (cases arg)
  case None
  with assms show ?thesis by (simp add: profile_c_call_def)
next
  case (Some a)
  obtain m q where a: "a = (m, q)" by (cases a)
  show ?thesis
  proof (cases "c_functions s (c_call_name m q)")
    case None
    with assms Some a show ?thesis
      by (intro exI [of _ "c_call_name m q"])
        (auto simp: profile_c_call_def Let_def add_c_function_def domIff)
  next
    case (Some c)
    with assms \<open>arg = Some a\<close> a show ?thesis
      by (intro exI [of _ "c_call_name m q"])
        (auto simp: profile_c_call_def Let_def add_c_function_def domIff)
  qed
qed

lemma total_time_update_line:
  assumes "i < length (frame_lines fr)"
  shows "total_time (fr\<lparr>frame_lines := (frame_lines fr)[i := x]\<rparr>) =
     total_time fr - (line_internal (frame_lines fr ! i) + line_external (frame_lines fr ! i))
       + (line_internal x + line_external x)"
  using sum_list_update_int [OF assms, of "\<lambda>l. line_internal l + line_external l" x]
  by (simp add: total_time_eq)

lemma share_same_length:
  assumes "frame_stack s' = g1 # (rest @ below)" and "function_key g1 = function_key g0"
    and "total_time g1 = total_time g0 + d" and "frame_internal g1 = frame_internal g0 + ov"
  shows "\<exists>stk'. frame_stack s' = stk' @ below \<and> stk' \<noteq> []
     \<and> length stk' = length (g0 # rest)
     \<and> function_key (last stk') = function_key (last (g0 # rest))
     \<and> share stk' = share (g0 # rest) + d + (if rest = [] then ov else 0)"
proof (intro exI [of _ "g1 # rest"] conjI)
  show "share (g1 # rest) = share (g0 # rest) + d + (if rest = [] then ov else 0)"
    using assms by (simp add: share_def)
  show "function_key (last (g1 # rest)) = function_key (last (g0 # rest))"
    using assms by simp
qed (use assms in simp_all)

lemma finish_line_top:
  assumes "finish_line frame s = Inr s'" and "frame_stack s = g0 # below"
  shows "current_line_index g0 < length (frame_lines g0)"
    and "frame_stack s' = g0\<lparr>frame_lines := (frame_lines g0)
                 [current_line_index g0 :=
                    add_internal (elapsed s) (frame_lines g0 ! current_line_index g0)]\<rparr> # below"
  using assms unfolding finish_line_Inr by auto

lemma finish_ccall_top:
  assumes "finish_ccall frame s = Inr s'" and "frame_stack s = g0 # below"
  shows "current_line_index g0 < length (frame_lines g0)"
    and "frame_stack s' = g0\<lparr>frame_lines := (frame_lines g0)
                 [current_line_index g0 :=
                    add_external (elapsed s) (frame_lines g0 ! current_line_index g0)]\<rparr> # below"
  using assms unfolding finish_ccall_Inr by auto

lemma finish_creturn_top:
  assumes "finish_creturn frame s = Inr s'" and "frame_stack s = g0 # below"
  shows "frame_stack s' = g0\<lparr>frame_internal := frame_internal g0 + elapsed s\<rparr> # below"
  using assms unfolding finish_creturn_Inr by auto

lemma finish_call_stack:
  assumes "finish_call frame s = Inr s'"
  shows "frame_stack s' = frame_stack s"
  using assms unfolding finish_call_Inr by (elim exE conjE) simp

lemma share_finish:
  assumes f: "finish prev frame s = Inr s'"
    and st: "frame_stack s = stk @ below" and ne: "stk \<noteq> []"
    and prev: "prev \<in> {kCall, kLine, kCCall, kCReturn, kReturn}"
    and ret: "prev = kReturn \<longrightarrow> 2 \<le> length stk"
  shows "\<exists>stk'. frame_stack s' = stk' @ below \<and> stk' \<noteq> []
     \<and> length stk' = (if prev = kReturn then length stk - 1 else length stk)
     \<and> function_key (last stk') = function_key (last stk)
     \<and> share stk' = share stk
         + (if prev = kLine \<or> prev = kCCall \<or> (prev = kCReturn \<and> length stk = 1)
            then elapsed s else 0)"
proof -
  from ne obtain g0 rest where stk: "stk = g0 # rest"
    by (cases stk) auto
  with st have st': "frame_stack s = g0 # (rest @ below)"
    by simp
  from prev consider "prev = kCall" | "prev = kLine" | "prev = kCCall" | "prev = kCReturn"
    | "prev = kReturn"
    by auto
  then show ?thesis
  proof cases
    case 1
    with f have "finish_call frame s = Inr s'" by simp
    from finish_call_stack [OF this] st' have s': "frame_stack s' = g0 # (rest @ below)"
      by simp
    have "share (g0 # rest) + 0 + (if rest = [] then 0 else 0) = share (g0 # rest)"
      by simp
    with share_same_length [OF s' refl, of 0 0] show ?thesis
      unfolding stk 1 by simp
  next
    case 2
    with f have fl: "finish_line frame s = Inr s'" by simp
    note idx = finish_line_top(1) [OF fl st'] and s' = finish_line_top(2) [OF fl st']
    let ?g = "g0\<lparr>frame_lines := (frame_lines g0)
                 [current_line_index g0 :=
                    add_internal (elapsed s) (frame_lines g0 ! current_line_index g0)]\<rparr>"
    have key: "function_key ?g = function_key g0" by simp
    have tot: "total_time ?g = total_time g0 + elapsed s"
      using idx by (simp add: total_time_update_line add_internal_def)
    have ov: "frame_internal ?g = frame_internal g0 + 0" by simp
    from share_same_length [OF s' key tot ov] show ?thesis
      unfolding stk 2 by simp
  next
    case 3
    with f have fl: "finish_ccall frame s = Inr s'" by simp
    note idx = finish_ccall_top(1) [OF fl st'] and s' = finish_ccall_top(2) [OF fl st']
    let ?g = "g0\<lparr>frame_lines := (frame_lines g0)
                 [current_line_index g0 :=
                    add_external (elapsed s) (frame_lines g0 ! current_line_index g0)]\<rparr>"
    have key: "function_key ?g = function_key g0" by simp
    have tot: "total_time ?g = total_time g0 + elapsed s"
      using idx by (simp add: total_time_update_line add_external_def)
    have ov: "frame_internal ?g = frame_internal g0 + 0" by simp
    from share_same_length [OF s' key tot ov] show ?thesis
      unfolding stk 3 by simp
  next
    case 4
    with f have fl: "finish_creturn frame s = Inr s'" by simp
    note s' = finish_creturn_top [OF fl st']
    let ?g = "g0\<lparr>frame_internal := frame_internal g0 + elapsed s\<rparr>"
    have key: "function_key ?g = function_key g0" by simp
    have tot: "total_time ?g = total_time g0 + 0"
      by (simp add: total_time_eq)
    have ov: "frame_internal ?g = frame_internal g0 + elapsed s" by simp
    from share_same_length [OF s' key tot ov] show ?thesis
      unfolding stk 4 by simp
  next
    case 5
    with ret stk obtain parent rest' where rest: "rest = parent # rest'"
      by (cases rest) auto
    let ?g = "g0\<lparr>frame_internal := frame_internal g0 + elapsed s\<rparr>"
    from f st' have pop: "pop_frame (s\<lparr>frame_stack := ?g # (rest @ below)\<rparr>) = Inr s'"
      unfolding 5 by (simp add: finish_return_eq)
    let ?p = "parent\<lparr>frame_lines := (frame_lines parent)
                     [current_line_index parent :=
                        add_external (total_time ?g)
                          (frame_lines parent ! current_line_index parent)]\<rparr>"
    from pop_frame_Inr [OF pop] obtain fr below' fn where
      a: "frame_stack (s\<lparr>frame_stack := ?g # (rest @ below)\<rparr>) = fr # below'"
      and c: "\<forall>caller r. below' = caller # r \<longrightarrow>
           current_line_index caller < length (frame_lines caller) \<and>
           s' = s\<lparr>frame_stack := ?g # (rest @ below)\<rparr>
             \<lparr>py_functions := popped_functions fr fn (s\<lparr>frame_stack := ?g # (rest @ below)\<rparr>),
                  frame_stack := caller\<lparr>frame_lines := (frame_lines caller)
                     [current_line_index caller :=
                        add_external (total_time fr)
                          (frame_lines caller ! current_line_index caller)]\<rparr> # r\<rparr>"
      by (elim exE conjE)
    from a rest have fr: "fr = ?g" and below': "below' = parent # (rest' @ below)"
      by simp_all
    from c [rule_format, OF below']
    have idx: "current_line_index parent < length (frame_lines parent)"
      and s': "frame_stack s' = ?p # (rest' @ below)"
      by (simp_all add: fr)
    have tg: "total_time ?g = total_time g0"
      by (simp add: total_time_eq)
    have tp: "total_time ?p = total_time parent + total_time g0"
      using idx by (simp add: total_time_update_line add_external_def tg)
    have sh: "share (?p # rest') = share (g0 # parent # rest')"
      using tp by (simp add: share_def)
    have key: "function_key (last (?p # rest')) = function_key (last (g0 # parent # rest'))"
      by simp
    show ?thesis
      unfolding stk rest 5
      apply (rule exI [of _ "?p # rest'"])
      apply (simp only: s' sh key)
      apply simp
      done
  qed
qed

lemma share_push:
  assumes "stk \<noteq> []" and "total_time g = 0"
  shows "share (g # stk) = share stk" and "last (g # stk) = last stk"
  using assms by (simp_all add: share_def)

lemma share_begin:
  assumes b: "begin_event w frame arg s = Inr s'"
    and st: "frame_stack s = stk @ below" and ne: "stk \<noteq> []"
  shows "\<exists>stk'. frame_stack s' = stk' @ below \<and> stk' \<noteq> []
     \<and> length stk' = length stk + (if w = PyTrace_CALL then 1 else 0)
     \<and> function_key (last stk') = function_key (last stk)
     \<and> share stk' = share stk"
proof -
  have same: ?thesis if "frame_stack s' = frame_stack s" "w \<noteq> PyTrace_CALL"
    using that st ne by (intro exI [of _ stk]) simp
  show ?thesis
  proof (cases w)
    case PyTrace_LINE
    from ne obtain g0 rest where stk: "stk = g0 # rest"
      by (cases stk) auto
    with st have st': "frame_stack s = g0 # (rest @ below)"
      by simp
    let ?g1 = "g0\<lparr>current_line_no := word_of_int (f_lineno frame)\<rparr>"
    let ?g = "?g1\<lparr>frame_lines :=
         (frame_lines g0)[current_line_index ?g1 :=
            line_add_call (frame_lines g0 ! current_line_index ?g1)]\<rparr>"
    from b PyTrace_LINE have "profile_line frame s = Inr s'" by simp
    then have idx: "current_line_index ?g1 < length (frame_lines g0)"
      and s': "frame_stack s' = ?g # (rest @ below)"
      unfolding profile_line_Cons [OF st'] Let_def by (auto split: if_splits)
    have key: "function_key ?g = function_key g0" by simp
    have tot: "total_time ?g = total_time g0 + 0"
      using idx sum_list_update_int [OF idx, of "\<lambda>l. line_internal l + line_external l"
          "line_add_call (frame_lines g0 ! current_line_index ?g1)"]
      by (simp add: total_time_eq line_add_call_def)
    have ov: "frame_internal ?g = frame_internal g0 + 0" by simp
    from share_same_length [OF s' key tot ov] PyTrace_LINE show ?thesis
      unfolding stk by simp
  next
    case PyTrace_CALL
    with b have "profile_call frame s = Inr s'" by simp
    from profile_call_Inr [OF this] obtain n line_start where
      "frame_stack s' = FrameState_new (f_code frame) n line_start # frame_stack s"
      by (elim exE conjE) simp
    with st have s': "frame_stack s' = (FrameState_new (f_code frame) n line_start # stk) @ below"
      by simp
    note p = share_push [OF ne total_time_FrameState_new [of "f_code frame" n line_start]]
    show ?thesis
      apply (rule exI [of _ "FrameState_new (f_code frame) n line_start # stk"])
      apply (simp only: s' p PyTrace_CALL)
      apply simp
      done
  next
    case PyTrace_RETURN
    with b show ?thesis by (intro same) (auto simp: profile_return_def)
  next
    case PyTrace_C_CALL
    with b have "profile_c_call frame arg s = Inr s'" by simp
    from profile_c_call_Inr [OF this] have "frame_stack s' = frame_stack s"
      by (elim exE) simp
    with PyTrace_C_CALL show ?thesis by (intro same) simp_all
  next
    case PyTrace_C_RETURN
    with b show ?thesis by (intro same) (auto simp: profile_c_return_def)
  next
    case PyTrace_C_EXCEPTION
    with b show ?thesis by (intro same) (auto simp: profile_c_return_def)
  next
    case PyTrace_EXCEPTION
    with b show ?thesis by (intro same) auto
  next
    case PyTrace_OPCODE
    with b show ?thesis by (intro same) auto
  next
    case PyTrace_other
    with b show ?thesis by simp
  qed
qed

lemma begun_attributes:
  assumes "begin_event w frame arg s = Inr s'"
    and "prev \<in> {kCall, kLine, kCCall, kCReturn, kReturn}"
  shows "begun w prev \<in> {kCall, kLine, kCCall, kCReturn, kReturn}"
  using assms by (cases w) (auto simp: begun_def)

lemma share_step:
  assumes p: "profile w frame arg now1 now2 s = Inr s'"
    and st: "frame_stack s = stk @ below" and ne: "stk \<noteq> []"
    and prev: "last_instruction s \<in> {kCall, kLine, kCCall, kCReturn, kReturn}"
    and ret: "last_instruction s = kReturn \<longrightarrow> 2 \<le> length stk"
  shows "\<exists>stk'. frame_stack s' = stk' @ below \<and> stk' \<noteq> []
     \<and> length stk' - 1 =
         (if last_instruction s = kReturn then length stk - 1 - 1 else length stk - 1)
           + (if w = PyTrace_CALL then 1 else 0)
     \<and> function_key (last stk') = function_key (last stk)
     \<and> share stk' = share stk
         + (if last_instruction s = kLine \<or> last_instruction s = kCCall
               \<or> (last_instruction s = kCReturn \<and> length stk - 1 = 0)
            then now1 - last_instruction_start s else 0)
     \<and> last_instruction s' = begun w (last_instruction s)
     \<and> last_instruction s' \<in> {kCall, kLine, kCCall, kCReturn, kReturn}
     \<and> last_instruction_start s' = now2"
proof -
  let ?s1 = "s\<lparr>last_instruction_end := now1\<rparr>"
  from p obtain s2 s3 where
    f: "finish (last_instruction s) frame ?s1 = Inr s2"
    and b: "begin_event w frame arg s2 = Inr s3"
    and s': "s' = s3\<lparr>last_instruction_start := now2\<rparr>"
    unfolding profile_Inr by (elim exE conjE)
  from st have st1: "frame_stack ?s1 = stk @ below" by simp
  from share_finish [OF f st1 ne prev ret] obtain stk2 where
    2: "frame_stack s2 = stk2 @ below" "stk2 \<noteq> []"
      "length stk2 = (if last_instruction s = kReturn then length stk - 1 else length stk)"
      "function_key (last stk2) = function_key (last stk)"
      "share stk2 = share stk
         + (if last_instruction s = kLine \<or> last_instruction s = kCCall
               \<or> (last_instruction s = kCReturn \<and> length stk = 1)
            then elapsed ?s1 else 0)"
    by (elim exE conjE)
  from share_begin [OF b 2(1,2)] obtain stk3 where
    3: "frame_stack s3 = stk3 @ below" "stk3 \<noteq> []"
      "length stk3 = length stk2 + (if w = PyTrace_CALL then 1 else 0)"
      "function_key (last stk3) = function_key (last stk2)"
      "share stk3 = share stk2"
    by (elim exE conjE)
  from finish_clock [OF f] have l2: "last_instruction s2 = last_instruction s"
    by simp
  from begin_event_last [OF b] have l3: "last_instruction s3 = begun w (last_instruction s)"
    by (cases w) (simp_all add: begun_def l2)
  from ne have len: "length stk = 1 \<longleftrightarrow> length stk - 1 = 0"
    by (cases stk) auto
  have e: "elapsed ?s1 = now1 - last_instruction_start s"
    by (simp add: elapsed_def)
  have "length stk3 - 1 =
         (if last_instruction s = kReturn then length stk - 1 - 1 else length stk - 1)
           + (if w = PyTrace_CALL then 1 else 0)"
    using 2(2,3) 3(3) ne ret by (cases stk; cases stk2) (auto split: if_splits)
  moreover have "share stk3 = share stk
         + (if last_instruction s = kLine \<or> last_instruction s = kCCall
               \<or> (last_instruction s = kCReturn \<and> length stk - 1 = 0)
            then now1 - last_instruction_start s else 0)"
    unfolding 3(5) 2(5) e len ..
  moreover have "last_instruction s' = begun w (last_instruction s)"
    by (simp add: s' l3)
  moreover have "last_instruction s' \<in> {kCall, kLine, kCCall, kCReturn, kReturn}"
    using begun_attributes [OF b prev] by (simp add: s' l3)
  moreover have "function_key (last stk3) = function_key (last stk)"
    by (simp add: 3(4) 2(4))
  moreover have "frame_stack s' = stk3 @ below" "last_instruction_start s' = now2"
    by (simp_all add: s' 3(1))
  ultimately show ?thesis
    using 3(2) by (intro exI [of _ stk3] conjI)
qed

lemma frame_events_Cons:
  assumes "frame_events depth prev (e # es)"
  shows "prev = kReturn \<longrightarrow> 0 < depth"
    and "ev_what e = PyTrace_RETURN \<and> (if prev = kReturn then depth - 1 else depth) = 0
           \<Longrightarrow> es = []"
    and "\<not> (ev_what e = PyTrace_RETURN \<and> (if prev = kReturn then depth - 1 else depth) = 0)
           \<Longrightarrow> frame_events
                 ((if prev = kReturn then depth - 1 else depth)
                    + (if ev_what e = PyTrace_CALL then 1 else 0))
                 (begun (ev_what e) prev) es"
  using assms by (simp_all add: Let_def split: if_splits)

lemma share_run:
  assumes "run es s = Inr s1" and "frame_stack s = stk @ below" and "stk \<noteq> []"
    and "last_instruction s \<in> {kCall, kLine, kCCall, kCReturn, kReturn}"
    and "frame_events (length stk - 1) (last_instruction s) es"
  shows "\<exists>fr. frame_stack s1 = fr # below \<and> function_key fr = function_key (last stk)
     \<and> total_time fr + frame_internal fr =
         share stk + frame_share (length stk - 1) (last_instruction s)
                       (last_instruction_start s) es
     \<and> last_instruction s1 = kReturn \<and> last_instruction_start s1 = ev_now2 (last es)"
  using assms
proof (induction es arbitrary: s stk)
  case Nil
  then show ?case by simp
next
  case (Cons e es)
  let ?prev = "last_instruction s" and ?depth = "length stk - 1"
  let ?d1 = "if ?prev = kReturn then ?depth - 1 else ?depth"
  from Cons.prems(1) obtain sa where
    p: "profile (ev_what e) (ev_frame e) (ev_arg e) (ev_now1 e) (ev_now2 e) s = Inr sa"
    and r: "run es sa = Inr s1"
    by (auto simp: bindE_Inr)
  note fe = frame_events_Cons [OF Cons.prems(5)]
  from fe(1) have ret: "?prev = kReturn \<longrightarrow> 2 \<le> length stk"
    by auto
  from share_step [OF p Cons.prems(2,3,4) ret] obtain stk' where
    a: "frame_stack sa = stk' @ below" "stk' \<noteq> []"
      "length stk' - 1 = ?d1 + (if ev_what e = PyTrace_CALL then 1 else 0)"
      "function_key (last stk') = function_key (last stk)"
      "share stk' = share stk
         + (if ?prev = kLine \<or> ?prev = kCCall \<or> (?prev = kCReturn \<and> ?depth = 0)
            then ev_now1 e - last_instruction_start s else 0)"
      "last_instruction sa = begun (ev_what e) ?prev"
      "last_instruction sa \<in> {kCall, kLine, kCCall, kCReturn, kReturn}"
      "last_instruction_start sa = ev_now2 e"
    by (elim exE conjE)
  show ?case
  proof (cases "ev_what e = PyTrace_RETURN \<and> ?d1 = 0")
    case True
    with fe(2) have es: "es = []" by simp
    from True a(2,3) obtain fr where stk': "stk' = [fr]"
      by (cases stk') auto
    from r es have s1: "s1 = sa" by simp
    have "total_time fr + frame_internal fr = share stk'"
      by (simp add: stk' share_def)
    with a True show ?thesis
      unfolding es s1 stk' by (intro exI [of _ fr]) (simp add: begun_def)
  next
    case False
    from fe(3) [OF False] a(3,6)
    have "frame_events (length stk' - 1) (last_instruction sa) es"
      by simp
    from Cons.IH [OF r a(1,2,7) this] obtain fr where
      b: "frame_stack s1 = fr # below" "function_key fr = function_key (last stk')"
        "total_time fr + frame_internal fr =
           share stk' + frame_share (length stk' - 1) (last_instruction sa)
                          (last_instruction_start sa) es"
        "last_instruction s1 = kReturn" "last_instruction_start s1 = ev_now2 (last es)"
      by (elim exE conjE)
    from False fe(3) have "es \<noteq> []"
      by auto
    with a b show ?thesis
      by (intro exI [of _ fr]) simp
  qed
qed

lemma frame_share_leaf:
  assumes "frame_events 0 prev es" and "prev \<in> {kLine, kCCall, kCReturn}"
    and "\<forall>e\<in>set es. ev_what e \<in>
        {PyTrace_LINE, PyTrace_RETURN, PyTrace_C_CALL, PyTrace_C_RETURN, PyTrace_C_EXCEPTION}"
  shows "frame_share 0 prev t es = elapsed_sum t es"
  using assms
proof (induction es arbitrary: prev t)
  case Nil
  then show ?case by simp
next
  case (Cons e es)
  note fe = frame_events_Cons [OF Cons.prems(1)]
  from Cons.prems(2) have nr: "prev \<noteq> kReturn" by auto
  from Cons.prems(3) have nc: "ev_what e \<noteq> PyTrace_CALL" by auto
  show ?case
  proof (cases "ev_what e = PyTrace_RETURN")
    case True
    with fe(2) nr have "es = []" by simp
    with Cons.prems(2) show ?thesis by auto
  next
    case False
    with fe(3) nr nc have 1: "frame_events 0 (begun (ev_what e) prev) es" by simp
    from Cons.prems(3) have "ev_what e \<in>
        {PyTrace_LINE, PyTrace_RETURN, PyTrace_C_CALL, PyTrace_C_RETURN, PyTrace_C_EXCEPTION}"
      by simp
    with Cons.prems(2) False have 2: "begun (ev_what e) prev \<in> {kLine, kCCall, kCReturn}"
      by (cases "ev_what e") (simp_all add: begun_def)
    from Cons.prems(3) have 3: "\<forall>e\<in>set es. ev_what e \<in>
        {PyTrace_LINE, PyTrace_RETURN, PyTrace_C_CALL, PyTrace_C_RETURN, PyTrace_C_EXCEPTION}"
      by simp
    from Cons.IH [OF 1 2 3] Cons.prems(2) nr nc show ?thesis
      by auto
  qed
qed

lemma frame_share_leaf_call:
  assumes "frame_events 0 kCall es"
    and "\<forall>e\<in>set es. ev_what e \<in>
        {PyTrace_LINE, PyTrace_RETURN, PyTrace_C_CALL, PyTrace_C_RETURN, PyTrace_C_EXCEPTION}"
  shows "frame_share 0 kCall t es = elapsed_sum (ev_now2 (hd es)) (tl es)"
proof (cases es)
  case Nil
  with assms show ?thesis by simp
next
  case (Cons e rest)
  note fe = frame_events_Cons [OF assms(1) [unfolded Cons]]
  from assms(2) Cons have k: "ev_what e \<in>
        {PyTrace_LINE, PyTrace_RETURN, PyTrace_C_CALL, PyTrace_C_RETURN, PyTrace_C_EXCEPTION}"
    by simp
  then have nc: "ev_what e \<noteq> PyTrace_CALL" by auto
  show ?thesis
  proof (cases "ev_what e = PyTrace_RETURN")
    case True
    with fe(2) have "rest = []" by simp
    with Cons show ?thesis by simp
  next
    case False
    with fe(3) nc have 1: "frame_events 0 (begun (ev_what e) kCall) rest" by simp
    from k False have 2: "begun (ev_what e) kCall \<in> {kLine, kCCall, kCReturn}"
      by (cases "ev_what e") (simp_all add: begun_def)
    from assms(2) Cons have 3: "\<forall>e\<in>set rest. ev_what e \<in>
        {PyTrace_LINE, PyTrace_RETURN, PyTrace_C_CALL, PyTrace_C_RETURN, PyTrace_C_EXCEPTION}"
      by simp
    from frame_share_leaf [OF 1 2 3] Cons nc show ?thesis
      by simp
  qed
qed

lemma profile_call_top:
  assumes "profile PyTrace_CALL frame arg now1 now2 s = Inr s0"
  shows "\<exists>fr below. frame_stack s0 = fr # below \<and> function_key fr = f_code frame
     \<and> total_time fr + frame_internal fr = 0
     \<and> last_instruction s0 = kCall \<and> last_instruction_start s0 = now2"
proof -
  from assms obtain s2 s3 where b: "profile_call frame s2 = Inr s3"
    and s0: "s0 = s3\<lparr>last_instruction_start := now2\<rparr>"
    by (auto simp: profile_Inr)
  from b obtain n line_start below where
    "frame_stack s3 = FrameState_new (f_code frame) n line_start # below"
    and "last_instruction s3 = kCall"
    by (auto simp: profile_call_def emplace_frame_def bindE_Inr split: option.splits)
  with s0 show ?thesis
    by (simp add: total_time_FrameState_new) (simp add: FrameState_new_def)
qed

text \<open>
  Claim C1, amended. Take the events from the first after the call of a frame to its
  return, those of the calls nested in it included. When the frame is popped, in the
  Finish step of the event after its return, the sum over its lines of internal plus
  external time plus its overhead accumulator equals the sum of the durations
  \<^verbatim>\<open>elapsed()\<close> measured at these events and at the event after the return, without
  three kinds of them: the duration measured at the first event after a call, of the
  frame itself or of a nested one, which the Finish step of the call adds to the
  aggregate time of a \<^verbatim>\<open>Function\<close>; the duration measured at the event after the
  return of a nested frame; and the duration measured at the event after a native
  return or a native exception inside a nested frame. The last two are overhead of the
  nested frame, and a pop hands to the caller the line times of the popped frame only.
  An exception event or an opcode event counts as the event before it once more,
  since it leaves the kind of that event in place. For a frame in which only line
  events, native calls, native returns and native exceptions occur, what remains is
  every duration measured from the second event after the call up to the event after
  the return.
\<close>

theorem popped_frame_time:
  assumes "profile PyTrace_CALL frame_c arg_c now1_c now2_c s = Inr s0"
    and "frame_events 0 kCall es"
    and "run es s0 = Inr s1"
  shows "\<exists>popped below.
       last_instruction s1 = kReturn
     \<and> finish (last_instruction s1) frame_n (s1\<lparr>last_instruction_end := now1\<rparr>) =
         pop_frame (s1\<lparr>last_instruction_end := now1, frame_stack := popped # below\<rparr>)
     \<and> function_key popped = f_code frame_c
     \<and> total_time popped + frame_internal popped =
         frame_share 0 kCall now2_c es + (now1 - ev_now2 (last es))
     \<and> ((\<forall>e\<in>set es. ev_what e \<in>
            {PyTrace_LINE, PyTrace_RETURN, PyTrace_C_CALL, PyTrace_C_RETURN, PyTrace_C_EXCEPTION})
          \<longrightarrow> frame_share 0 kCall now2_c es = elapsed_sum (ev_now2 (hd es)) (tl es))"
proof -
  from profile_call_top [OF assms(1)] obtain fr0 below where
    0: "frame_stack s0 = fr0 # below" "function_key fr0 = f_code frame_c"
      "total_time fr0 + frame_internal fr0 = 0" "last_instruction s0 = kCall"
      "last_instruction_start s0 = now2_c"
    by (elim exE conjE)
  have st: "frame_stack s0 = [fr0] @ below" and ne: "[fr0] \<noteq> []"
    and k: "last_instruction s0 \<in> {kCall, kLine, kCCall, kCReturn, kReturn}"
    and fe: "frame_events (length [fr0] - 1) (last_instruction s0) es"
    using 0 assms(2) by simp_all
  from share_run [OF assms(3) st ne k fe] obtain fr where
    1: "frame_stack s1 = fr # below" "function_key fr = function_key (last [fr0])"
      "total_time fr + frame_internal fr =
         share [fr0] + frame_share (length [fr0] - 1) (last_instruction s0)
                         (last_instruction_start s0) es"
      "last_instruction s1 = kReturn" "last_instruction_start s1 = ev_now2 (last es)"
    by (elim exE conjE)
  from 0(3) have sh: "share [fr0] = 0"
    by (simp add: share_def)
  let ?popped = "fr\<lparr>frame_internal := frame_internal fr + (now1 - ev_now2 (last es))\<rparr>"
  have f: "finish (last_instruction s1) frame_n (s1\<lparr>last_instruction_end := now1\<rparr>) =
         pop_frame (s1\<lparr>last_instruction_end := now1, frame_stack := ?popped # below\<rparr>)"
    using 1(1,4,5) by (simp add: finish_return_eq elapsed_def)
  have t: "total_time ?popped + frame_internal ?popped =
         frame_share 0 kCall now2_c es + (now1 - ev_now2 (last es))"
    using 1(3) 0(4,5) sh by (simp add: total_time_eq)
  have key: "function_key ?popped = f_code frame_c"
    using 1(2) 0(2) by simp
  have leaf: "(\<forall>e\<in>set es. ev_what e \<in>
            {PyTrace_LINE, PyTrace_RETURN, PyTrace_C_CALL, PyTrace_C_RETURN, PyTrace_C_EXCEPTION})
          \<longrightarrow> frame_share 0 kCall now2_c es = elapsed_sum (ev_now2 (hd es)) (tl es)"
    using frame_share_leaf_call [OF assms(2)] by blast
  show ?thesis
    apply (rule exI [of _ ?popped], rule exI [of _ below])
    apply (intro conjI)
        apply (rule 1(4))
       apply (rule f)
      apply (rule key)
     apply (rule t)
    apply (rule leaf)
    done
qed

lemma ex_session_simps:
  "last_instruction (ex_session fs st k t e) = k"
  "(ex_session fs st k t e)\<lparr>last_instruction_end := e'\<rparr> = ex_session fs st k t e'"
  "(ex_session fs st k t e)\<lparr>last_instruction_start := t'\<rparr> = ex_session fs st k t' e"
  by (simp_all add: ex_session_def)

lemma ex_called_session:
  "ex_called = ex_session [1 \<mapsto> ex_f_function 0] [FrameState_new 1 2 10] kCall 0 0"
  by (simp add: ex_called_def ex_session_def Module_new_def ex_f_function_def add_call_def
      Function_new_def BaseFunction_new_def)

lemma ex_profile:
  assumes "finish k frame (ex_session fs st k t now) = Inr (ex_session fs' st' k t now)"
    and "begin_event w frame None (ex_session fs' st' k t now) = Inr (ex_session fs'' st'' k' t now)"
  shows "profile w frame None now now (ex_session fs st k t e) = Inr (ex_session fs'' st'' k' now now)"
  by (simp only: profile_eq ex_session_simps assms bindE.simps)

lemma ex_step1:
  "profile PyTrace_LINE (ex_frame 11) None 7 7
     (ex_session [1 \<mapsto> ex_f_function 0] [FrameState_new 1 2 10] kCall 0 0) =
   Inr (ex_session [1 \<mapsto> ex_f_function 7] [ex_f_state 0 0] kLine 7 7)"
proof (rule ex_profile)
  show "finish kCall (ex_frame 11) (ex_session [1 \<mapsto> ex_f_function 0] [FrameState_new 1 2 10] kCall 0 7)
      = Inr (ex_session [1 \<mapsto> ex_f_function 7] [FrameState_new 1 2 10] kCall 0 7)"
    by (simp add: finish_call_def elapsed_def add_elapsed_internal_def ex_session_def
        ex_f_function_def ex_frame_def)
  show "begin_event PyTrace_LINE (ex_frame 11) None
        (ex_session [1 \<mapsto> ex_f_function 7] [FrameState_new 1 2 10] kCall 0 7)
      = Inr (ex_session [1 \<mapsto> ex_f_function 7] [ex_f_state 0 0] kLine 0 7)"
    by (simp add: profile_line_def top_def set_top_def set_current_line_def current_line_def
        current_line_index_def line_add_call_def ex_session_def ex_f_state_def ex_frame_def
        FrameState_new_def LineState_new_def ex_line_def numeral_2_eq_2)
qed

lemma ex_step2:
  "profile PyTrace_CALL (ex_frame_g 20) None 10 10
     (ex_session [1 \<mapsto> ex_f_function 7] [ex_f_state 0 0] kLine 7 7) =
   Inr (ex_session [1 \<mapsto> ex_f_function 7, 2 \<mapsto> ex_g_function 0 0 0]
          [ex_g_state 0 0 0, ex_f_state 3 0] kCall 10 10)"
proof (rule ex_profile)
  show "finish kLine (ex_frame_g 20) (ex_session [1 \<mapsto> ex_f_function 7] [ex_f_state 0 0] kLine 7 10)
      = Inr (ex_session [1 \<mapsto> ex_f_function 7] [ex_f_state 3 0] kLine 7 10)"
    by (simp add: finish_line_def elapsed_def top_def set_top_def update_current_line_eq
        current_line_index_def add_internal_def ex_session_def ex_f_state_def ex_line_def)
  show "begin_event PyTrace_CALL (ex_frame_g 20) None
        (ex_session [1 \<mapsto> ex_f_function 7] [ex_f_state 3 0] kLine 7 10)
      = Inr (ex_session [1 \<mapsto> ex_f_function 7, 2 \<mapsto> ex_g_function 0 0 0]
          [ex_g_state 0 0 0, ex_f_state 3 0] kCall 7 10)"
    using profile_call_fresh [of "ex_frame_g 20" "[''def g():'', ''  return 1'']" 20
        "ex_session [1 \<mapsto> ex_f_function 7] [ex_f_state 3 0] kLine 7 10"]
    by (simp add: ex_frame_g_def ex_session_def ex_g_function_def ex_g_state_def add_call_def
        Function_new_def BaseFunction_new_def FrameState_new_def LineRecord_new_def
        LineState_new_def ex_line_def)
qed

lemma ex_step3:
  "profile PyTrace_LINE (ex_frame_g 21) None 12 12
     (ex_session [1 \<mapsto> ex_f_function 7, 2 \<mapsto> ex_g_function 0 0 0]
          [ex_g_state 0 0 0, ex_f_state 3 0] kCall 10 10) =
   Inr (ex_session [1 \<mapsto> ex_f_function 7, 2 \<mapsto> ex_g_function 2 0 0]
          [ex_g_state 21 1 0, ex_f_state 3 0] kLine 12 12)"
proof (rule ex_profile)
  show "finish kCall (ex_frame_g 21)
        (ex_session [1 \<mapsto> ex_f_function 7, 2 \<mapsto> ex_g_function 0 0 0]
          [ex_g_state 0 0 0, ex_f_state 3 0] kCall 10 12)
      = Inr (ex_session [1 \<mapsto> ex_f_function 7, 2 \<mapsto> ex_g_function 2 0 0]
          [ex_g_state 0 0 0, ex_f_state 3 0] kCall 10 12)"
    by (simp add: finish_call_def elapsed_def add_elapsed_internal_def ex_session_def
        ex_g_function_def ex_frame_g_def)
  show "begin_event PyTrace_LINE (ex_frame_g 21) None
        (ex_session [1 \<mapsto> ex_f_function 7, 2 \<mapsto> ex_g_function 2 0 0]
          [ex_g_state 0 0 0, ex_f_state 3 0] kCall 10 12)
      = Inr (ex_session [1 \<mapsto> ex_f_function 7, 2 \<mapsto> ex_g_function 2 0 0]
          [ex_g_state 21 1 0, ex_f_state 3 0] kLine 10 12)"
    by (simp add: profile_line_def top_def set_top_def set_current_line_def current_line_def
        current_line_index_def line_add_call_def ex_session_def ex_g_state_def ex_frame_g_def
        ex_line_def)
qed

lemma ex_step4:
  "profile PyTrace_RETURN (ex_frame_g 21) None 15 15
     (ex_session [1 \<mapsto> ex_f_function 7, 2 \<mapsto> ex_g_function 2 0 0]
          [ex_g_state 21 1 0, ex_f_state 3 0] kLine 12 12) =
   Inr (ex_session [1 \<mapsto> ex_f_function 7, 2 \<mapsto> ex_g_function 2 0 0]
          [ex_g_state 21 1 3, ex_f_state 3 0] kReturn 15 15)"
proof (rule ex_profile)
  show "finish kLine (ex_frame_g 21)
        (ex_session [1 \<mapsto> ex_f_function 7, 2 \<mapsto> ex_g_function 2 0 0]
          [ex_g_state 21 1 0, ex_f_state 3 0] kLine 12 15)
      = Inr (ex_session [1 \<mapsto> ex_f_function 7, 2 \<mapsto> ex_g_function 2 0 0]
          [ex_g_state 21 1 3, ex_f_state 3 0] kLine 12 15)"
    by (simp add: finish_line_def elapsed_def top_def set_top_def update_current_line_eq
        current_line_index_def add_internal_def ex_session_def ex_g_state_def ex_line_def)
  show "begin_event PyTrace_RETURN (ex_frame_g 21) None
        (ex_session [1 \<mapsto> ex_f_function 7, 2 \<mapsto> ex_g_function 2 0 0]
          [ex_g_state 21 1 3, ex_f_state 3 0] kLine 12 15)
      = Inr (ex_session [1 \<mapsto> ex_f_function 7, 2 \<mapsto> ex_g_function 2 0 0]
          [ex_g_state 21 1 3, ex_f_state 3 0] kReturn 12 15)"
    by (simp add: profile_return_def ex_session_def)
qed

lemma ex_step5:
  "profile PyTrace_RETURN (ex_frame 11) None 19 19
     (ex_session [1 \<mapsto> ex_f_function 7, 2 \<mapsto> ex_g_function 2 0 0]
          [ex_g_state 21 1 3, ex_f_state 3 0] kReturn 15 15) =
   Inr ex_f_returning"
  unfolding ex_f_returning_def
proof (rule ex_profile)
  show "finish kReturn (ex_frame 11)
        (ex_session [1 \<mapsto> ex_f_function 7, 2 \<mapsto> ex_g_function 2 0 0]
          [ex_g_state 21 1 3, ex_f_state 3 0] kReturn 15 19)
      = Inr (ex_session [1 \<mapsto> ex_f_function 7, 2 \<mapsto> ex_g_function 6 1 3]
          [ex_f_state 3 3] kReturn 15 19)"
    by (simp add: finish_return_eq pop_frame_def top_def set_top_def elapsed_def
        add_elapsed_internal_def merge_lines_0 plus_eq_def total_time_def Let_def
        update_current_line_eq current_line_index_def add_external_def
        ex_session_def ex_g_state_def ex_f_state_def ex_g_function_def ex_line_def)
  show "begin_event PyTrace_RETURN (ex_frame 11) None
        (ex_session [1 \<mapsto> ex_f_function 7, 2 \<mapsto> ex_g_function 6 1 3]
          [ex_f_state 3 3] kReturn 15 19)
      = Inr (ex_session [1 \<mapsto> ex_f_function 7, 2 \<mapsto> ex_g_function 6 1 3]
          [ex_f_state 3 3] kReturn 15 19)"
    by (simp add: profile_return_def ex_session_def)
qed

lemma ex_f_calls_g_run: "run ex_f_calls_g ex_called = Inr ex_f_returning"
  unfolding ex_f_calls_g_def ex_called_session
  by (simp only: ex_event_def ex_event_g_def run.simps Event.select_convs bindE.simps
      ex_step1 ex_step2 ex_step3 ex_step4 ex_step5)

theorem popped_frame_time_witness:
  "profile PyTrace_CALL (ex_frame 10) None 0 0 (start Module_new) = Inr ex_called
   \<and> frame_events 0 kCall [ex_event PyTrace_LINE 11 7, ex_event PyTrace_RETURN 12 17]
   \<and> run [ex_event PyTrace_LINE 11 7, ex_event PyTrace_RETURN 12 17] ex_called
       = Inr ex_returning
   \<and> (\<exists>popped below.
         finish (last_instruction ex_returning) (ex_frame 5)
           (ex_returning\<lparr>last_instruction_end := 22\<rparr>) =
           pop_frame (ex_returning\<lparr>last_instruction_end := 22, frame_stack := popped # below\<rparr>)
       \<and> total_time popped + frame_internal popped = (17 - 7) + (22 - 17))
   \<and> frame_events 0 kCall ex_f_calls_g
   \<and> run ex_f_calls_g ex_called = Inr ex_f_returning
   \<and> (\<exists>popped below.
         finish (last_instruction ex_f_returning) (ex_frame 5)
           (ex_f_returning\<lparr>last_instruction_end := 25\<rparr>) =
           pop_frame (ex_f_returning\<lparr>last_instruction_end := 25, frame_stack := popped # below\<rparr>)
       \<and> total_time popped + frame_internal popped = (10 - 7) + (15 - 12) + (25 - 19))"
proof -
  let ?es = "[ex_event PyTrace_LINE 11 7, ex_event PyTrace_RETURN 12 17]"
  have fe: "frame_events 0 kCall ?es"
    by (simp add: ex_event_def begun_def)
  have leaf: "\<forall>e\<in>set ?es. ev_what e \<in>
      {PyTrace_LINE, PyTrace_RETURN, PyTrace_C_CALL, PyTrace_C_RETURN, PyTrace_C_EXCEPTION}"
    by (simp add: ex_event_def)
  from popped_frame_time [OF ex_call fe ex_body, of "ex_frame 5" 22]
  obtain popped below where
    f: "finish (last_instruction ex_returning) (ex_frame 5)
           (ex_returning\<lparr>last_instruction_end := 22\<rparr>) =
           pop_frame (ex_returning\<lparr>last_instruction_end := 22, frame_stack := popped # below\<rparr>)"
    and t: "total_time popped + frame_internal popped =
         frame_share 0 kCall 0 ?es + (22 - ev_now2 (last ?es))"
    and l: "(\<forall>e\<in>set ?es. ev_what e \<in>
            {PyTrace_LINE, PyTrace_RETURN, PyTrace_C_CALL, PyTrace_C_RETURN, PyTrace_C_EXCEPTION})
          \<longrightarrow> frame_share 0 kCall 0 ?es = elapsed_sum (ev_now2 (hd ?es)) (tl ?es)"
    by (elim exE conjE)
  from l leaf have "frame_share 0 kCall 0 ?es = elapsed_sum (ev_now2 (hd ?es)) (tl ?es)"
    by (rule mp)
  with t have "total_time popped + frame_internal popped = (17 - 7) + (22 - 17)"
    by (simp add: ex_event_def)
  with f have 1: "\<exists>popped below.
         finish (last_instruction ex_returning) (ex_frame 5)
           (ex_returning\<lparr>last_instruction_end := 22\<rparr>) =
           pop_frame (ex_returning\<lparr>last_instruction_end := 22, frame_stack := popped # below\<rparr>)
       \<and> total_time popped + frame_internal popped = (17 - 7) + (22 - 17)"
    by (intro exI conjI)
  have fe2: "frame_events 0 kCall ex_f_calls_g"
    by (simp add: ex_f_calls_g_def ex_event_def ex_event_g_def begun_def)
  from popped_frame_time [OF ex_call fe2 ex_f_calls_g_run, of "ex_frame 5" 25]
  obtain popped2 below2 where
    f2: "finish (last_instruction ex_f_returning) (ex_frame 5)
           (ex_f_returning\<lparr>last_instruction_end := 25\<rparr>) =
           pop_frame (ex_f_returning\<lparr>last_instruction_end := 25,
             frame_stack := popped2 # below2\<rparr>)"
    and t2: "total_time popped2 + frame_internal popped2 =
         frame_share 0 kCall 0 ex_f_calls_g + (25 - ev_now2 (last ex_f_calls_g))"
    by (elim exE conjE)
  from t2 have "total_time popped2 + frame_internal popped2 = (10 - 7) + (15 - 12) + (25 - 19)"
    by (simp add: ex_f_calls_g_def ex_event_def ex_event_g_def begun_def)
  with f2 have 2: "\<exists>popped below.
         finish (last_instruction ex_f_returning) (ex_frame 5)
           (ex_f_returning\<lparr>last_instruction_end := 25\<rparr>) =
           pop_frame (ex_f_returning\<lparr>last_instruction_end := 25, frame_stack := popped # below\<rparr>)
       \<and> total_time popped + frame_internal popped = (10 - 7) + (15 - 12) + (25 - 19)"
    by (intro exI conjI)
  from ex_call fe ex_body 1 fe2 ex_f_calls_g_run 2 show ?thesis
    by (intro conjI)
qed

subsection \<open>Monotonicity\<close>

lemma line_le_refl [simp]: "line_le l l"
  by (simp add: line_le_def)

lemma base_le_refl [simp]: "base_le f f"
  by (simp add: base_le_def)

lemma list_all2_line_le_refl [simp]: "list_all2 line_le ls ls"
  by (simp add: list_all2_refl)

lemma function_le_refl [simp]: "function_le f f"
  by (simp add: function_le_def)

lemma accumulators_le_refl [simp]: "accumulators_le s s"
  by (simp add: accumulators_le_def)

lemma line_le_trans: "line_le a b \<Longrightarrow> line_le b c \<Longrightarrow> line_le a c"
  by (auto simp: line_le_def)

lemma base_le_trans: "base_le a b \<Longrightarrow> base_le b c \<Longrightarrow> base_le a c"
  by (auto simp: base_le_def)

lemma function_le_trans:
  assumes "function_le a b" and "function_le b c"
  shows "function_le a c"
proof -
  from assms have ab: "list_all2 line_le (function_lines a) (function_lines b)"
    and bc: "list_all2 line_le (function_lines b) (function_lines c)"
    by (simp_all add: function_le_def)
  have "list_all2 line_le (function_lines a) (function_lines c)"
    by (rule list_all2_trans [OF _ ab bc]) (rule line_le_trans)
  with assms show ?thesis
    by (auto simp: function_le_def intro: base_le_trans)
qed

lemma accumulators_le_trans:
  assumes "accumulators_le a b" and "accumulators_le b c"
  shows "accumulators_le a c"
  unfolding accumulators_le_def
proof (intro conjI allI impI)
  fix key f assume "py_functions a key = Some f"
  with assms(1) obtain f' where 1: "py_functions b key = Some f'" "function_le f f'"
    unfolding accumulators_le_def by blast
  with assms(2) obtain f'' where "py_functions c key = Some f''" "function_le f' f''"
    unfolding accumulators_le_def by blast
  with 1 show "\<exists>f'. py_functions c key = Some f' \<and> function_le f f'"
    by (blast intro: function_le_trans)
next
  fix nm f assume "c_functions a nm = Some f"
  with assms(1) obtain f' where 1: "c_functions b nm = Some f'" "base_le f f'"
    unfolding accumulators_le_def by blast
  with assms(2) obtain f'' where "c_functions c nm = Some f''" "base_le f' f''"
    unfolding accumulators_le_def by blast
  with 1 show "\<exists>b'. c_functions c nm = Some b' \<and> base_le f b'"
    by (blast intro: base_le_trans)
qed

lemma accumulators_le_cong:
  "py_functions s' = py_functions s \<Longrightarrow> c_functions s' = c_functions s \<Longrightarrow>
   accumulators_le s s'"
  by (simp add: accumulators_le_def)

lemma session_inv_mono: "session_inv n s \<Longrightarrow> n \<le> m \<Longrightarrow> session_inv m s"
  unfolding session_inv_def by (meson le_trans)

lemma pending_count_Cons:
  "pending_count (fr # st) key i =
     (if function_key fr = key then line_count (frame_lines fr) i else 0)
       + pending_count st key i"
  by (simp add: pending_count_def)

lemma pending_count_Nil [simp]: "pending_count [] key i = 0"
  by (simp add: pending_count_def)

lemma line_count_update:
  "line_count (ls[j := x]) i =
     (if i = j \<and> j < length ls then unat (line_n_calls x) else line_count ls i)"
  by (auto simp: line_count_def)

lemma line_count_update_same:
  "line_n_calls x = line_n_calls (ls ! j) \<Longrightarrow> line_count (ls[j := x]) i = line_count ls i"
  by (cases "i = j") (auto simp: line_count_def)

lemma list_all_update:
  "list_all P xs \<Longrightarrow> P x \<Longrightarrow> list_all P (xs[i := x])"
  by (cases "i < length xs") (auto simp: list_all_length nth_list_update)

lemma frame_nonneg_line:
  "frame_nonneg fr \<Longrightarrow> i < length (frame_lines fr) \<Longrightarrow>
   0 \<le> line_internal (frame_lines fr ! i) \<and> 0 \<le> line_external (frame_lines fr ! i)"
  by (simp add: frame_nonneg_def list_all_length)

lemma frame_nonneg_total_time: "frame_nonneg fr \<Longrightarrow> 0 \<le> total_time fr"
  by (auto simp: frame_nonneg_def total_time_eq list_all_iff intro!: sum_list_nonneg)

lemma frame_nonneg_update:
  assumes "frame_nonneg fr" and "0 \<le> line_internal x" and "0 \<le> line_external x"
  shows "frame_nonneg (fr\<lparr>frame_lines := (frame_lines fr)[i := x]\<rparr>)"
  using assms by (simp add: frame_nonneg_def list_all_update)

lemma session_inv_top:
  assumes "session_inv n s" and "frame_stack s = fr # below"
    and "frame_stack s' = fr' # below" and "frame_nonneg fr'"
    and "function_key fr' = function_key fr"
    and "\<And>i. line_count (frame_lines fr') i = line_count (frame_lines fr) i"
    and "py_functions s' = py_functions s" and "c_functions s' = c_functions s"
  shows "session_inv n s'"
proof -
  have "pending_count (frame_stack s') key i = pending_count (frame_stack s) key i" for key i
    using assms(2,3,5,6) by (simp add: pending_count_Cons)
  with assms(1,2,3,4,7,8) show ?thesis
    by (simp add: session_inv_def)
qed

lemma recorded_count_same_lines:
  "fs k = Some fn \<Longrightarrow> function_lines fn' = function_lines fn \<Longrightarrow>
   recorded_count (fs(k \<mapsto> fn')) key i = recorded_count fs key i"
  by (simp add: recorded_count_def)

lemma finish_call_inv:
  assumes "session_inv n s" and "0 \<le> elapsed s" and "finish_call frame s = Inr s'"
  shows "session_inv n s' \<and> accumulators_le s s'"
proof -
  from assms(3) obtain fn where fn: "py_functions s (f_code frame) = Some fn"
    and s': "s' = s\<lparr>py_functions := (py_functions s)
               (f_code frame \<mapsto> fn\<lparr>internal_time := internal_time fn + elapsed s\<rparr>)\<rparr>"
    by (auto simp: finish_call_Inr)
  have "session_inv n s'"
    using assms(1) fn unfolding s' session_inv_def
    by (auto simp: recorded_count_same_lines split: if_splits)
  moreover have "accumulators_le s s'"
    using assms(2) fn unfolding s' accumulators_le_def
    by (auto simp: function_le_def base_le_def)
  ultimately show ?thesis ..
qed

lemma finish_line_inv:
  assumes "session_inv n s" and "0 \<le> elapsed s" and "finish_line frame s = Inr s'"
  shows "session_inv n s' \<and> accumulators_le s s'"
proof (cases "frame_stack s")
  case Nil
  with assms show ?thesis by (simp add: finish_line_def)
next
  case (Cons fr below)
  with assms(3) have idx: "current_line_index fr < length (frame_lines fr)"
    and s': "s' = s\<lparr>frame_stack := fr\<lparr>frame_lines := (frame_lines fr)
                 [current_line_index fr :=
                    add_internal (elapsed s) (frame_lines fr ! current_line_index fr)]\<rparr> # below\<rparr>"
    by (auto simp: finish_line_Inr)
  from assms(1) Cons have nn: "frame_nonneg fr"
    by (simp add: session_inv_def)
  have "session_inv n s'"
  proof (rule session_inv_top [OF assms(1) Cons,
          where fr' = "fr\<lparr>frame_lines := (frame_lines fr)
                 [current_line_index fr :=
                    add_internal (elapsed s) (frame_lines fr ! current_line_index fr)]\<rparr>"])
    show "frame_nonneg (fr\<lparr>frame_lines := (frame_lines fr)
                 [current_line_index fr :=
                    add_internal (elapsed s) (frame_lines fr ! current_line_index fr)]\<rparr>)"
      using frame_nonneg_line [OF nn idx] assms(2)
      by (intro frame_nonneg_update [OF nn]) (simp_all add: add_internal_def)
  qed (simp_all add: s' line_count_update_same add_internal_def)
  moreover have "accumulators_le s s'"
    by (rule accumulators_le_cong) (simp_all add: s')
  ultimately show ?thesis ..
qed

lemma finish_creturn_inv:
  assumes "session_inv n s" and "0 \<le> elapsed s" and "finish_creturn frame s = Inr s'"
  shows "session_inv n s' \<and> accumulators_le s s'"
proof -
  from assms(3) obtain fr below where st: "frame_stack s = fr # below"
    and s': "s' = s\<lparr>frame_stack := fr\<lparr>frame_internal := frame_internal fr + elapsed s\<rparr> # below\<rparr>"
    by (auto simp: finish_creturn_Inr)
  from assms(1) st have nn: "frame_nonneg fr"
    by (simp add: session_inv_def)
  have "session_inv n s'"
    by (rule session_inv_top [OF assms(1) st,
          where fr' = "fr\<lparr>frame_internal := frame_internal fr + elapsed s\<rparr>"])
      (use nn assms(2) in \<open>simp_all add: s' frame_nonneg_def\<close>)
  moreover have "accumulators_le s s'"
    by (rule accumulators_le_cong) (simp_all add: s')
  ultimately show ?thesis ..
qed

lemma finish_ccall_inv:
  assumes "session_inv n s" and "0 \<le> elapsed s" and "finish_ccall frame s = Inr s'"
  shows "session_inv n s' \<and> accumulators_le s s'"
proof -
  from assms(3) obtain c_function fr below where
    c: "c_functions s (last_c_name s) = Some c_function"
    and st: "frame_stack s = fr # below"
    and idx: "current_line_index fr < length (frame_lines fr)"
    and s': "s' = s\<lparr>c_functions := (c_functions s)
               (last_c_name s \<mapsto> c_function\<lparr>internal_time := internal_time c_function + elapsed s\<rparr>),
             frame_stack := fr\<lparr>frame_lines := (frame_lines fr)
                 [current_line_index fr :=
                    add_external (elapsed s) (frame_lines fr ! current_line_index fr)]\<rparr> # below\<rparr>"
    by (auto simp: finish_ccall_Inr)
  from assms(1) st have nn: "frame_nonneg fr"
    by (simp add: session_inv_def)
  let ?fr' = "fr\<lparr>frame_lines := (frame_lines fr)
                 [current_line_index fr :=
                    add_external (elapsed s) (frame_lines fr ! current_line_index fr)]\<rparr>"
  have nn': "frame_nonneg ?fr'"
    using frame_nonneg_line [OF nn idx] assms(2)
    by (intro frame_nonneg_update [OF nn]) (simp_all add: add_external_def)
  have cnt: "line_count (frame_lines ?fr') i = line_count (frame_lines fr) i" for i
    by (simp add: line_count_update_same add_external_def)
  have "session_inv n s'"
    using assms(1) st c nn' cnt unfolding s' session_inv_def
    by (auto simp: pending_count_Cons split: if_splits)
  moreover have "accumulators_le s s'"
    using assms(2) c unfolding s' accumulators_le_def
    by (auto simp: base_le_def)
  ultimately show ?thesis ..
qed


lemma unat_add_no_wrap:
  fixes a b :: size_t
  assumes "unat a + unat b \<le> n" and "n < 2 ^ 64"
  shows "unat (a + b) = unat a + unat b"
proof -
  from assms have "unat a + unat b < 2 ^ LENGTH(64)" by simp
  then show ?thesis by (simp only: unat_add_lem)
qed

lemma pop_frame_inv:
  assumes inv: "session_inv n s" and n: "n < 2 ^ 64" and pop: "pop_frame s = Inr s'"
  shows "session_inv n s' \<and> accumulators_le s s'"
proof -
  from pop_frame_Inr [OF pop] obtain fr below fn where st: "frame_stack s = fr # below"
    and fn: "py_functions s (function_key fr) = Some fn"
    and len: "length (frame_lines fr) \<le> length (function_lines fn)"
    and last: "below = [] \<longrightarrow>
          s' = s\<lparr>py_functions := popped_functions fr fn s, frame_stack := []\<rparr>"
    and caller: "\<forall>caller rest. below = caller # rest \<longrightarrow>
           current_line_index caller < length (frame_lines caller) \<and>
           s' = s\<lparr>py_functions := popped_functions fr fn s,
                  frame_stack := caller\<lparr>frame_lines := (frame_lines caller)
                     [current_line_index caller :=
                        add_external (total_time fr)
                          (frame_lines caller ! current_line_index caller)]\<rparr> # rest\<rparr>"
    by blast
  let ?recs = "function_lines fn" and ?ls = "frame_lines fr"
  let ?fn' = "fn\<lparr>internal_time := internal_time fn + frame_internal fr,
                function_lines := zip_plus ?recs ?ls\<rparr>"
  from inv st have nn_fr: "frame_nonneg fr" and nn_below: "list_all frame_nonneg below"
    by (simp_all add: session_inv_def)
  have fs': "py_functions s' = (py_functions s)(function_key fr \<mapsto> ?fn')"
    and cs': "c_functions s' = c_functions s"
    using last caller by (cases below; simp add: popped_functions_def)+
  have nn': "list_all frame_nonneg (frame_stack s')"
    and pend': "pending_count (frame_stack s') key i = pending_count below key i" for key i
  proof -
    show "list_all frame_nonneg (frame_stack s')"
    proof (cases below)
      case Nil
      with last show ?thesis by simp
    next
      case (Cons c rest)
      with caller nn_below have idx: "current_line_index c < length (frame_lines c)"
        and nn_c: "frame_nonneg c" and nn_rest: "list_all frame_nonneg rest"
        by simp_all
      from frame_nonneg_line [OF nn_c idx] frame_nonneg_total_time [OF nn_fr]
      have "frame_nonneg (c\<lparr>frame_lines := (frame_lines c)
                     [current_line_index c :=
                        add_external (total_time fr)
                          (frame_lines c ! current_line_index c)]\<rparr>)"
        by (intro frame_nonneg_update [OF nn_c]) (simp_all add: add_external_def)
      with caller Cons nn_rest show ?thesis by simp
    qed
    show "pending_count (frame_stack s') key i = pending_count below key i"
    proof (cases below)
      case Nil
      with last show ?thesis by simp
    next
      case (Cons c rest)
      with caller show ?thesis
        by (simp add: pending_count_Cons line_count_update_same add_external_def)
    qed
  qed
  have bound: "line_count ?recs i + line_count ?ls i + pending_count below (function_key fr) i \<le> n"
    for i
  proof -
    from inv have "recorded_count (py_functions s) (function_key fr) i
        + pending_count (frame_stack s) (function_key fr) i \<le> n"
      by (simp add: session_inv_def)
    with st fn show ?thesis
      by (simp add: recorded_count_def pending_count_Cons)
  qed
  have sum: "unat (line_n_calls (?recs ! i)) + unat (line_n_calls (?ls ! i)) \<le> n"
    if "i < length ?ls" for i
    using bound [of i] that len by (simp add: line_count_def)
  have cnt: "line_count (zip_plus ?recs ?ls) i = line_count ?recs i + line_count ?ls i" for i
  proof (cases "i < length ?ls")
    case True
    with len have "i < length ?recs" by simp
    with True unat_add_no_wrap [OF sum [OF True] n] show ?thesis
      by (simp add: line_count_def zip_plus_nth plus_eq_def)
  next
    case False
    then show ?thesis
      by (simp add: line_count_def zip_plus_nth)
  qed
  have rec': "recorded_count (py_functions s') key i + pending_count (frame_stack s') key i =
      recorded_count (py_functions s) key i + pending_count (frame_stack s) key i" for key i
    using fn cnt [of i] by (auto simp: fs' pend' st pending_count_Cons recorded_count_def)
  have "session_inv n s'"
    unfolding session_inv_def
  proof (intro conjI allI impI)
    show "list_all frame_nonneg (frame_stack s')" by (rule nn')
  next
    fix key f assume "py_functions s' key = Some f"
    with inv fn show "unat (n_calls f) \<le> n"
      by (auto simp: fs' session_inv_def split: if_splits)
  next
    fix nm b assume "c_functions s' nm = Some b"
    with inv show "unat (n_calls b) \<le> n"
      by (simp add: cs' session_inv_def)
  next
    fix key i
    from inv show "recorded_count (py_functions s') key i
        + pending_count (frame_stack s') key i \<le> n"
      by (simp add: rec' session_inv_def)
  qed
  moreover have "function_le fn ?fn'"
  proof -
    have "line_le (?recs ! i) (zip_plus ?recs ?ls ! i)" if i: "i < length ?recs" for i
    proof (cases "i < length ?ls")
      case True
      from frame_nonneg_line [OF nn_fr True] unat_add_no_wrap [OF sum [OF True] n] i True
      show ?thesis
        by (simp add: zip_plus_nth line_le_def plus_eq_def word_le_nat_alt)
    next
      case False
      with i show ?thesis by (simp add: zip_plus_nth)
    qed
    then have "list_all2 line_le ?recs (zip_plus ?recs ?ls)"
      by (simp add: list_all2_conv_all_nth)
    with nn_fr show ?thesis
      by (simp add: function_le_def base_le_def frame_nonneg_def)
  qed
  then have "accumulators_le s s'"
    using fn unfolding accumulators_le_def by (auto simp: fs' cs')
  ultimately show ?thesis ..
qed

lemma finish_return_inv:
  assumes "session_inv n s" and "n < 2 ^ 64" and "0 \<le> elapsed s"
    and "finish_return frame s = Inr s'"
  shows "session_inv n s' \<and> accumulators_le s s'"
proof -
  from assms(4) obtain fr below where st: "frame_stack s = fr # below"
    and pop: "pop_frame (s\<lparr>frame_stack :=
        fr\<lparr>frame_internal := frame_internal fr + elapsed s\<rparr> # below\<rparr>) = Inr s'"
    by (auto simp: finish_return_eq split: list.splits)
  let ?s1 = "s\<lparr>frame_stack := fr\<lparr>frame_internal := frame_internal fr + elapsed s\<rparr> # below\<rparr>"
  from assms(1) st have nn: "frame_nonneg fr"
    by (simp add: session_inv_def)
  have "session_inv n ?s1"
    by (rule session_inv_top [OF assms(1) st,
          where fr' = "fr\<lparr>frame_internal := frame_internal fr + elapsed s\<rparr>"])
      (use nn assms(3) in \<open>simp_all add: frame_nonneg_def\<close>)
  from pop_frame_inv [OF this assms(2) pop] show ?thesis
    by (simp add: accumulators_le_def)
qed

lemma finish_inv:
  assumes "session_inv n s" and "n < 2 ^ 64"
    and "attributes_time k \<longrightarrow> 0 \<le> elapsed s"
    and "finish k frame s = Inr s'"
  shows "session_inv n s' \<and> accumulators_le s s'"
proof (cases k)
  case kLine
  with assms finish_line_inv [of n s frame s'] show ?thesis
    by (simp add: attributes_time_def)
next
  case kCall
  with assms finish_call_inv [of n s frame s'] show ?thesis
    by (simp add: attributes_time_def)
next
  case kReturn
  with assms finish_return_inv [of n s frame s'] show ?thesis
    by (simp add: attributes_time_def)
next
  case kCCall
  with assms finish_ccall_inv [of n s frame s'] show ?thesis
    by (simp add: attributes_time_def)
next
  case kCReturn
  with assms finish_creturn_inv [of n s frame s'] show ?thesis
    by (simp add: attributes_time_def)
qed (use assms in \<open>auto simp: finish_origin_def\<close>)

lemma unat_add_1_no_wrap:
  fixes a :: size_t
  assumes "unat a \<le> n" and "Suc n < 2 ^ 64"
  shows "unat (a + 1) = Suc (unat a)"
proof -
  have "unat a + unat (1 :: size_t) \<le> Suc n"
    using assms(1) by simp
  from unat_add_no_wrap [OF this assms(2)] show ?thesis by simp
qed

lemma line_count_new_records [simp]: "line_count (map LineRecord_new lines) i = 0"
  by (simp add: line_count_def LineRecord_new_def)

lemma line_count_new_states [simp]: "line_count (replicate k LineState_new) i = 0"
  by (simp add: line_count_def LineState_new_def)

lemma frame_nonneg_new [simp]: "frame_nonneg (FrameState_new c k line_start)"
  by (simp add: frame_nonneg_def FrameState_new_def LineState_new_def list_all_length)

lemma profile_call_inv:
  assumes inv: "session_inv n s" and n: "Suc n < 2 ^ 64"
    and call: "profile_call frame s = Inr s'"
  shows "session_inv (Suc n) s' \<and> accumulators_le s s'"
proof -
  from profile_call_Inr [OF call] obtain lines_py line_start fn where
    fn: "fn = (case py_functions s (f_code frame) of
             None \<Rightarrow> Function_new (co_name frame) (tl lines_py) (f_code frame)
           | Some f \<Rightarrow> f)"
    and s': "s' = s\<lparr>py_functions := (py_functions s)(f_code frame \<mapsto> add_call fn),
              frame_stack := FrameState_new (f_code frame) (length lines_py - 1) line_start
                 # frame_stack s,
              last_instruction := kCall\<rparr>"
    by blast
  have calls: "unat (n_calls fn) \<le> n"
    using inv fn by (auto simp: session_inv_def Function_new_def split: option.splits)
  have calls': "unat (n_calls (add_call fn)) = Suc (unat (n_calls fn))"
    using unat_add_1_no_wrap [OF calls n] by (simp add: add_call_def)
  have rec: "recorded_count ((py_functions s)(f_code frame \<mapsto> add_call fn)) key i =
      recorded_count (py_functions s) key i" for key i
    using fn by (auto simp: recorded_count_def add_call_def function_lines_Function_new
        split: option.splits)
  have pend: "pending_count (frame_stack s') key i = pending_count (frame_stack s) key i"
    for key i
    by (simp add: s' pending_count_Cons FrameState_new_def)
  have "session_inv (Suc n) s'"
    unfolding session_inv_def
  proof (intro conjI allI impI)
    from inv show "list_all frame_nonneg (frame_stack s')"
      by (simp add: s' session_inv_def)
  next
    fix key f assume "py_functions s' key = Some f"
    with inv calls calls' show "unat (n_calls f) \<le> Suc n"
      by (auto simp: s' session_inv_def le_Suc_eq split: if_splits)
  next
    fix nm b assume "c_functions s' nm = Some b"
    with inv show "unat (n_calls b) \<le> Suc n"
      by (auto simp: s' session_inv_def le_Suc_eq)
  next
    fix key i
    from inv have "recorded_count (py_functions s) key i
        + pending_count (frame_stack s) key i \<le> n"
      by (simp add: session_inv_def)
    with rec [of key i] pend [of key i]
    show "recorded_count (py_functions s') key i + pending_count (frame_stack s') key i \<le> Suc n"
      by (simp add: s')
  qed
  moreover have "accumulators_le s s'"
    unfolding accumulators_le_def
  proof (intro conjI allI impI)
    fix key f assume f: "py_functions s key = Some f"
    show "\<exists>f'. py_functions s' key = Some f' \<and> function_le f f'"
    proof (cases "key = f_code frame")
      case True
      with f fn have "fn = f" by simp
      with calls' have "function_le f (add_call fn)"
        by (simp add: function_le_def base_le_def add_call_def word_le_nat_alt)
      with True show ?thesis by (simp add: s')
    next
      case False
      with f show ?thesis by (simp add: s')
    qed
  next
    fix nm b assume "c_functions s nm = Some b"
    then show "\<exists>b'. c_functions s' nm = Some b' \<and> base_le b b'"
      by (simp add: s')
  qed
  ultimately show ?thesis ..
qed


lemma profile_line_inv:
  assumes inv: "session_inv n s" and n: "Suc n < 2 ^ 64"
    and line: "profile_line frame s = Inr s'"
  shows "session_inv (Suc n) s' \<and> accumulators_le s s'"
proof (cases "frame_stack s")
  case Nil
  with line have s': "s' = s\<lparr>last_instruction := kLine\<rparr>"
    by (simp add: profile_line_def)
  have "session_inv n s'"
    using inv by (simp add: s' session_inv_def)
  then show ?thesis
    by (auto intro: session_inv_mono accumulators_le_cong simp: s')
next
  case (Cons fr below)
  let ?fr1 = "fr\<lparr>current_line_no := word_of_int (f_lineno frame)\<rparr>"
  let ?j = "current_line_index ?fr1"
  let ?fr' = "?fr1\<lparr>frame_lines := (frame_lines fr)[?j := line_add_call (frame_lines fr ! ?j)]\<rparr>"
  from line Cons have j: "?j < length (frame_lines fr)"
    and s': "s' = s\<lparr>last_instruction := kLine, frame_stack := ?fr' # below\<rparr>"
    by (auto simp: profile_line_Cons Let_def split: if_splits)
  from inv Cons have nn: "frame_nonneg fr" and nn_below: "list_all frame_nonneg below"
    by (simp_all add: session_inv_def)
  from frame_nonneg_line [OF nn j] have nn': "frame_nonneg ?fr'"
    using nn by (simp add: frame_nonneg_def list_all_update line_add_call_def)
  have bound: "recorded_count (py_functions s) key i
      + ((if function_key fr = key then line_count (frame_lines fr) i else 0)
         + pending_count below key i) \<le> n" for key i
    using inv Cons by (simp add: session_inv_def pending_count_Cons)
  have "unat (line_n_calls (frame_lines fr ! ?j)) \<le> n"
    using bound [of "function_key fr" ?j] j by (simp add: line_count_def)
  from unat_add_1_no_wrap [OF this n]
  have cnt: "line_count (frame_lines ?fr') i =
      (if i = ?j then Suc (line_count (frame_lines fr) i) else line_count (frame_lines fr) i)"
    for i
    using j by (simp add: line_count_update line_add_call_def) (simp add: line_count_def)
  have "session_inv (Suc n) s'"
    unfolding session_inv_def
  proof (intro conjI allI impI)
    from nn' nn_below show "list_all frame_nonneg (frame_stack s')"
      by (simp add: s')
  next
    fix key f assume "py_functions s' key = Some f"
    with inv show "unat (n_calls f) \<le> Suc n"
      by (auto simp: s' session_inv_def le_Suc_eq)
  next
    fix nm b assume "c_functions s' nm = Some b"
    with inv show "unat (n_calls b) \<le> Suc n"
      by (auto simp: s' session_inv_def le_Suc_eq)
  next
    fix key i
    from bound [of key i] cnt [of i]
    show "recorded_count (py_functions s') key i + pending_count (frame_stack s') key i \<le> Suc n"
      by (auto simp: s' pending_count_Cons split: if_splits)
  qed
  moreover have "accumulators_le s s'"
    by (rule accumulators_le_cong) (simp_all add: s')
  ultimately show ?thesis ..
qed

lemma profile_c_call_inv:
  assumes inv: "session_inv n s" and n: "Suc n < 2 ^ 64"
    and call: "profile_c_call frame arg s = Inr s'"
  shows "session_inv (Suc n) s' \<and> accumulators_le s s'"
proof -
  from profile_c_call_Inr [OF call] obtain nm where
    s': "s' = s\<lparr>last_c_name := nm,
              c_functions := (c_functions s)
                (nm \<mapsto> add_call (case c_functions s nm of None \<Rightarrow> BaseFunction_new nm
                                  | Some c \<Rightarrow> c)),
              last_instruction := kCCall\<rparr>"
    by blast
  let ?c = "case c_functions s nm of None \<Rightarrow> BaseFunction_new nm | Some c \<Rightarrow> c"
  have calls: "unat (n_calls ?c) \<le> n"
    using inv by (auto simp: session_inv_def BaseFunction_new_def split: option.splits)
  have calls': "unat (n_calls (add_call ?c)) = Suc (unat (n_calls ?c))"
    using unat_add_1_no_wrap [OF calls n] by (simp add: add_call_def)
  have "session_inv (Suc n) s'"
    unfolding session_inv_def
  proof (intro conjI allI impI)
    from inv show "list_all frame_nonneg (frame_stack s')"
      by (simp add: s' session_inv_def)
  next
    fix key f assume "py_functions s' key = Some f"
    with inv show "unat (n_calls f) \<le> Suc n"
      by (auto simp: s' session_inv_def le_Suc_eq)
  next
    fix nm' b assume "c_functions s' nm' = Some b"
    with inv calls calls' show "unat (n_calls b) \<le> Suc n"
      by (auto simp: s' session_inv_def le_Suc_eq split: if_splits)
  next
    fix key i
    from inv have "recorded_count (py_functions s) key i
        + pending_count (frame_stack s) key i \<le> n"
      by (simp add: session_inv_def)
    then show "recorded_count (py_functions s') key i
        + pending_count (frame_stack s') key i \<le> Suc n"
      by (simp add: s')
  qed
  moreover have "accumulators_le s s'"
    unfolding accumulators_le_def
  proof (intro conjI allI impI)
    fix key f assume "py_functions s key = Some f"
    then show "\<exists>f'. py_functions s' key = Some f' \<and> function_le f f'"
      by (simp add: s')
  next
    fix nm' b assume b: "c_functions s nm' = Some b"
    show "\<exists>b'. c_functions s' nm' = Some b' \<and> base_le b b'"
    proof (cases "nm' = nm")
      case True
      with b have "?c = b" by simp
      with calls' have "base_le b (add_call ?c)"
        by (simp add: base_le_def add_call_def word_le_nat_alt)
      with True show ?thesis by (simp add: s')
    next
      case False
      with b show ?thesis by (simp add: s')
    qed
  qed
  ultimately show ?thesis ..
qed

lemma begin_event_inv:
  assumes inv: "session_inv n s" and n: "Suc n < 2 ^ 64"
    and b: "begin_event w frame arg s = Inr s'"
  shows "session_inv (Suc n) s' \<and> accumulators_le s s'"
proof -
  have same: "session_inv (Suc n) (s\<lparr>last_instruction := k\<rparr>)
      \<and> accumulators_le s (s\<lparr>last_instruction := k\<rparr>)" for k
  proof -
    from inv have "session_inv n (s\<lparr>last_instruction := k\<rparr>)"
      by (simp add: session_inv_def)
    then show ?thesis
      by (auto intro: session_inv_mono accumulators_le_cong)
  qed
  from same [of "last_instruction s"] have same': "session_inv (Suc n) s \<and> accumulators_le s s"
    by simp
  show ?thesis
  proof (cases w)
    case PyTrace_CALL
    with b profile_call_inv [OF inv n] show ?thesis by simp
  next
    case PyTrace_LINE
    with b profile_line_inv [OF inv n] show ?thesis by simp
  next
    case PyTrace_C_CALL
    with b profile_c_call_inv [OF inv n] show ?thesis by simp
  next
    case PyTrace_RETURN
    with b same [of kReturn] show ?thesis by (auto simp: profile_return_def)
  next
    case PyTrace_C_RETURN
    with b same [of kCReturn] show ?thesis by (auto simp: profile_c_return_def)
  next
    case PyTrace_C_EXCEPTION
    with b same [of kCReturn] show ?thesis by (auto simp: profile_c_return_def)
  next
    case PyTrace_EXCEPTION
    with b same' show ?thesis by auto
  next
    case PyTrace_OPCODE
    with b same' show ?thesis by auto
  next
    case PyTrace_other
    with b show ?thesis by simp
  qed
qed

lemma profile_inv:
  assumes inv: "session_inv n s" and n: "Suc n < 2 ^ 64"
    and clock: "attributes_time (last_instruction s) \<longrightarrow> last_instruction_start s \<le> now1"
    and p: "profile w frame arg now1 now2 s = Inr s'"
  shows "session_inv (Suc n) s' \<and> accumulators_le s s' \<and> last_instruction_start s' = now2"
proof -
  from p obtain s2 s3 where
    f: "finish (last_instruction s) frame (s\<lparr>last_instruction_end := now1\<rparr>) = Inr s2"
    and b: "begin_event w frame arg s2 = Inr s3"
    and s': "s' = s3\<lparr>last_instruction_start := now2\<rparr>"
    by (auto simp: profile_Inr)
  let ?s1 = "s\<lparr>last_instruction_end := now1\<rparr>"
  from inv have 1: "session_inv n ?s1"
    by (simp add: session_inv_def)
  from n have n': "n < 2 ^ 64" by simp
  from clock have "attributes_time (last_instruction s) \<longrightarrow> 0 \<le> elapsed ?s1"
    by (simp add: elapsed_def)
  from finish_inv [OF 1 n' this f] have 2: "session_inv n s2" "accumulators_le ?s1 s2"
    by simp_all
  from begin_event_inv [OF 2(1) n b] have 3: "session_inv (Suc n) s3" "accumulators_le s2 s3"
    by simp_all
  have "accumulators_le s ?s1"
    by (rule accumulators_le_cong) simp_all
  with 2(2) 3(2) have "accumulators_le s s3"
    by (blast intro: accumulators_le_trans)
  moreover have "accumulators_le s3 s'"
    by (rule accumulators_le_cong) (simp_all add: s')
  ultimately have "accumulators_le s s'"
    by (rule accumulators_le_trans)
  moreover from 3(1) have "session_inv (Suc n) s'"
    by (simp add: s' session_inv_def)
  ultimately show ?thesis
    by (simp add: s')
qed


lemma clock_ok_step:
  assumes "clock_ok s (e # es)" and "last_instruction_start s' = ev_now2 e"
  shows "clock_ok s' es"
  using assms by (cases es) (auto simp: clock_ok_def)

lemma clock_ok_head:
  assumes "clock_ok s (e # es)"
  shows "attributes_time (last_instruction s) \<longrightarrow> last_instruction_start s \<le> ev_now1 e"
  using assms by (auto simp: clock_ok_def)

lemma run_inv:
  assumes "session_inv n s" and "n + length es < 2 ^ 64" and "clock_ok s es"
    and "run es s = Inr s'"
  shows "session_inv (n + length es) s' \<and> accumulators_le s s'"
  using assms
proof (induction es arbitrary: n s)
  case Nil
  then show ?case by simp
next
  case (Cons e es)
  from Cons.prems(4) obtain s1 where
    p: "profile (ev_what e) (ev_frame e) (ev_arg e) (ev_now1 e) (ev_now2 e) s = Inr s1"
    and r: "run es s1 = Inr s'"
    by (auto simp: bindE_Inr)
  from Cons.prems(2) have n: "Suc n < 2 ^ 64" and n': "Suc n + length es < 2 ^ 64"
    by simp_all
  from profile_inv [OF Cons.prems(1) n clock_ok_head [OF Cons.prems(3)] p]
  have 1: "session_inv (Suc n) s1" "accumulators_le s s1" "last_instruction_start s1 = ev_now2 e"
    by simp_all
  from Cons.IH [OF 1(1) n' clock_ok_step [OF Cons.prems(3) 1(3)] r] 1(2)
  show ?case
    by (auto intro: accumulators_le_trans)
qed

lemma run_split_le:
  assumes "session_inv n s" and "n + length (es1 @ es2) < 2 ^ 64"
    and "clock_ok s (es1 @ es2)" and "run (es1 @ es2) s = Inr s2"
  shows "\<exists>s1. run es1 s = Inr s1 \<and> accumulators_le s1 s2"
  using assms
proof (induction es1 arbitrary: n s)
  case Nil
  from run_inv [of n s es2 s2] Nil show ?case by simp
next
  case (Cons e es1)
  from Cons.prems(4) obtain sa where
    p: "profile (ev_what e) (ev_frame e) (ev_arg e) (ev_now1 e) (ev_now2 e) s = Inr sa"
    and r: "run (es1 @ es2) sa = Inr s2"
    by (auto simp: bindE_Inr)
  from Cons.prems(2) have n: "Suc n < 2 ^ 64" and n': "Suc n + length (es1 @ es2) < 2 ^ 64"
    by simp_all
  from Cons.prems(3) have c: "clock_ok s (e # (es1 @ es2))" by simp
  from profile_inv [OF Cons.prems(1) n clock_ok_head [OF c] p]
  have 1: "session_inv (Suc n) sa" "last_instruction_start sa = ev_now2 e"
    by simp_all
  from Cons.IH [OF 1(1) n' clock_ok_step [OF c 1(2)] r] p show ?case
    by simp
qed

lemma session_inv_start: "session_inv 0 (start Module_new)"
  by (simp add: session_inv_def start_def Module_new_def recorded_count_def)

lemma line_within_mono: "line_within B l \<Longrightarrow> B \<le> B' \<Longrightarrow> line_within B' l"
  by (auto simp: line_within_def)

lemma bound_mono:
  fixes T T' :: int
  assumes "n \<le> n'" and "T \<le> T'" and "0 \<le> T"
  shows "int n * T \<le> int n' * T'"
  using assms by (intro mult_mono) simp_all

lemma aggregates_within_mono:
  assumes "aggregates_within B s" and "B \<le> B'"
  shows "aggregates_within B' s"
  unfolding aggregates_within_def
proof (intro conjI allI impI)
  fix key f assume "py_functions s key = Some f"
  with assms(1) have "0 \<le> internal_time f" "internal_time f \<le> B"
    "list_all (line_within B) (function_lines f)"
    by (auto simp: aggregates_within_def)
  with assms(2) show "0 \<le> internal_time f" "internal_time f \<le> B'"
    "list_all (line_within B') (function_lines f)"
    by (auto simp: list_all_iff intro: line_within_mono)
next
  fix nm c assume "c_functions s nm = Some c"
  with assms(1) have "0 \<le> internal_time c" "internal_time c \<le> B"
    by (auto simp: aggregates_within_def)
  with assms(2) show "0 \<le> internal_time c" "internal_time c \<le> B'"
    by auto
qed

lemma aggregates_within_cong:
  "aggregates_within B s \<Longrightarrow> py_functions s' = py_functions s \<Longrightarrow>
   c_functions s' = c_functions s \<Longrightarrow> aggregates_within B s'"
  by (simp add: aggregates_within_def)

lemma share_nonneg_parts:
  assumes "list_all frame_nonneg stk" and "stk \<noteq> []"
  shows "0 \<le> frame_internal (last stk)" and "0 \<le> (\<Sum>fr\<leftarrow>stk. total_time fr)"
    and "fr \<in> set stk \<Longrightarrow> total_time fr \<le> (\<Sum>fr\<leftarrow>stk. total_time fr)"
proof -
  from assms have "frame_nonneg (last stk)"
    by (simp add: list_all_iff)
  then show "0 \<le> frame_internal (last stk)"
    by (simp add: frame_nonneg_def)
  from assms(1) have nn: "\<forall>fr\<in>set stk. 0 \<le> total_time fr"
    by (auto simp: list_all_iff intro: frame_nonneg_total_time)
  then show "0 \<le> (\<Sum>fr\<leftarrow>stk. total_time fr)"
    by (auto intro!: sum_list_nonneg)
  show "total_time fr \<le> (\<Sum>fr\<leftarrow>stk. total_time fr)" if "fr \<in> set stk"
    using that nn
  proof (induction stk)
    case Nil
    then show ?case by simp
  next
    case (Cons g stk)
    then have "0 \<le> (\<Sum>fr\<leftarrow>stk. total_time fr)"
      by (auto intro!: sum_list_nonneg)
    with Cons show ?case by auto
  qed
qed

lemma line_le_total_time:
  assumes "frame_nonneg fr" and "i < length (frame_lines fr)"
  shows "line_internal (frame_lines fr ! i) \<le> total_time fr"
    and "line_external (frame_lines fr ! i) \<le> total_time fr"
proof -
  have "0 \<le> line_internal l \<and> 0 \<le> line_external l" if "l \<in> set (frame_lines fr)" for l
    using assms(1) that by (simp add: frame_nonneg_def list_all_iff)
  then have "i < length ls \<Longrightarrow> (\<forall>l\<in>set ls. 0 \<le> line_internal l \<and> 0 \<le> line_external l) \<Longrightarrow>
      line_internal (ls ! i) + line_external (ls ! i)
        \<le> (\<Sum>l\<leftarrow>ls. line_internal l + line_external l)"
    for ls :: "LineState list"
  proof (induction ls arbitrary: i)
    case Nil
    then show ?case by simp
  next
    case (Cons l ls)
    have "0 \<le> (\<Sum>l\<leftarrow>ls. line_internal l + line_external l)"
      using Cons.prems(2) by (auto intro!: sum_list_nonneg)
    with Cons show ?case
      by (cases i) (auto intro: add_increasing)
  qed
  from this [OF assms(2)] frame_nonneg_line [OF assms] assms(1)
  have "line_internal (frame_lines fr ! i) + line_external (frame_lines fr ! i) \<le> total_time fr"
    by (simp add: total_time_eq frame_nonneg_def list_all_iff)
  with frame_nonneg_line [OF assms]
  show "line_internal (frame_lines fr ! i) \<le> total_time fr"
    and "line_external (frame_lines fr ! i) \<le> total_time fr"
    by simp_all
qed

lemma top_within:
  assumes "time_inv n T s" and "list_all frame_nonneg (frame_stack s)"
    and "frame_stack s = fr # below"
  shows "frame_internal fr \<le> T" and "total_time fr \<le> T"
    and "frame_internal fr + total_time fr \<le> T"
proof -
  from assms(1,3) have "share (take (Suc 0) (frame_stack s)) \<le> T"
    unfolding time_inv_def by (elim conjE allE [of _ 0]) simp
  with assms(3) have s: "frame_internal fr + total_time fr \<le> T"
    by (simp add: share_def)
  from assms(2,3) have "frame_nonneg fr" by simp
  then have "0 \<le> frame_internal fr" "0 \<le> total_time fr"
    by (simp_all add: frame_nonneg_def frame_nonneg_total_time)
  with s show "frame_internal fr \<le> T" "total_time fr \<le> T"
    "frame_internal fr + total_time fr \<le> T"
    by simp_all
qed

lemma finish_stack_length:
  assumes "finish k frame s = Inr s'"
  shows "length (frame_stack s') =
     (if k = kReturn then length (frame_stack s) - 1 else length (frame_stack s))"
    and "k = kReturn \<longrightarrow> frame_stack s \<noteq> []"
proof -
  have "length (frame_stack s') =
     (if k = kReturn then length (frame_stack s) - 1 else length (frame_stack s))
     \<and> (k = kReturn \<longrightarrow> frame_stack s \<noteq> [])"
  proof (cases k)
    case kReturn
    with assms obtain fr below where st: "frame_stack s = fr # below"
      and pop: "pop_frame (s\<lparr>frame_stack :=
          fr\<lparr>frame_internal := frame_internal fr + elapsed s\<rparr> # below\<rparr>) = Inr s'"
      by (auto simp: finish_return_eq split: list.splits)
    from pop_frame_Inr [OF pop] have "length (frame_stack s') = length below"
      by (cases below) auto
    with st kReturn show ?thesis by simp
  next
    case kCall
    with assms finish_call_stack [of frame s s'] show ?thesis by simp
  next
    case kLine
    with assms show ?thesis by (auto simp: finish_line_Inr)
  next
    case kCCall
    with assms show ?thesis by (auto simp: finish_ccall_Inr)
  next
    case kCReturn
    with assms show ?thesis by (auto simp: finish_creturn_Inr)
  qed (use assms in \<open>auto simp: finish_origin_def\<close>)
  then show "length (frame_stack s') =
     (if k = kReturn then length (frame_stack s) - 1 else length (frame_stack s))"
    and "k = kReturn \<longrightarrow> frame_stack s \<noteq> []"
    by simp_all
qed

lemma time_finish_stack:
  assumes f: "finish k frame s = Inr s'"
    and inv: "\<forall>i < length (frame_stack s). share (take (Suc i) (frame_stack s)) \<le> T"
    and d: "attributes_time k \<longrightarrow> 0 \<le> elapsed s"
    and T': "T + (if attributes_time k then elapsed s else 0) \<le> T'"
  shows "\<forall>i < length (frame_stack s'). share (take (Suc i) (frame_stack s')) \<le> T'"
proof (cases "attributes_time k")
  case False
  then have "k \<in> {kOrigin, kException, kCException, kInvalid}"
    by (cases k) (simp_all add: attributes_time_def)
  with f have "frame_stack s' = frame_stack s"
    by (auto simp: finish_origin_def)
  with inv T' False show ?thesis by auto
next
  case True
  then have k: "k \<in> {kCall, kLine, kCCall, kCReturn, kReturn}"
    by (auto simp: attributes_time_def)
  from True d T' have T'': "T + elapsed s \<le> T'" and T0: "T \<le> T'"
    by simp_all
  note len = finish_stack_length [OF f]
  show ?thesis
  proof (intro allI impI)
    fix i assume i: "i < length (frame_stack s')"
    let ?m = "if k = kReturn then Suc (Suc i) else Suc i"
    let ?stk = "take ?m (frame_stack s)" and ?below = "drop ?m (frame_stack s)"
    from i len have m: "?m \<le> length (frame_stack s)"
      by (auto split: if_splits)
    then have l: "length ?stk = ?m" by simp
    have st: "frame_stack s = ?stk @ ?below" by simp
    from l have ne: "?stk \<noteq> []" by (auto split: if_splits)
    from m have ret: "k = kReturn \<longrightarrow> 2 \<le> length ?stk" by auto
    from share_finish [OF f st ne k ret] obtain stk' where
      a: "frame_stack s' = stk' @ ?below"
        "length stk' = (if k = kReturn then length ?stk - 1 else length ?stk)"
        "share stk' = share ?stk
         + (if k = kLine \<or> k = kCCall \<or> (k = kCReturn \<and> length ?stk = 1)
            then elapsed s else 0)"
      by (elim exE conjE)
    from a(2) l have "length stk' = Suc i" by (simp split: if_splits)
    with a(1) have t: "take (Suc i) (frame_stack s') = stk'" by simp
    from m have "?m - 1 < length (frame_stack s)" by (simp split: if_splits)
    with inv have "share (take (Suc (?m - 1)) (frame_stack s)) \<le> T" by blast
    then have "share ?stk \<le> T" by (simp split: if_splits)
    with a(3) d True T'' T0 show "share (take (Suc i) (frame_stack s')) \<le> T'"
      unfolding t by (simp split: if_splits)
  qed
qed

lemma aggregates_pop:
  assumes agg: "aggregates_within B s" and pop: "pop_frame s = Inr s'"
    and nn: "list_all frame_nonneg (frame_stack s)"
    and X: "\<forall>fr below. frame_stack s = fr # below \<longrightarrow>
              frame_internal fr \<le> X \<and> total_time fr \<le> X"
    and B: "0 \<le> B"
  shows "aggregates_within (B + X) s'"
proof -
  from pop_frame_Inr [OF pop] obtain fr below fn where st: "frame_stack s = fr # below"
    and fn: "py_functions s (function_key fr) = Some fn"
    and len: "length (frame_lines fr) \<le> length (function_lines fn)"
    and last: "below = [] \<longrightarrow>
          s' = s\<lparr>py_functions := popped_functions fr fn s, frame_stack := []\<rparr>"
    and caller: "\<forall>caller r. below = caller # r \<longrightarrow>
           current_line_index caller < length (frame_lines caller) \<and>
           s' = s\<lparr>py_functions := popped_functions fr fn s,
                  frame_stack := caller\<lparr>frame_lines := (frame_lines caller)
                     [current_line_index caller :=
                        add_external (total_time fr)
                          (frame_lines caller ! current_line_index caller)]\<rparr> # r\<rparr>"
    by (elim exE conjE)
  let ?recs = "function_lines fn" and ?ls = "frame_lines fr"
  let ?fn' = "fn\<lparr>internal_time := internal_time fn + frame_internal fr,
                function_lines := zip_plus ?recs ?ls\<rparr>"
  have fs': "py_functions s' = (py_functions s)(function_key fr \<mapsto> ?fn')"
    and cs': "c_functions s' = c_functions s"
    using last caller by (cases below; simp add: popped_functions_def)+
  from nn st have nn_fr: "frame_nonneg fr" by simp
  from X st have x: "frame_internal fr \<le> X" "total_time fr \<le> X" by simp_all
  from nn_fr have x0: "0 \<le> frame_internal fr" by (simp add: frame_nonneg_def)
  with x have X0: "0 \<le> X" by simp
  from agg fn have a: "0 \<le> internal_time fn" "internal_time fn \<le> B"
    "list_all (line_within B) ?recs"
    by (auto simp: aggregates_within_def)
  have lines: "list_all (line_within (B + X)) (zip_plus ?recs ?ls)"
    unfolding list_all_length
  proof (intro allI impI)
    fix i assume "i < length (zip_plus ?recs ?ls)"
    then have i: "i < length ?recs" by simp
    with a(3) have r: "line_within B (?recs ! i)" by (simp add: list_all_length)
    show "line_within (B + X) (zip_plus ?recs ?ls ! i)"
    proof (cases "i < length ?ls")
      case True
      from line_le_total_time [OF nn_fr True] frame_nonneg_line [OF nn_fr True] x(2) r i True
      show ?thesis
        by (simp add: zip_plus_nth plus_eq_def line_within_def)
    next
      case False
      with r i X0 show ?thesis
        by (simp add: zip_plus_nth line_within_def)
    qed
  qed
  from agg have agg': "aggregates_within (B + X) s"
    by (rule aggregates_within_mono) (use X0 in simp)
  show ?thesis
    unfolding aggregates_within_def
  proof (intro conjI allI impI)
    fix key f assume f: "py_functions s' key = Some f"
    show "0 \<le> internal_time f" "internal_time f \<le> B + X"
      "list_all (line_within (B + X)) (function_lines f)"
    proof -
      have "0 \<le> internal_time f \<and> internal_time f \<le> B + X
          \<and> list_all (line_within (B + X)) (function_lines f)"
      proof (cases "key = function_key fr")
        case True
        with f have "f = ?fn'" by (simp add: fs')
        with a x x0 lines show ?thesis by simp
      next
        case False
        with f have "py_functions s key = Some f" by (simp add: fs')
        with agg' show ?thesis by (auto simp: aggregates_within_def)
      qed
      then show "0 \<le> internal_time f" "internal_time f \<le> B + X"
        "list_all (line_within (B + X)) (function_lines f)"
        by simp_all
    qed
  next
    fix nm c assume "c_functions s' nm = Some c"
    then have "c_functions s nm = Some c" by (simp add: cs')
    with agg' show "0 \<le> internal_time c" "internal_time c \<le> B + X"
      by (auto simp: aggregates_within_def)
  qed
qed

lemma aggregates_finish:
  assumes agg: "aggregates_within B s" and B: "0 \<le> B"
    and nn: "list_all frame_nonneg (frame_stack s)"
    and d: "attributes_time k \<longrightarrow> 0 \<le> elapsed s \<and> elapsed s \<le> X"
    and X0: "0 \<le> X"
    and X: "k = kReturn \<longrightarrow> (\<forall>fr below. frame_stack s = fr # below \<longrightarrow>
              frame_internal fr + elapsed s \<le> X \<and> total_time fr \<le> X)"
    and f: "finish k frame s = Inr s'"
  shows "aggregates_within (B + X) s'"
proof -
  from agg have agg': "aggregates_within (B + X) s"
    by (rule aggregates_within_mono) (use X0 in simp)
  have same: ?thesis if "py_functions s' = py_functions s" "c_functions s' = c_functions s"
    using agg' that by (rule aggregates_within_cong)
  show ?thesis
  proof (cases k)
    case kCall
    with f obtain fn where fn: "py_functions s (f_code frame) = Some fn"
      and s': "s' = s\<lparr>py_functions := (py_functions s)
               (f_code frame \<mapsto> fn\<lparr>internal_time := internal_time fn + elapsed s\<rparr>)\<rparr>"
      by (auto simp: finish_call_Inr)
    from agg fn have a: "0 \<le> internal_time fn" "internal_time fn \<le> B"
      "list_all (line_within B) (function_lines fn)"
      by (auto simp: aggregates_within_def)
    from d kCall have e: "0 \<le> elapsed s" "elapsed s \<le> X"
      by (simp_all add: attributes_time_def)
    from a(3) X0 have l: "list_all (line_within (B + X)) (function_lines fn)"
      by (auto simp: list_all_iff intro: line_within_mono)
    show ?thesis
      unfolding aggregates_within_def
    proof (intro conjI allI impI)
      fix key g assume g: "py_functions s' key = Some g"
      have "0 \<le> internal_time g \<and> internal_time g \<le> B + X
          \<and> list_all (line_within (B + X)) (function_lines g)"
      proof (cases "key = f_code frame")
        case True
        with g have "g = fn\<lparr>internal_time := internal_time fn + elapsed s\<rparr>"
          by (simp add: s')
        with a e l show ?thesis by simp
      next
        case False
        with g have "py_functions s key = Some g" by (simp add: s')
        with agg' show ?thesis by (auto simp: aggregates_within_def)
      qed
      then show "0 \<le> internal_time g" "internal_time g \<le> B + X"
        "list_all (line_within (B + X)) (function_lines g)"
        by simp_all
    next
      fix nm c assume "c_functions s' nm = Some c"
      then have "c_functions s nm = Some c" by (simp add: s')
      with agg' show "0 \<le> internal_time c" "internal_time c \<le> B + X"
        by (auto simp: aggregates_within_def)
    qed
  next
    case kCCall
    with f obtain c_function where
      c: "c_functions s (last_c_name s) = Some c_function"
      and fs': "py_functions s' = py_functions s"
      and cs': "c_functions s' = (c_functions s)
               (last_c_name s \<mapsto> c_function\<lparr>internal_time := internal_time c_function + elapsed s\<rparr>)"
      by (auto simp: finish_ccall_Inr)
    from agg c have a: "0 \<le> internal_time c_function" "internal_time c_function \<le> B"
      by (auto simp: aggregates_within_def)
    from d kCCall have e: "0 \<le> elapsed s" "elapsed s \<le> X"
      by (simp_all add: attributes_time_def)
    show ?thesis
      unfolding aggregates_within_def
    proof (intro conjI allI impI)
      fix key g assume "py_functions s' key = Some g"
      then have "py_functions s key = Some g" by (simp add: fs')
      with agg' show "0 \<le> internal_time g" "internal_time g \<le> B + X"
        "list_all (line_within (B + X)) (function_lines g)"
        by (auto simp: aggregates_within_def)
    next
      fix nm b assume b: "c_functions s' nm = Some b"
      have "0 \<le> internal_time b \<and> internal_time b \<le> B + X"
      proof (cases "nm = last_c_name s")
        case True
        with b have "b = c_function\<lparr>internal_time := internal_time c_function + elapsed s\<rparr>"
          by (simp add: cs')
        with a e show ?thesis by simp
      next
        case False
        with b have "c_functions s nm = Some b" by (simp add: cs')
        with agg' show ?thesis by (auto simp: aggregates_within_def)
      qed
      then show "0 \<le> internal_time b" "internal_time b \<le> B + X"
        by simp_all
    qed
  next
    case kLine
    with f show ?thesis by (intro same) (auto simp: finish_line_Inr)
  next
    case kCReturn
    with f show ?thesis by (intro same) (auto simp: finish_creturn_Inr)
  next
    case kReturn
    with f obtain fr below where st: "frame_stack s = fr # below"
      and pop: "pop_frame (s\<lparr>frame_stack :=
          fr\<lparr>frame_internal := frame_internal fr + elapsed s\<rparr> # below\<rparr>) = Inr s'"
      by (auto simp: finish_return_eq split: list.splits)
    let ?fr1 = "fr\<lparr>frame_internal := frame_internal fr + elapsed s\<rparr>"
    let ?s1 = "s\<lparr>frame_stack := ?fr1 # below\<rparr>"
    from d kReturn have e: "0 \<le> elapsed s"
      by (simp add: attributes_time_def)
    from agg have 1: "aggregates_within B ?s1"
      by (rule aggregates_within_cong) simp_all
    from nn st e have 2: "list_all frame_nonneg (frame_stack ?s1)"
      by (simp add: frame_nonneg_def)
    from X kReturn st have 3: "\<forall>g below'. frame_stack ?s1 = g # below' \<longrightarrow>
              frame_internal g \<le> X \<and> total_time g \<le> X"
      by (simp add: total_time_eq)
    from aggregates_pop [OF 1 pop 2 3 B] show ?thesis .
  qed (use f in \<open>auto intro: same simp: finish_origin_def\<close>)
qed

lemma time_finish:
  assumes inv: "time_inv n T s" and nn: "list_all frame_nonneg (frame_stack s)"
    and T: "0 \<le> T"
    and d: "attributes_time k \<longrightarrow> 0 \<le> elapsed s"
    and T': "T + (if attributes_time k then elapsed s else 0) \<le> T'"
    and f: "finish k frame s = Inr s'"
  shows "time_inv (Suc n) T' s'"
proof -
  from inv have st: "\<forall>i < length (frame_stack s). share (take (Suc i) (frame_stack s)) \<le> T"
    and agg: "aggregates_within (int n * T) s"
    by (simp_all add: time_inv_def)
  from d T' have TT: "T \<le> T'" by (simp split: if_splits)
  with T have T0: "0 \<le> T'" by simp
  from T have B: "0 \<le> int n * T" by simp
  from d T T' have e: "attributes_time k \<longrightarrow> 0 \<le> elapsed s \<and> elapsed s \<le> T'"
    by auto
  have X: "k = kReturn \<longrightarrow> (\<forall>fr below. frame_stack s = fr # below \<longrightarrow>
              frame_internal fr + elapsed s \<le> T' \<and> total_time fr \<le> T')"
  proof (intro impI allI)
    fix fr below assume k: "k = kReturn" and s: "frame_stack s = fr # below"
    from nn s have "frame_nonneg fr" by simp
    then have "0 \<le> total_time fr" by (rule frame_nonneg_total_time)
    with top_within [OF inv nn s] T' TT d k
    show "frame_internal fr + elapsed s \<le> T' \<and> total_time fr \<le> T'"
      by (simp add: attributes_time_def)
  qed
  from aggregates_finish [OF agg B nn e T0 X f]
  have "aggregates_within (int n * T + T') s'" .
  moreover have "int n * T + T' \<le> int (Suc n) * T'"
    using bound_mono [OF le_refl TT T, of n] by (simp add: algebra_simps)
  ultimately have "aggregates_within (int (Suc n) * T') s'"
    by (rule aggregates_within_mono)
  with time_finish_stack [OF f st d T'] show ?thesis
    by (simp add: time_inv_def)
qed

lemma begin_event_stack:
  assumes "begin_event w frame arg s = Inr s'"
  shows "w \<noteq> PyTrace_CALL \<longrightarrow> length (frame_stack s') = length (frame_stack s)"
    and "w = PyTrace_CALL \<longrightarrow>
      (\<exists>n line_start. frame_stack s' = FrameState_new (f_code frame) n line_start # frame_stack s)"
proof -
  show "w = PyTrace_CALL \<longrightarrow>
      (\<exists>n line_start. frame_stack s' = FrameState_new (f_code frame) n line_start # frame_stack s)"
  proof
    assume "w = PyTrace_CALL"
    with assms have "profile_call frame s = Inr s'" by simp
    from profile_call_Inr [OF this] show
      "\<exists>n line_start. frame_stack s' = FrameState_new (f_code frame) n line_start # frame_stack s"
      by (elim exE conjE) auto
  qed
  show "w \<noteq> PyTrace_CALL \<longrightarrow> length (frame_stack s') = length (frame_stack s)"
  proof (cases "frame_stack s = []")
    case True
    show ?thesis
    proof (cases w)
      case PyTrace_LINE
      with assms True show ?thesis by (auto simp: profile_line_def)
    next
      case PyTrace_C_CALL
      with assms have "profile_c_call frame arg s = Inr s'" by simp
      from profile_c_call_Inr [OF this] show ?thesis by (elim exE) simp
    qed (use assms in \<open>auto simp: profile_return_def profile_c_return_def\<close>)
  next
    case False
    have st: "frame_stack s = frame_stack s @ []" by simp
    from share_begin [OF assms st False] show ?thesis
      by (elim exE conjE) simp
  qed
qed

lemma time_begin_stack:
  assumes b: "begin_event w frame arg s = Inr s'"
    and inv: "\<forall>i < length (frame_stack s). share (take (Suc i) (frame_stack s)) \<le> T"
    and T: "0 \<le> T"
  shows "\<forall>i < length (frame_stack s'). share (take (Suc i) (frame_stack s')) \<le> T"
proof (intro allI impI)
  fix i assume i: "i < length (frame_stack s')"
  show "share (take (Suc i) (frame_stack s')) \<le> T"
  proof (cases "w = PyTrace_CALL")
    case True
    with begin_event_stack(2) [OF b] obtain n line_start where
      s': "frame_stack s' = FrameState_new (f_code frame) n line_start # frame_stack s"
      by (elim impE exE) simp_all
    let ?g = "FrameState_new (f_code frame) n line_start"
    have g: "total_time ?g = 0" by (rule total_time_FrameState_new)
    show ?thesis
    proof (cases i)
      case 0
      with T g show ?thesis
        by (simp add: s' share_def FrameState_new_def)
    next
      case (Suc j)
      with i s' have j: "j < length (frame_stack s)" by simp
      then have "take (Suc j) (frame_stack s) \<noteq> []"
        by (cases "frame_stack s") auto
      from share_push(1) [OF this g] inv j Suc show ?thesis
        by (simp add: s')
    qed
  next
    case False
    with begin_event_stack(1) [OF b] i have i': "i < length (frame_stack s)" by simp
    let ?stk = "take (Suc i) (frame_stack s)" and ?below = "drop (Suc i) (frame_stack s)"
    have st: "frame_stack s = ?stk @ ?below" by simp
    from i' have l: "length ?stk = Suc i" by simp
    then have ne: "?stk \<noteq> []" by auto
    from share_begin [OF b st ne] False obtain stk' where
      a: "frame_stack s' = stk' @ ?below" "length stk' = length ?stk" "share stk' = share ?stk"
      by (elim exE conjE) simp
    from a(1,2) l have "take (Suc i) (frame_stack s') = stk'" by simp
    with a(3) inv i' show ?thesis by simp
  qed
qed

lemma aggregates_begin:
  assumes agg: "aggregates_within B s" and B: "0 \<le> B"
    and b: "begin_event w frame arg s = Inr s'"
  shows "aggregates_within B s'"
proof -
  have same: ?thesis if "py_functions s' = py_functions s" "c_functions s' = c_functions s"
    using agg that by (rule aggregates_within_cong)
  show ?thesis
  proof (cases w)
    case PyTrace_CALL
    with b have "profile_call frame s = Inr s'" by simp
    from profile_call_Inr [OF this] obtain lines_py line_start fn where
      fn: "fn = (case py_functions s (f_code frame) of
             None \<Rightarrow> Function_new (co_name frame) (tl lines_py) (f_code frame)
           | Some f \<Rightarrow> f)"
      and fs': "py_functions s' = (py_functions s)(f_code frame \<mapsto> add_call fn)"
      and cs': "c_functions s' = c_functions s"
      by (elim exE conjE) simp
    have new: "0 \<le> internal_time fn \<and> internal_time fn \<le> B
        \<and> list_all (line_within B) (function_lines fn)"
    proof (cases "py_functions s (f_code frame)")
      case None
      with fn B show ?thesis
        by (simp add: Function_new_def emplace_lines_eq list_all_iff line_within_def
            LineRecord_new_def LineState_new_def BaseFunction_new_def)
    next
      case (Some f)
      with fn agg show ?thesis by (auto simp: aggregates_within_def)
    qed
    show ?thesis
      unfolding aggregates_within_def
    proof (intro conjI allI impI)
      fix key g assume g: "py_functions s' key = Some g"
      have "0 \<le> internal_time g \<and> internal_time g \<le> B
          \<and> list_all (line_within B) (function_lines g)"
      proof (cases "key = f_code frame")
        case True
        with g have "g = add_call fn" by (simp add: fs')
        with new show ?thesis by (simp add: add_call_def)
      next
        case False
        with g have "py_functions s key = Some g" by (simp add: fs')
        with agg show ?thesis by (auto simp: aggregates_within_def)
      qed
      then show "0 \<le> internal_time g" "internal_time g \<le> B"
        "list_all (line_within B) (function_lines g)"
        by simp_all
    next
      fix nm c assume "c_functions s' nm = Some c"
      then have "c_functions s nm = Some c" by (simp add: cs')
      with agg show "0 \<le> internal_time c" "internal_time c \<le> B"
        by (auto simp: aggregates_within_def)
    qed
  next
    case PyTrace_C_CALL
    with b have "profile_c_call frame arg s = Inr s'" by simp
    from profile_c_call_Inr [OF this] obtain nm where
      fs': "py_functions s' = py_functions s"
      and cs': "c_functions s' = (c_functions s)
                (nm \<mapsto> add_call (case c_functions s nm of None \<Rightarrow> BaseFunction_new nm
                                  | Some c \<Rightarrow> c))"
      by (elim exE) simp
    let ?c = "case c_functions s nm of None \<Rightarrow> BaseFunction_new nm | Some c \<Rightarrow> c"
    have new: "0 \<le> internal_time ?c \<and> internal_time ?c \<le> B"
      using agg B by (auto simp: aggregates_within_def BaseFunction_new_def split: option.splits)
    show ?thesis
      unfolding aggregates_within_def
    proof (intro conjI allI impI)
      fix key g assume "py_functions s' key = Some g"
      then have "py_functions s key = Some g" by (simp add: fs')
      with agg show "0 \<le> internal_time g" "internal_time g \<le> B"
        "list_all (line_within B) (function_lines g)"
        by (auto simp: aggregates_within_def)
    next
      fix n c assume c: "c_functions s' n = Some c"
      have "0 \<le> internal_time c \<and> internal_time c \<le> B"
      proof (cases "n = nm")
        case True
        with c have "c = add_call ?c" by (simp add: cs')
        with new show ?thesis by (simp add: add_call_def)
      next
        case False
        with c have "c_functions s n = Some c" by (simp add: cs')
        with agg show ?thesis by (auto simp: aggregates_within_def)
      qed
      then show "0 \<le> internal_time c" "internal_time c \<le> B"
        by simp_all
    qed
  next
    case PyTrace_LINE
    with b have "profile_line frame s = Inr s'" by simp
    then show ?thesis
      by (intro same) (auto simp: profile_line_def Let_def bindE_Inr set_top_def
          split: if_splits)
  next
    case PyTrace_RETURN
    with b show ?thesis by (intro same) (auto simp: profile_return_def)
  next
    case PyTrace_C_RETURN
    with b show ?thesis by (intro same) (auto simp: profile_c_return_def)
  next
    case PyTrace_C_EXCEPTION
    with b show ?thesis by (intro same) (auto simp: profile_c_return_def)
  next
    case PyTrace_EXCEPTION
    with b show ?thesis by (intro same) auto
  next
    case PyTrace_OPCODE
    with b show ?thesis by (intro same) auto
  next
    case PyTrace_other
    with b show ?thesis by simp
  qed
qed

lemma time_profile:
  assumes inv: "time_inv n T s" and nn: "list_all frame_nonneg (frame_stack s)"
    and T: "0 \<le> T"
    and d: "attributes_time (last_instruction s) \<longrightarrow> last_instruction_start s \<le> now1"
    and T': "T + (if attributes_time (last_instruction s)
                  then now1 - last_instruction_start s else 0) \<le> T'"
    and p: "profile w frame arg now1 now2 s = Inr s'"
  shows "time_inv (Suc n) T' s'"
proof -
  let ?s1 = "s\<lparr>last_instruction_end := now1\<rparr>"
  from p obtain s2 s3 where
    f: "finish (last_instruction s) frame ?s1 = Inr s2"
    and b: "begin_event w frame arg s2 = Inr s3"
    and s': "s' = s3\<lparr>last_instruction_start := now2\<rparr>"
    unfolding profile_Inr by (elim exE conjE)
  from inv have 1: "time_inv n T ?s1"
    by (simp add: time_inv_def aggregates_within_def)
  from nn have nn1: "list_all frame_nonneg (frame_stack ?s1)" by simp
  from d have d1: "attributes_time (last_instruction s) \<longrightarrow> 0 \<le> elapsed ?s1"
    by (simp add: elapsed_def)
  have "elapsed ?s1 = now1 - last_instruction_start s"
    by (simp add: elapsed_def)
  with T' have T1: "T + (if attributes_time (last_instruction s) then elapsed ?s1 else 0) \<le> T'"
    by (auto split: if_splits)
  from time_finish [OF 1 nn1 T d1 T1 f] have 2: "time_inv (Suc n) T' s2" .
  from d T T' have T0: "0 \<le> T'" by (simp split: if_splits)
  then have B: "0 \<le> int (Suc n) * T'" by simp
  from 2 have "time_inv (Suc n) T' s3"
    using time_begin_stack [OF b _ T0] aggregates_begin [OF _ B b]
    by (simp add: time_inv_def)
  then show ?thesis
    by (simp add: s' time_inv_def aggregates_within_def)
qed

lemma run_time_inv:
  assumes "time_inv n (R - t0) s" and "session_inv n s" and "t0 \<le> R"
    and "sorted (R # clock_readings es)"
    and "attributes_time (last_instruction s) \<longrightarrow> last_instruction_start s = R"
    and "n + length es < 2 ^ 64"
    and "run es s = Inr s'"
  shows "time_inv (n + length es) (last (R # clock_readings es) - t0) s'
     \<and> session_inv (n + length es) s'"
  using assms
proof (induction es arbitrary: n s R)
  case Nil
  then show ?case by simp
next
  case (Cons e es)
  from Cons.prems(7) obtain sa where
    p: "profile (ev_what e) (ev_frame e) (ev_arg e) (ev_now1 e) (ev_now2 e) s = Inr sa"
    and r: "run es sa = Inr s'"
    by (auto simp: bindE_Inr)
  from Cons.prems(6) have n: "Suc n < 2 ^ 64" and n': "Suc n + length es < 2 ^ 64"
    by simp_all
  from Cons.prems(4) have R1: "R \<le> ev_now1 e" and R2: "ev_now1 e \<le> ev_now2 e"
    and srt: "sorted (ev_now2 e # clock_readings es)"
    by simp_all
  from Cons.prems(5) R1
  have clock: "attributes_time (last_instruction s) \<longrightarrow> last_instruction_start s \<le> ev_now1 e"
    by simp
  from profile_inv [OF Cons.prems(2) n clock p]
  have 1: "session_inv (Suc n) sa" "last_instruction_start sa = ev_now2 e"
    by simp_all
  from Cons.prems(2) have nn: "list_all frame_nonneg (frame_stack s)"
    by (simp add: session_inv_def)
  from Cons.prems(3) have T: "0 \<le> R - t0" by simp
  from Cons.prems(5) R1 R2
  have T': "(R - t0) + (if attributes_time (last_instruction s)
                  then ev_now1 e - last_instruction_start s else 0) \<le> ev_now2 e - t0"
    by auto
  from time_profile [OF Cons.prems(1) nn T clock T' p]
  have 2: "time_inv (Suc n) (ev_now2 e - t0) sa" .
  from Cons.prems(3) R1 R2 have t0: "t0 \<le> ev_now2 e" by simp
  from 1(2) have a: "attributes_time (last_instruction sa) \<longrightarrow>
      last_instruction_start sa = ev_now2 e"
    by simp
  from Cons.IH [OF 2 1(1) t0 srt a n' r] show ?case
    by simp
qed

lemma clock_readings_append:
  "clock_readings (xs @ ys) = clock_readings xs @ clock_readings ys"
  by (induction xs) simp_all

lemma clock_readings_Nil: "clock_readings es = [] \<longleftrightarrow> es = []"
  by (cases es) simp_all

lemma time_inv_start: "time_inv 0 T (start Module_new)"
  by (simp add: time_inv_def aggregates_within_def start_def Module_new_def)

lemma frames_within_inv:
  assumes inv: "time_inv n T s" and nn: "list_all frame_nonneg (frame_stack s)"
    and T: "T \<le> B"
  shows "frames_within B s"
proof -
  have "0 \<le> frame_internal (frame_stack s ! i) \<and> frame_internal (frame_stack s ! i) \<le> B
      \<and> list_all (line_within B) (frame_lines (frame_stack s ! i))"
    if i: "i < length (frame_stack s)" for i
  proof -
  let ?stk = "take (Suc i) (frame_stack s)" and ?fr = "frame_stack s ! i"
  from i have lst: "last ?stk = ?fr"
    by (simp add: take_Suc_conv_app_nth)
  from i have ne: "?stk \<noteq> []" and mem: "?fr \<in> set ?stk"
    by (auto simp: take_Suc_conv_app_nth)
  from nn have nn': "list_all frame_nonneg ?stk"
    by (auto simp: list_all_iff dest: in_set_takeD)
  from nn i have nf: "frame_nonneg ?fr"
    by (simp add: list_all_length)
  from inv i have "share ?stk \<le> T"
    by (simp add: time_inv_def)
  then have sh: "frame_internal ?fr + (\<Sum>fr\<leftarrow>?stk. total_time fr) \<le> T"
    by (simp only: share_def lst)
  from nf have a0: "0 \<le> frame_internal ?fr" "0 \<le> total_time ?fr"
    by (simp_all add: frame_nonneg_def frame_nonneg_total_time)
  from share_nonneg_parts(3) [OF nn' ne mem]
  have le: "total_time ?fr \<le> (\<Sum>fr\<leftarrow>?stk. total_time fr)" .
  from sh a0 le
  have a: "0 \<le> frame_internal ?fr" "frame_internal ?fr \<le> T" "total_time ?fr \<le> T"
    by linarith+
  have "list_all (line_within B) (frame_lines ?fr)"
    unfolding list_all_length
  proof (intro allI impI)
    fix j assume j: "j < length (frame_lines ?fr)"
    from line_le_total_time [OF nf j] frame_nonneg_line [OF nf j] a(3) T
    show "line_within B (frame_lines ?fr ! j)"
      by (simp add: line_within_def)
  qed
  with a T show "0 \<le> frame_internal ?fr \<and> frame_internal ?fr \<le> B
      \<and> list_all (line_within B) (frame_lines ?fr)"
    by simp
  qed
  then show ?thesis
    unfolding frames_within_def by (subst list_all_length) blast
qed

lemma session_durations:
  assumes run: "run es (start Module_new) = Inr s"
    and srt: "sorted (clock_readings (es @ es'))"
    and len: "length (es @ es') < 2 ^ 64"
  shows "durations_within (int (length (es @ es')) * clock_span (es @ es')) s"
proof (cases es)
  case Nil
  with run have "s = start Module_new" by simp
  then show ?thesis
    by (simp add: durations_within_def aggregates_within_def frames_within_def start_def
        Module_new_def)
next
  case (Cons e rest)
  let ?rs = "clock_readings (es @ es')"
  let ?t0 = "hd ?rs"
  let ?T = "last (?t0 # clock_readings es) - ?t0"
  from Cons have ne: "es \<noteq> []" by simp
  then have rne: "clock_readings es \<noteq> []" by (simp add: clock_readings_Nil)
  have rs: "?rs = clock_readings es @ clock_readings es'"
    by (rule clock_readings_append)
  from srt have s1: "sorted (clock_readings es)"
    by (simp add: rs sorted_append)
  from rne have hd: "?t0 = hd (clock_readings es)"
    by (simp add: rs)
  with s1 rne have s2: "sorted (?t0 # clock_readings es)"
    by (cases "clock_readings es") simp_all
  have 0: "time_inv 0 (?t0 - ?t0) (start Module_new)"
    by (rule time_inv_start)
  have a: "attributes_time (last_instruction (start Module_new)) \<longrightarrow>
      last_instruction_start (start Module_new) = ?t0"
    by (simp add: start_def attributes_time_def)
  from len have l: "0 + length es < 2 ^ 64" by simp
  have tr: "?t0 \<le> ?t0" by simp
  from run_time_inv [of 0 ?t0 ?t0 "start Module_new" es s, OF 0 session_inv_start tr s2 a l run]
  have inv: "time_inv (length es) ?T s" and sess: "session_inv (length es) s"
    by simp_all
  from sess have nn: "list_all frame_nonneg (frame_stack s)"
    by (simp add: session_inv_def)
  have last_es: "last (?t0 # clock_readings es) = last (clock_readings es)"
    using rne by simp
  have T0: "0 \<le> ?T"
    using s2 rne by (simp add: last_es hd)
  have "last (clock_readings es) \<le> last ?rs"
  proof (cases "clock_readings es' = []")
    case True
    then show ?thesis by (simp add: rs)
  next
    case False
    with srt rne show ?thesis
      by (simp add: rs sorted_append)
  qed
  with ne rne have TS: "?T \<le> clock_span (es @ es')"
    by (simp add: clock_span_def last_es)
  have B: "int (length es) * ?T \<le> int (length (es @ es')) * clock_span (es @ es')"
    by (rule bound_mono [OF _ TS T0]) simp
  from T0 TS have S0: "0 \<le> clock_span (es @ es')" by simp
  from ne have "1 \<le> int (length (es @ es'))"
    by (cases es) simp_all
  with S0 have "clock_span (es @ es') \<le> int (length (es @ es')) * clock_span (es @ es')"
    by (simp add: mult_le_cancel_right1)
  with TS have TB: "?T \<le> int (length (es @ es')) * clock_span (es @ es')"
    by simp
  from inv have "aggregates_within (int (length es) * ?T) s"
    by (simp add: time_inv_def)
  then have "aggregates_within (int (length (es @ es')) * clock_span (es @ es')) s"
    using B by (rule aggregates_within_mono)
  with frames_within_inv [OF inv nn TB] show ?thesis
    by (simp add: durations_within_def)
qed

lemma durations_within_mono:
  assumes "durations_within B s" and "B \<le> B'"
  shows "durations_within B' s"
proof -
  from assms(1) have a: "aggregates_within B s" and f: "frames_within B s"
    by (simp_all add: durations_within_def)
  from a assms(2) have "aggregates_within B' s"
    by (rule aggregates_within_mono)
  moreover have "frames_within B' s"
    unfolding frames_within_def list_all_iff
  proof (intro ballI conjI)
    fix fr assume "fr \<in> set (frame_stack s)"
    with f have 1: "0 \<le> frame_internal fr" "frame_internal fr \<le> B"
      "\<forall>l\<in>set (frame_lines fr). line_within B l"
      by (simp_all add: frames_within_def list_all_iff)
    with assms(2) show "0 \<le> frame_internal fr" "frame_internal fr \<le> B'"
      by simp_all
    fix l assume "l \<in> set (frame_lines fr)"
    with 1(3) assms(2) show "line_within B' l"
      by (blast intro: line_within_mono)
  qed
  ultimately show ?thesis
    by (simp add: durations_within_def)
qed

lemma ex_call_late:
  "profile PyTrace_CALL (ex_frame 10) None 10 10 (start Module_new) = Inr ex_called_late"
  using profile_call_fresh
    [of "ex_frame 10" "[''def f():'', ''  x = g()'', ''  return x'']" 10
      "Module_new\<lparr>last_instruction := kOrigin, last_instruction_end := 10\<rparr>"]
  by (simp add: profile_eq start_def finish_origin_def)
    (simp add: ex_called_late_def ex_called_def ex_frame_def Module_new_def FrameState_new_def
      numeral_2_eq_2)

lemma ex_line_back:
  "profile PyTrace_LINE (ex_frame 11) None 3 3 ex_called_late = Inr ex_clock_back"
  by (simp add: profile_eq finish_call_def elapsed_def add_elapsed_internal_def add_call_def
      profile_line_def top_def set_top_def set_current_line_def current_line_def
      current_line_index_def line_add_call_def ex_called_late_def ex_called_def
      ex_clock_back_def ex_defs numeral_2_eq_2)

text \<open>
  Claim C5, as stated, fails. The engine reads \<^verbatim>\<open>high_resolution_clock\<close>, which
  need not be steady, and no Finish step looks at the sign of \<^verbatim>\<open>elapsed()\<close>. \<open>f\<close> is
  called at clock reading 10 and the next event, on its line 11, is processed at
  reading 3: the Finish step of the call adds \<open>3 - 10\<close> to the aggregate time of \<open>f\<close>,
  which goes from 0 to -7.
\<close>

theorem clock_going_back_decreases_time:
  "run [ex_event PyTrace_CALL 10 10] (start Module_new) = Inr ex_called_late
   \<and> run [ex_event PyTrace_CALL 10 10, ex_event PyTrace_LINE 11 3] (start Module_new)
       = Inr ex_clock_back
   \<and> map_option internal_time (py_functions ex_called_late 1) = Some 0
   \<and> map_option internal_time (py_functions ex_clock_back 1) = Some (- 7)"
proof -
  have 1: "run [ex_event PyTrace_CALL 10 10] (start Module_new) = Inr ex_called_late"
    by (simp only: ex_event_def run.simps Event.select_convs bindE.simps ex_call_late)
  have 2: "run [ex_event PyTrace_CALL 10 10, ex_event PyTrace_LINE 11 3] (start Module_new)
       = Inr ex_clock_back"
    by (simp only: ex_event_def run.simps Event.select_convs bindE.simps ex_call_late
        ex_line_back)
  have 3: "map_option internal_time (py_functions ex_called_late 1) = Some 0"
    by (simp add: ex_called_late_def ex_called_def add_call_def Function_new_def)
  have 4: "map_option internal_time (py_functions ex_clock_back 1) = Some (- 7)"
    by (simp add: ex_clock_back_def)
  from 1 2 3 4 show ?thesis by (intro conjI)
qed

text \<open>
  Claim C5, amended. Take a session, that is the events processed by an engine that
  was created and started, in which the clock never goes back and which is short
  enough for the signed 64-bit durations: the number of its events times the
  nanoseconds between its first and its last clock reading is below \<open>2^63\<close> (and the
  number of events below \<open>2^64\<close>, so that no \<^verbatim>\<open>size_t\<close> count wraps around). Then
  the call count and the aggregate time of every function and of every native
  function, and the call count, the internal time and the external time of every line
  record, never decrease from one point of the session to a later one; and at every
  point of the session every duration the engine holds, in an aggregate, in a line
  record or in a live frame, is between 0 and \<open>2^63 - 1\<close>, so that no addition of the
  C++ code has overflowed.
\<close>

theorem accumulators_never_decrease:
  assumes "run (es1 @ es2) (start Module_new) = Inr s2"
    and "sorted (clock_readings (es1 @ es2))"
    and "length (es1 @ es2) < 2 ^ 64"
    and "int (length (es1 @ es2)) * clock_span (es1 @ es2) < 2 ^ 63"
  shows "\<exists>s1. run es1 (start Module_new) = Inr s1
     \<and> (\<forall>key f. py_functions s1 key = Some f \<longrightarrow>
          (\<exists>f'. py_functions s2 key = Some f'
             \<and> n_calls f \<le> n_calls f' \<and> internal_time f \<le> internal_time f'
             \<and> length (function_lines f') = length (function_lines f)
             \<and> (\<forall>i < length (function_lines f).
                  line_n_calls (function_lines f ! i) \<le> line_n_calls (function_lines f' ! i)
                \<and> line_internal (function_lines f ! i) \<le> line_internal (function_lines f' ! i)
                \<and> line_external (function_lines f ! i) \<le> line_external (function_lines f' ! i))))
     \<and> (\<forall>nm b. c_functions s1 nm = Some b \<longrightarrow>
          (\<exists>b'. c_functions s2 nm = Some b'
             \<and> n_calls b \<le> n_calls b' \<and> internal_time b \<le> internal_time b'))
     \<and> durations_within (2 ^ 63 - 1) s1 \<and> durations_within (2 ^ 63 - 1) s2"
proof -
  have "clock_ok (start Module_new) (es1 @ es2)"
    using assms(2) by (simp add: clock_ok_def start_def attributes_time_def)
  from run_split_le [OF session_inv_start _ this assms(1)] assms(3)
  obtain s1 where r: "run es1 (start Module_new) = Inr s1" and le: "accumulators_le s1 s2"
    by auto
  have "\<exists>f'. py_functions s2 key = Some f'
             \<and> n_calls f \<le> n_calls f' \<and> internal_time f \<le> internal_time f'
             \<and> length (function_lines f') = length (function_lines f)
             \<and> (\<forall>i < length (function_lines f).
                  line_n_calls (function_lines f ! i) \<le> line_n_calls (function_lines f' ! i)
                \<and> line_internal (function_lines f ! i) \<le> line_internal (function_lines f' ! i)
                \<and> line_external (function_lines f ! i) \<le> line_external (function_lines f' ! i))"
    if "py_functions s1 key = Some f" for key f
  proof -
    from le that obtain f' where f': "py_functions s2 key = Some f'" and "function_le f f'"
      unfolding accumulators_le_def by blast
    then show ?thesis
      by (auto simp: function_le_def base_le_def line_le_def list_all2_conv_all_nth)
  qed
  moreover have "\<exists>b'. c_functions s2 nm = Some b'
             \<and> n_calls b \<le> n_calls b' \<and> internal_time b \<le> internal_time b'"
    if "c_functions s1 nm = Some b" for nm b
    using le that unfolding accumulators_le_def base_le_def by blast
  moreover have "durations_within (2 ^ 63 - 1) s1"
  proof -
    from session_durations [OF r assms(2,3)]
    have "durations_within (int (length (es1 @ es2)) * clock_span (es1 @ es2)) s1" .
    then show ?thesis
      by (rule durations_within_mono) (use assms(4) in simp)
  qed
  moreover have "durations_within (2 ^ 63 - 1) s2"
  proof -
    from session_durations [of "es1 @ es2" s2 "[]"] assms(1,2,3)
    have "durations_within (int (length (es1 @ es2)) * clock_span (es1 @ es2)) s2"
      by simp
    then show ?thesis
      by (rule durations_within_mono) (use assms(4) in simp)
  qed
  ultimately show ?thesis
    using r by blast
qed


lemma ex_finish:
  "profile PyTrace_LINE (ex_frame 5) None 22 22 ex_returning = Inr ex_finished"
proof -
  have "finish (last_instruction ex_returning) (ex_frame 5)
        (ex_returning\<lparr>last_instruction_end := 22\<rparr>) = pop_frame ex_at_pop"
    by (simp add: ex_returning_def ex_at_pop_def ex_popped_frame_def finish_return_eq
        elapsed_def FrameState_new_def)
  moreover have "pop_frame ex_at_pop =
      Inr (ex_finished\<lparr>last_instruction := kReturn, last_instruction_start := 17\<rparr>)"
    by (simp add: pop_frame_def top_def ex_at_pop_def ex_returning_def ex_popped_frame_def
        ex_finished_def ex_defs add_elapsed_internal_def merge_lines_0 plus_eq_def
        total_time_def Let_def)
  ultimately show ?thesis
    by (simp add: profile_eq profile_line_def ex_finished_def Module_new_def)
qed

theorem accumulators_never_decrease_witness:
  "run ([ex_event PyTrace_CALL 10 0]
        @ [ex_event PyTrace_LINE 11 7, ex_event PyTrace_RETURN 12 17, ex_event PyTrace_LINE 5 22])
     (start Module_new) = Inr ex_finished
   \<and> sorted (clock_readings ([ex_event PyTrace_CALL 10 0]
        @ [ex_event PyTrace_LINE 11 7, ex_event PyTrace_RETURN 12 17, ex_event PyTrace_LINE 5 22]))
   \<and> clock_span ([ex_event PyTrace_CALL 10 0]
        @ [ex_event PyTrace_LINE 11 7, ex_event PyTrace_RETURN 12 17, ex_event PyTrace_LINE 5 22])
       = 22
   \<and> run [ex_event PyTrace_CALL 10 0] (start Module_new) = Inr ex_called
   \<and> (\<exists>f f'. py_functions ex_called 1 = Some f \<and> py_functions ex_finished 1 = Some f'
         \<and> internal_time f = 0 \<and> internal_time f' = 12
         \<and> n_calls f \<le> n_calls f' \<and> internal_time f \<le> internal_time f'
         \<and> line_internal (function_lines f ! 0) \<le> line_internal (function_lines f' ! 0)
         \<and> internal_time f' \<le> 2 ^ 63 - 1)"
proof -
  let ?es1 = "[ex_event PyTrace_CALL 10 0]"
  let ?es2 = "[ex_event PyTrace_LINE 11 7, ex_event PyTrace_RETURN 12 17,
               ex_event PyTrace_LINE 5 22]"
  have c: "run ?es1 (start Module_new) = Inr ex_called"
    using ex_call by (simp add: ex_event_def)
  have b: "run [ex_event PyTrace_LINE 11 7, ex_event PyTrace_RETURN 12 17] ex_called
      = Inr ex_returning"
    by (rule ex_body)
  have f: "run [ex_event PyTrace_LINE 5 22] ex_returning = Inr ex_finished"
    using ex_finish by (simp add: ex_event_def)
  have "run (?es1 @ [ex_event PyTrace_LINE 11 7, ex_event PyTrace_RETURN 12 17]
      @ [ex_event PyTrace_LINE 5 22]) (start Module_new) = Inr ex_finished"
    by (simp only: run_append c b f bindE.simps)
  then have r: "run (?es1 @ ?es2) (start Module_new) = Inr ex_finished"
    by simp
  have s: "sorted (clock_readings (?es1 @ ?es2))"
    by (simp add: ex_event_def)
  have l: "length (?es1 @ ?es2) < 2 ^ 64"
    by simp
  have sp: "clock_span (?es1 @ ?es2) = 22"
    by (simp add: clock_span_def ex_event_def)
  have d: "int (length (?es1 @ ?es2)) * clock_span (?es1 @ ?es2) < 2 ^ 63"
    unfolding sp by simp
  let ?f = "add_call (Function_new ''f'' [''  x = g()'', ''  return x''] 1)"
  have k: "py_functions ex_called 1 = Some ?f"
    by (simp add: ex_called_def)
  from accumulators_never_decrease [OF r s l d]
  obtain s1 where r1: "run ?es1 (start Module_new) = Inr s1"
    and a: "\<forall>key f. py_functions s1 key = Some f \<longrightarrow>
          (\<exists>f'. py_functions ex_finished key = Some f'
             \<and> n_calls f \<le> n_calls f' \<and> internal_time f \<le> internal_time f'
             \<and> length (function_lines f') = length (function_lines f)
             \<and> (\<forall>i < length (function_lines f).
                  line_n_calls (function_lines f ! i) \<le> line_n_calls (function_lines f' ! i)
                \<and> line_internal (function_lines f ! i) \<le> line_internal (function_lines f' ! i)
                \<and> line_external (function_lines f ! i) \<le> line_external (function_lines f' ! i)))"
    and w: "durations_within (2 ^ 63 - 1) ex_finished"
    by (elim exE conjE)
  from r1 c have "s1 = ex_called" by simp
  with k have "py_functions s1 1 = Some ?f" by simp
  from a [rule_format, OF this]
  obtain f' where f': "py_functions ex_finished 1 = Some f'"
    and le: "n_calls ?f \<le> n_calls f'" "internal_time ?f \<le> internal_time f'"
    and lines: "\<forall>i < length (function_lines ?f).
          line_n_calls (function_lines ?f ! i) \<le> line_n_calls (function_lines f' ! i)
        \<and> line_internal (function_lines ?f ! i) \<le> line_internal (function_lines f' ! i)
        \<and> line_external (function_lines ?f ! i) \<le> line_external (function_lines f' ! i)"
    by (elim exE conjE)
  have "0 < length (function_lines ?f)"
    by (simp add: add_call_def function_lines_Function_new)
  with lines [rule_format, of 0]
  have l0: "line_internal (function_lines ?f ! 0) \<le> line_internal (function_lines f' ! 0)"
    by simp
  have i0: "internal_time ?f = 0"
    by (simp add: add_call_def Function_new_def)
  from f' have i12: "internal_time f' = 12"
    by (auto simp: ex_finished_def)
  from w have "\<forall>key f. py_functions ex_finished key = Some f \<longrightarrow>
        0 \<le> internal_time f \<and> internal_time f \<le> 2 ^ 63 - 1
        \<and> list_all (line_within (2 ^ 63 - 1)) (function_lines f)"
    unfolding durations_within_def aggregates_within_def by (elim conjE)
  from this [rule_format, OF f'] have in_range: "internal_time f' \<le> 2 ^ 63 - 1"
    by (elim conjE)
  show ?thesis
    apply (intro conjI)
        apply (rule r)
       apply (rule s)
      apply (rule sp)
     apply (rule c)
    apply (rule exI [of _ ?f], rule exI [of _ f'])
    apply (intro conjI)
           apply (rule k)
          apply (rule f')
         apply (rule i0)
        apply (rule i12)
       apply (rule le(1))
      apply (rule le(2))
     apply (rule l0)
    apply (rule in_range)
    done
qed

end
